(* ===== verification/Prelude.thy ===== *)
theory Prelude
  imports Main "HOL-Library.Word" "HOL-Library.Multiset"
begin

text \<open>
  What the components share: the outcome type of Go functions (a value, an error, a panic),
  loops that stop at the first error, Go maps and \<^verbatim>\<open>range\<close> loops over them, and the
  types that stand for Go's strings, times and counters.
\<close>

named_theorems go_defs \<open>definitions that proofs about whole operations unfold\<close>

section \<open>Basic types\<close>

text \<open>
  A Go string is a sequence of bytes: \<open>string\<close>, where a \<open>char\<close> is a byte. A
  \<^verbatim>\<open>uint64\<close> is \<open>u64\<close>. A \<^verbatim>\<open>time.Time\<close> is the number of nanoseconds since Go's
  zero time (1 January of the year 1, UTC), so that \<^verbatim>\<open>IsZero\<close> is \<open>t = 0\<close>.
\<close>

type_synonym u64 = "64 word"
type_synonym time = int

abbreviation zero_time :: time where
  "zero_time \<equiv> 0"

section \<open>Outcomes of a call\<close>

text \<open>
  A Go function with results \<^verbatim>\<open>(T, error)\<close> returns a value, returns an error, or panics
  (index out of range, failed type assertion, explicit \<^verbatim>\<open>panic\<close>). All three are values here.
\<close>

datatype ('e, 'a) res = Ok 'a | Err 'e | Panic

fun res_bind :: "('e, 'a) res \<Rightarrow> ('a \<Rightarrow> ('e, 'b) res) \<Rightarrow> ('e, 'b) res" where
  "res_bind (Ok x) f = f x"
| "res_bind (Err e) f = Err e"
| "res_bind Panic f = Panic"

fun is_panic :: "('e, 'a) res \<Rightarrow> bool" where
  "is_panic Panic = True"
| "is_panic (Ok x) = False"
| "is_panic (Err e) = False"

lemma res_bind_cong [fundef_cong]:
  "r = r' \<Longrightarrow> (\<And>x. r' = Ok x \<Longrightarrow> f x = f' x) \<Longrightarrow> res_bind r f = res_bind r' f'"
  by (cases r') auto

lemma res_bind_eq_Ok [simp]:
  "res_bind r f = Ok y \<longleftrightarrow> (\<exists>x. r = Ok x \<and> f x = Ok y)"
  by (cases r) auto

lemma res_bind_eq_Err:
  "res_bind r f = Err e \<longleftrightarrow> r = Err e \<or> (\<exists>x. r = Ok x \<and> f x = Err e)"
  by (cases r) auto

lemma res_bind_eq_Panic:
  "res_bind r f = Panic \<longleftrightarrow> r = Panic \<or> (\<exists>x. r = Ok x \<and> f x = Panic)"
  by (cases r) auto

lemma is_panic_iff: "is_panic r \<longleftrightarrow> r = Panic"
  by (cases r) auto

lemma res_bind_assoc: "res_bind (res_bind r f) g = res_bind r (\<lambda>x. res_bind (f x) g)"
  by (cases r) auto

text \<open>
  \<open>res_map f xs\<close> is the loop that fills a slice with \<open>f\<close> of each element and returns at the
  first element where \<open>f\<close> fails.
\<close>

fun res_map :: "('a \<Rightarrow> ('e, 'b) res) \<Rightarrow> 'a list \<Rightarrow> ('e, 'b list) res" where
  "res_map f [] = Ok []"
| "res_map f (x # xs) =
     res_bind (f x) (\<lambda>y. res_bind (res_map f xs) (\<lambda>ys. Ok (y # ys)))"

lemma res_map_Ok_iff: "res_map f xs = Ok ys \<longleftrightarrow> list_all2 (\<lambda>x y. f x = Ok y) xs ys"
  by (induction xs arbitrary: ys) (auto simp: list_all2_Cons1)

lemma res_map_all_Ok: "(\<And>x. x \<in> set xs \<Longrightarrow> f x = Ok (g x)) \<Longrightarrow> res_map f xs = Ok (map g xs)"
  by (induction xs) auto

lemma res_map_length: "res_map f xs = Ok ys \<Longrightarrow> length ys = length xs"
  by (auto simp: res_map_Ok_iff dest: list_all2_lengthD)

lemma res_map_no_panic:
  "(\<And>x. x \<in> set xs \<Longrightarrow> \<not> is_panic (f x)) \<Longrightarrow> \<not> is_panic (res_map f xs)"
  by (induction xs) (auto simp: is_panic_iff res_bind_eq_Panic)

lemma res_map_first_Err:
  "list_all2 (\<lambda>x y. f x = Ok y) xs ys \<Longrightarrow> f x = Err e \<Longrightarrow> res_map f (xs @ x # zs) = Err e"
  by (induction xs ys rule: list_all2_induct) auto

lemma res_map_Err_iff:
  "(\<And>x. x \<in> set xs \<Longrightarrow> f x \<noteq> Panic) \<Longrightarrow>
    (\<exists>e. res_map f xs = Err e) \<longleftrightarrow> (\<exists>x \<in> set xs. \<exists>e. f x = Err e)"
proof (induction xs)
  case (Cons x xs)
  have "res_map f xs \<noteq> Panic"
    using res_map_no_panic [of xs f] Cons.prems by (auto simp: is_panic_iff)
  with Cons show ?case
    by (cases "f x"; cases "res_map f xs") auto
qed simp

section \<open>Go maps and range loops\<close>

text \<open>
  Reading a missing key of a Go map yields the zero value of the element type.
\<close>

definition lookup0 :: "'v \<Rightarrow> ('k \<rightharpoonup> 'v) \<Rightarrow> 'k \<Rightarrow> 'v" where
  "lookup0 z m k = (case m k of None \<Rightarrow> z | Some v \<Rightarrow> v)"

lemma lookup0_None [simp]: "m k = None \<Longrightarrow> lookup0 z m k = z"
  by (simp add: lookup0_def)

lemma lookup0_Some [simp]: "m k = Some v \<Longrightarrow> lookup0 z m k = v"
  by (simp add: lookup0_def)

lemma lookup0_upd [simp]: "lookup0 z (m(k \<mapsto> v)) k' = (if k' = k then v else lookup0 z m k')"
  by (simp add: lookup0_def)

lemma lookup0_empty [simp]: "lookup0 z Map.empty k = z"
  by (simp add: lookup0_def)

text \<open>
  A \<^verbatim>\<open>range\<close> loop over a map visits its keys once each in an order the language leaves open.
  Such a loop takes the order as an argument \<open>ks\<close>; \<open>ranges m ks\<close> says that \<open>ks\<close> is one of
  the possible orders. A theorem for every such \<open>ks\<close> is a theorem for every order.
\<close>

definition ranges :: "('k \<rightharpoonup> 'v) \<Rightarrow> 'k list \<Rightarrow> bool" where
  "ranges m ks \<longleftrightarrow> distinct ks \<and> set ks = dom m"

lemma ranges_distinct: "ranges m ks \<Longrightarrow> distinct ks"
  by (simp add: ranges_def)

lemma ranges_set: "ranges m ks \<Longrightarrow> set ks = dom m"
  by (simp add: ranges_def)

lemma ranges_empty [simp]: "ranges Map.empty ks \<longleftrightarrow> ks = []"
  by (auto simp: ranges_def)

lemma ranges_mset: "ranges m ks \<Longrightarrow> ranges m ks' \<Longrightarrow> mset ks = mset ks'"
  by (simp add: ranges_def set_eq_iff_mset_eq_distinct [symmetric])

lemma ranges_exists: "finite (dom m) \<Longrightarrow> \<exists>ks. ranges m ks"
  unfolding ranges_def by (metis finite_distinct_list)

text \<open>
  The contract of a loop body whose visits of different keys commute: the state after the loop
  is then the same for every order.
\<close>

locale range_loop =
  fixes body :: "'k \<Rightarrow> 's \<Rightarrow> 's"
  assumes body_commutes: "j \<noteq> k \<Longrightarrow> body j (body k s) = body k (body j s)"
begin

lemma fold_same_mset: "mset ks = mset ks' \<Longrightarrow> fold body ks s = fold body ks' s"
proof -
  assume "mset ks = mset ks'"
  moreover have "body j \<circ> body k = body k \<circ> body j" for j k
    by (cases "j = k") (auto simp: fun_eq_iff body_commutes)
  ultimately show ?thesis
    using fold_multiset_equiv by metis
qed

lemma order_irrelevant: "ranges m ks \<Longrightarrow> ranges m ks' \<Longrightarrow> fold body ks s = fold body ks' s"
  by (intro fold_same_mset ranges_mset)

end

section \<open>Lists\<close>

lemma filter_concat_map: "filter P (concat (map f ks)) = concat (map (filter P \<circ> f) ks)"
  by (induction ks) auto

lemma mset_concat_map_cong:
  "mset ks = mset ks' \<Longrightarrow> mset (concat (map f ks)) = mset (concat (map f ks'))"
proof -
  assume "mset ks = mset ks'"
  then have "mset (map (mset \<circ> f) ks) = mset (map (mset \<circ> f) ks')"
    by (metis mset_map)
  then have "sum_list (map (mset \<circ> f) ks) = sum_list (map (mset \<circ> f) ks')"
    by (metis sum_mset_sum_list)
  then show ?thesis
    by (simp add: mset_concat comp_def)
qed

lemma takeWhile_append_stop:
  "\<not> P c \<Longrightarrow> (\<forall>x \<in> set xs. P x) \<Longrightarrow> takeWhile P (xs @ c # ys) = xs"
  by (induction xs) auto

lemma find_snoc:
  "find P (xs @ [x]) =
     (case find P xs of None \<Rightarrow> if P x then Some x else None | Some y \<Rightarrow> Some y)"
  by (induction xs) auto

lemma find_SomeD: "find P xs = Some x \<Longrightarrow> x \<in> set xs \<and> P x"
  by (induction xs) (auto split: if_splits)

end
