(* ===== verification/Errors.thy ===== *)
theory Errors
  imports Prelude
begin

text \<open>
  The error values of the program (\<^verbatim>\<open>src/log/errors/wrapper.go\<close>) and the key/value fields of
  the logger (\<^verbatim>\<open>src/log/log.go\<close>, \<^verbatim>\<open>src/log/shim.go\<close>). An error of the program carries a
  message, a set of fields and the error it wraps; an error made by \<^verbatim>\<open>fmt.Errorf\<close> or by another
  package is \<open>Foreign\<close> with its text.
\<close>

section \<open>Metadata values\<close>

text \<open>
  An \<^verbatim>\<open>interface{}\<close> that is passed as metadata: a string, a \<^verbatim>\<open>fmt.Stringer\<close> (by the text
  its method returns), a \<^verbatim>\<open>uint64\<close>, or any other value.
\<close>

datatype gvalue = GStr string | GStringer string | GUint u64 | GOther

type_synonym fields = "string \<rightharpoonup> gvalue"

datatype go_error = Annotated string fields "go_error option" | Foreign string

section \<open>Constructors\<close>

text \<open>\<^verbatim>\<open>mk\<close>: the loop over the metadata, two values at a time; a key that is not a string panics.\<close>

fun mk_fields :: "gvalue list \<Rightarrow> fields \<Rightarrow> (go_error, fields) res" where
  "mk_fields [] fs = Ok fs"
| "mk_fields (GStr k # v # meta) fs = mk_fields meta (fs(k \<mapsto> v))"
| "mk_fields meta fs = Panic"

definition mk :: "string \<Rightarrow> gvalue list \<Rightarrow> (go_error, go_error) res" where
  "mk msg meta =
     (if length meta mod 2 \<noteq> 0 then Panic
      else res_bind (mk_fields meta Map.empty) (\<lambda>fs. Ok (Annotated msg fs None)))"

definition New :: "string \<Rightarrow> gvalue list \<Rightarrow> (go_error, go_error) res" where
  "New msg meta = mk msg meta"

text \<open>\<^verbatim>\<open>Wrap\<close> of a nil error is nil, whatever the metadata.\<close>

fun Wrap :: "go_error option \<Rightarrow> string \<Rightarrow> gvalue list \<Rightarrow> (go_error, go_error option) res" where
  "Wrap None msg meta = Ok None"
| "Wrap (Some err) msg meta =
     res_bind (mk msg meta)
       (\<lambda>w. case w of
              Annotated m fs c \<Rightarrow> Ok (Some (Annotated m fs (Some err)))
            | Foreign t \<Rightarrow> Ok (Some (Foreign t)))"

section \<open>Methods\<close>

fun Error :: "go_error \<Rightarrow> string" where
  "Error (Annotated msg fs (Some cause)) =
     (if msg \<noteq> [] then msg @ '': '' @ Error cause else Error cause)"
| "Error (Annotated msg fs None) = msg"
| "Error (Foreign t) = t"

text \<open>
  \<^verbatim>\<open>Fields\<close>: the fields of the cause (if it has the method), overwritten by the error's own.
\<close>

fun Fields :: "go_error \<Rightarrow> fields" where
  "Fields (Annotated msg fs (Some cause)) = Fields cause ++ fs"
| "Fields (Annotated msg fs None) = fs"
| "Fields (Foreign t) = Map.empty"

section \<open>Errors at the call sites\<close>

text \<open>
  Every call of \<^verbatim>\<open>errors.New\<close> and \<^verbatim>\<open>errors.Wrap\<close> in the program passes literal keys, each
  with a value. \<open>new_error\<close> and \<open>wrap_error\<close> build the error of such a call from its key/value
  pairs; \<open>New_pairs\<close> and \<open>Wrap_pairs\<close> show that the constructors return exactly these.
\<close>

fun flat_meta :: "(string \<times> gvalue) list \<Rightarrow> gvalue list" where
  "flat_meta [] = []"
| "flat_meta ((k, v) # kvs) = GStr k # v # flat_meta kvs"

definition new_error :: "string \<Rightarrow> (string \<times> gvalue) list \<Rightarrow> go_error" where
  "new_error msg kvs = Annotated msg (fold (\<lambda>(k, v) m. m(k \<mapsto> v)) kvs Map.empty) None"

definition wrap_error :: "go_error \<Rightarrow> string \<Rightarrow> (string \<times> gvalue) list \<Rightarrow> go_error" where
  "wrap_error err msg kvs =
     Annotated msg (fold (\<lambda>(k, v) m. m(k \<mapsto> v)) kvs Map.empty) (Some err)"

lemma even_flat_meta [simp]: "length (flat_meta kvs) mod 2 = 0"
  by (induction kvs rule: flat_meta.induct) (auto simp: mod_Suc)

lemma mk_fields_flat_meta [simp]:
  "mk_fields (flat_meta kvs) fs = Ok (fold (\<lambda>(k, v) m. m(k \<mapsto> v)) kvs fs)"
  by (induction kvs arbitrary: fs rule: flat_meta.induct) auto

lemma New_pairs: "New msg (flat_meta kvs) = Ok (new_error msg kvs)"
  by (simp add: New_def mk_def new_error_def)

lemma Wrap_pairs: "Wrap (Some err) msg (flat_meta kvs) = Ok (Some (wrap_error err msg kvs))"
  by (simp add: mk_def wrap_error_def)

text \<open>A constructor panics exactly on metadata that is not a list of string-keyed pairs.\<close>

lemma mk_fields_Ok_flat: "mk_fields meta fs = Ok fs' \<Longrightarrow> \<exists>kvs. meta = flat_meta kvs"
proof (induction meta fs arbitrary: fs' rule: mk_fields.induct)
  case (1 fs)
  have "[] = flat_meta []" by simp
  then show ?case by blast
next
  case (2 k v meta fs)
  then obtain kvs where "meta = flat_meta kvs" by (auto simp: fun_upd_def)
  then have "GStr k # v # meta = flat_meta ((k, v) # kvs)" by simp
  then show ?case by blast
qed simp_all

lemma mk_fields_not_Err: "mk_fields meta fs \<noteq> Err e"
  by (induction meta fs rule: mk_fields.induct) (auto simp: fun_upd_def)

lemma New_panics_iff: "New msg meta = Panic \<longleftrightarrow> (\<nexists>kvs. meta = flat_meta kvs)"
proof (cases "\<exists>kvs. meta = flat_meta kvs")
  case True
  then show ?thesis by (auto simp: New_pairs)
next
  case False
  then have "mk_fields meta Map.empty = Panic"
    using mk_fields_Ok_flat mk_fields_not_Err by (cases "mk_fields meta Map.empty") blast+
  with False show ?thesis by (simp add: New_def mk_def)
qed

lemma Fields_wrap_own:
  "k \<in> fst ` set kvs \<Longrightarrow> Fields (wrap_error err msg kvs) k = Fields (new_error msg kvs) k"
proof -
  have "dom (fold (\<lambda>(k, v) m. m(k \<mapsto> v)) kvs m) = fst ` set kvs \<union> dom m" for m
    by (induction kvs arbitrary: m) auto
  moreover assume "k \<in> fst ` set kvs"
  ultimately have "k \<in> dom (fold (\<lambda>(k, v) m. m(k \<mapsto> v)) kvs Map.empty)" by blast
  then show ?thesis
    by (auto simp: wrap_error_def new_error_def map_add_def split: option.splits)
qed

section \<open>Logger fields\<close>

text \<open>
  \<^verbatim>\<open>MakeValues\<close> of \<^verbatim>\<open>log.go\<close>: keys are strings or stringers, anything else panics.
\<close>

fun make_values_loop :: "gvalue list \<Rightarrow> fields \<Rightarrow> (go_error, fields) res" where
  "make_values_loop [] fs = Ok fs"
| "make_values_loop (GStr k # v # kvs) fs = make_values_loop kvs (fs(k \<mapsto> v))"
| "make_values_loop (GStringer k # v # kvs) fs = make_values_loop kvs (fs(k \<mapsto> v))"
| "make_values_loop kvs fs = Panic"

definition MakeValues :: "gvalue list \<Rightarrow> (go_error, fields) res" where
  "MakeValues kvs = (if length kvs mod 2 \<noteq> 0 then Panic else make_values_loop kvs Map.empty)"

text \<open>A logger of \<^verbatim>\<open>shim.go\<close>: the fields attached so far and its dotted name.\<close>

record logger =
  log_fields :: fields
  log_name :: string

definition WithValues :: "gvalue list \<Rightarrow> logger \<Rightarrow> (go_error, logger) res" where
  "WithValues kvs l =
     res_bind (MakeValues kvs) (\<lambda>fs. Ok (l\<lparr>log_fields := log_fields l ++ fs\<rparr>))"

definition WithName :: "string \<Rightarrow> logger \<Rightarrow> logger" where
  "WithName name l =
     (let prefix = (if log_name l \<noteq> [] then log_name l @ ''.'' else log_name l)
      in l\<lparr>log_name := prefix @ name\<rparr>)"

lemma make_values_flat_meta: "MakeValues (flat_meta kvs) = Ok (Fields (new_error msg kvs))"
proof -
  have "make_values_loop (flat_meta kvs) fs = Ok (fold (\<lambda>(k, v) m. m(k \<mapsto> v)) kvs fs)" for fs
    by (induction kvs arbitrary: fs rule: flat_meta.induct) auto
  then show ?thesis by (simp add: MakeValues_def new_error_def)
qed

text \<open>Names nest with dots, so naming a named logger is associative.\<close>

lemma WithName_WithName:
  "a \<noteq> [] \<Longrightarrow> WithName b (WithName a l) = WithName (a @ ''.'' @ b) l"
  by (simp add: WithName_def Let_def)

end
