(* ===== verification/Go_Strings.thy ===== *)
theory Go_Strings
  imports Prelude
begin

text \<open>
  The parts of Go's strings the program uses: conversion between strings (bytes) and runes
  (code points) in UTF-8, numbers in text, and a few functions of package \<^verbatim>\<open>strings\<close>.
\<close>

section \<open>Runes and UTF-8\<close>

type_synonym rune = nat

definition rune_error :: rune where
  "rune_error = 65533"

text \<open>Surrogates and values past U+10FFFF are not code points; \<^verbatim>\<open>string(r)\<close> replaces them.\<close>

definition valid_rune :: "rune \<Rightarrow> bool" where
  "valid_rune r \<longleftrightarrow> r < 55296 \<or> (57344 \<le> r \<and> r < 1114112)"

definition to_valid :: "rune \<Rightarrow> rune" where
  "to_valid r = (if valid_rune r then r else rune_error)"

definition utf8_bytes :: "rune \<Rightarrow> nat list" where
  "utf8_bytes r =
     (if r < 128 then [r]
      else if r < 2048 then [192 + r div 64, 128 + r mod 64]
      else if r < 65536 then [224 + r div 4096, 128 + r div 64 mod 64, 128 + r mod 64]
      else [240 + r div 262144, 128 + r div 4096 mod 64, 128 + r div 64 mod 64, 128 + r mod 64])"

definition string_of_rune :: "rune \<Rightarrow> string" where
  "string_of_rune r = map char_of (utf8_bytes (to_valid r))"

definition string_of_runes :: "rune list \<Rightarrow> string" where
  "string_of_runes rs = concat (map string_of_rune rs)"

text \<open>
  \<open>decode_multi b0 bs\<close> decodes a sequence of two to four bytes that starts with \<open>b0\<close>: the code
  point and the number of bytes after the first; \<open>None\<close> for an invalid or short sequence.
\<close>

definition cont_byte :: "nat \<Rightarrow> bool" where
  "cont_byte b \<longleftrightarrow> 128 \<le> b \<and> b < 192"

fun decode_multi :: "nat \<Rightarrow> nat list \<Rightarrow> (rune \<times> nat) option" where
  "decode_multi b0 (b1 # bs) =
     (if 194 \<le> b0 \<and> b0 < 224 then
        (if cont_byte b1 then Some ((b0 - 192) * 64 + (b1 - 128), 1) else None)
      else if 224 \<le> b0 \<and> b0 < 240 then
        (case bs of
           b2 # _ \<Rightarrow>
             if cont_byte b1 \<and> cont_byte b2 \<and> (b0 = 224 \<longrightarrow> 160 \<le> b1) \<and> (b0 = 237 \<longrightarrow> b1 < 160)
             then Some ((b0 - 224) * 4096 + (b1 - 128) * 64 + (b2 - 128), 2) else None
         | [] \<Rightarrow> None)
      else if 240 \<le> b0 \<and> b0 < 245 then
        (case bs of
           b2 # b3 # _ \<Rightarrow>
             if cont_byte b1 \<and> cont_byte b2 \<and> cont_byte b3
                \<and> (b0 = 240 \<longrightarrow> 144 \<le> b1) \<and> (b0 = 244 \<longrightarrow> b1 < 144)
             then Some ((b0 - 240) * 262144 + (b1 - 128) * 4096 + (b2 - 128) * 64 + (b3 - 128), 3)
             else None
         | _ \<Rightarrow> None)
      else None)"
| "decode_multi b0 [] = None"

function decode_bytes :: "nat list \<Rightarrow> rune list" where
  "decode_bytes [] = []"
| "decode_bytes (b # bs) =
     (if b < 128 then b # decode_bytes bs
      else case decode_multi b bs of
             Some (r, n) \<Rightarrow> r # decode_bytes (drop n bs)
           | None \<Rightarrow> rune_error # decode_bytes bs)"
  by pat_completeness auto
termination
  by (relation "measure length") auto

definition runes_of_string :: "string \<Rightarrow> rune list" where
  "runes_of_string s = decode_bytes (map of_char s)"

declare decode_multi.simps [simp del]

lemma to_valid_valid [simp]: "valid_rune (to_valid r)"
  by (simp add: to_valid_def rune_error_def valid_rune_def)

lemma to_valid_id [simp]: "valid_rune r \<Longrightarrow> to_valid r = r"
  by (simp add: to_valid_def)

lemma utf8_bytes_lt: "valid_rune r \<Longrightarrow> b \<in> set (utf8_bytes r) \<Longrightarrow> b < 256"
  by (auto simp: utf8_bytes_def valid_rune_def split: if_splits)

lemma utf8_bytes_nonempty [simp]: "utf8_bytes r \<noteq> []"
  by (simp add: utf8_bytes_def)

lemma digits64:
  fixes r :: nat
  shows "r div 64 * 64 + r mod 64 = r"
    and "r div 4096 * 4096 + r div 64 mod 64 * 64 + r mod 64 = r"
    and "r div 262144 * 262144 + r div 4096 mod 64 * 4096 + r div 64 mod 64 * 64 + r mod 64 = r"
proof -
  have d: "r div 4096 = r div 64 div 64" "r div 262144 = r div 64 div 64 div 64"
    by (simp_all add: div_mult2_eq [symmetric])
  have e: "q div 64 * 64 + q mod 64 = q" for q :: nat by simp
  show "r div 64 * 64 + r mod 64 = r" by (rule e)
  show "r div 4096 * 4096 + r div 64 mod 64 * 64 + r mod 64 = r"
    using e [of r] e [of "r div 64"] unfolding d by linarith
  show "r div 262144 * 262144 + r div 4096 mod 64 * 4096 + r div 64 mod 64 * 64 + r mod 64 = r"
    using e [of r] e [of "r div 64"] e [of "r div 64 div 64"] unfolding d by linarith
qed

lemma digit_bounds:
  fixes q :: nat
  shows "32 \<le> q \<Longrightarrow> q div 64 = 0 \<Longrightarrow> 32 \<le> q mod 64"
    and "q < 864 \<or> 896 \<le> q \<Longrightarrow> q div 64 = 13 \<Longrightarrow> q mod 64 < 32"
    and "16 \<le> q \<Longrightarrow> q div 64 = 0 \<Longrightarrow> 16 \<le> q mod 64"
    and "q < 272 \<Longrightarrow> q div 64 = 4 \<Longrightarrow> q mod 64 < 16"
  using mult_div_mod_eq [of 64 q] mod_less_divisor [of 64 q] by auto

lemma decode_bytes_utf8:
  assumes "valid_rune r"
  shows "decode_bytes (utf8_bytes r @ bs) = r # decode_bytes bs"
proof -
  consider "r < 128" | "128 \<le> r" "r < 2048" | "2048 \<le> r" "r < 65536" | "65536 \<le> r"
    by linarith
  then show ?thesis
  proof cases
    case 1
    then show ?thesis by (simp add: utf8_bytes_def)
  next
    case 2
    then have "2 \<le> r div 64" "r div 64 < 32"
      using div_le_mono [of 128 r 64] by (simp_all add: less_mult_imp_div_less)
    with 2 show ?thesis
      by (simp add: utf8_bytes_def decode_multi.simps cont_byte_def digits64)
  next
    case 3
    define q where "q = r div 64"
    have q: "32 \<le> q" "q < 1024" "q < 864 \<or> 896 \<le> q"
      using 3 assms div_le_mono [of 2048 r 64] div_le_mono [of 57344 r 64]
      by (auto simp: q_def valid_rune_def less_mult_imp_div_less)
    have d: "r div 4096 = q div 64" by (simp add: q_def div_mult2_eq [symmetric])
    have "q div 64 < 16" using q by (simp add: less_mult_imp_div_less)
    then have "decode_multi (224 + q div 64) ((128 + q mod 64) # (128 + r mod 64) # bs)
        = Some (r, 2)"
      using digit_bounds(1,2) [of q] q digits64(2) [of r]
      by (simp add: decode_multi.simps cont_byte_def d q_def [symmetric])
    with 3 show ?thesis by (simp add: utf8_bytes_def d q_def [symmetric])
  next
    case 4
    define p where "p = r div 4096"
    have p: "16 \<le> p" "p < 272"
      using 4 assms div_le_mono [of 65536 r 4096]
      by (auto simp: p_def valid_rune_def less_mult_imp_div_less)
    have d: "r div 262144 = p div 64" by (simp add: p_def div_mult2_eq [symmetric])
    have "p div 64 < 5" using p by (simp add: less_mult_imp_div_less)
    then have "decode_multi (240 + p div 64)
        ((128 + p mod 64) # (128 + r div 64 mod 64) # (128 + r mod 64) # bs) = Some (r, 3)"
      using digit_bounds(3,4) [of p] p digits64(3) [of r]
      by (simp add: decode_multi.simps cont_byte_def d p_def [symmetric])
    with 4 show ?thesis by (simp add: utf8_bytes_def d p_def [symmetric])
  qed
qed

text \<open>Encoding and decoding: the runes come back, invalid ones as U+FFFD.\<close>

lemma runes_of_string_of_rune:
  "runes_of_string (string_of_rune r @ s) = to_valid r # runes_of_string s"
proof -
  have "map of_char (string_of_rune r) = utf8_bytes (to_valid r)"
    using utf8_bytes_lt [OF to_valid_valid, of _ r]
    by (simp add: string_of_rune_def comp_def map_idI)
  then show ?thesis
    by (simp add: runes_of_string_def decode_bytes_utf8)
qed

lemma runes_of_string_of_runes: "runes_of_string (string_of_runes rs) = map to_valid rs"
proof (induction rs)
  case Nil
  show ?case by (simp add: string_of_runes_def runes_of_string_def)
next
  case (Cons r rs)
  then show ?case by (simp add: string_of_runes_def runes_of_string_of_rune)
qed

lemma string_of_runes_inj:
  assumes "list_all valid_rune rs" "list_all valid_rune rs'"
    and "string_of_runes rs = string_of_runes rs'"
  shows "rs = rs'"
proof -
  have "map to_valid rs = map to_valid rs'"
    using assms(3) runes_of_string_of_runes by metis
  with assms(1,2) show ?thesis
    by (simp add: list_all_iff map_idI cong: map_cong)
qed

lemma string_of_rune_nonempty [simp]: "string_of_rune r \<noteq> []"
  by (simp add: string_of_rune_def)

lemma string_of_runes_Nil [simp]: "string_of_runes [] = []"
  by (simp add: string_of_runes_def)

lemma string_of_runes_Cons [simp]:
  "string_of_runes (r # rs) = string_of_rune r @ string_of_runes rs"
  by (simp add: string_of_runes_def)

lemma string_of_runes_append [simp]:
  "string_of_runes (rs @ rs') = string_of_runes rs @ string_of_runes rs'"
  by (simp add: string_of_runes_def)

lemma string_of_runes_eq_Nil [simp]: "string_of_runes rs = [] \<longleftrightarrow> rs = []"
  by (cases rs) auto

text \<open>ASCII strings: one rune per byte.\<close>

definition ascii :: "string \<Rightarrow> bool" where
  "ascii s \<longleftrightarrow> (\<forall>c \<in> set s. of_char c < (128 :: nat))"

lemma runes_of_ascii: "ascii s \<Longrightarrow> runes_of_string s = map of_char s"
  by (induction s) (auto simp: ascii_def runes_of_string_def)

lemma string_of_runes_ascii: "ascii s \<Longrightarrow> string_of_runes (map of_char s) = s"
proof (induction s)
  case (Cons c s)
  then have "of_char c < (128 :: nat)" "ascii s" by (auto simp: ascii_def)
  moreover from this have "valid_rune (of_char c)" by (simp add: valid_rune_def)
  ultimately show ?case
    using Cons.IH by (simp add: string_of_rune_def utf8_bytes_def)
qed simp

text \<open>For evaluating the encoding of concrete runes.\<close>

lemmas rune_eval =
  string_of_rune_def to_valid_def valid_rune_def utf8_bytes_def char_of_def bit_0

section \<open>Numbers in text\<close>

text \<open>A hexadecimal digit, as a rune.\<close>

definition hex_digit :: "rune \<Rightarrow> nat option" where
  "hex_digit r =
     (if 48 \<le> r \<and> r \<le> 57 then Some (r - 48)
      else if 97 \<le> r \<and> r \<le> 102 then Some (r - 87)
      else if 65 \<le> r \<and> r \<le> 70 then Some (r - 55)
      else None)"

text \<open>
  \<^verbatim>\<open>strconv.ParseUint(s, 16, 16)\<close>: \<open>None\<close> is a syntax or range error. The runes stand for the
  text they encode: a rune past ASCII encodes to bytes that are not digits.
\<close>

fun hex_value :: "rune list \<Rightarrow> nat \<Rightarrow> nat option" where
  "hex_value [] n = Some n"
| "hex_value (r # rs) n =
     (case hex_digit r of None \<Rightarrow> None | Some d \<Rightarrow> hex_value rs (16 * n + d))"

definition ParseUint16 :: "rune list \<Rightarrow> nat option" where
  "ParseUint16 rs =
     (if rs = [] then None
      else case hex_value rs 0 of
             None \<Rightarrow> None
           | Some n \<Rightarrow> if n < 65536 then Some n else None)"

lemma hex_digit_lt: "hex_digit r = Some d \<Longrightarrow> d < 16"
  by (auto simp: hex_digit_def split: if_splits)

lemma hex_value_bound: "hex_value rs n = Some m \<Longrightarrow> m < 16 ^ length rs * Suc n"
proof (induction rs arbitrary: n)
  case (Cons r rs)
  then obtain d where d: "hex_digit r = Some d" "hex_value rs (16 * n + d) = Some m"
    by (auto split: option.splits)
  then have "m < 16 ^ length rs * Suc (16 * n + d)"
    by (blast intro: Cons.IH)
  also have "Suc (16 * n + d) \<le> 16 * Suc n"
    using hex_digit_lt [OF d(1)] by simp
  then have "16 ^ length rs * Suc (16 * n + d) \<le> 16 ^ length rs * (16 * Suc n)"
    by (rule mult_le_mono2)
  finally show ?case by (simp add: algebra_simps)
qed simp

text \<open>Four hexadecimal digits never overflow sixteen bits.\<close>

lemma ParseUint16_four:
  assumes "length rs = 4"
  shows "ParseUint16 rs = hex_value rs 0"
proof -
  have "hex_value rs 0 = Some m \<Longrightarrow> m < 65536" for m
    using hex_value_bound [of rs 0 m] assms by simp
  with assms show ?thesis
    by (auto simp: ParseUint16_def split: option.splits)
qed

text \<open>Decimal text of a number, as \<^verbatim>\<open>%d\<close> prints it.\<close>

fun decimal :: "nat \<Rightarrow> string" where
  "decimal n =
     (if n < 10 then [char_of (48 + n)] else decimal (n div 10) @ [char_of (48 + n mod 10)])"

declare decimal.simps [simp del]

fun decimal_value :: "string \<Rightarrow> nat \<Rightarrow> nat option" where
  "decimal_value [] n = Some n"
| "decimal_value (c # cs) n =
     (let b = of_char c in
      if 48 \<le> b \<and> b \<le> 57 then decimal_value cs (10 * n + (b - 48)) else None)"

lemma decimal_value_append:
  "decimal_value (s @ t) n =
     (case decimal_value s n of None \<Rightarrow> None | Some m \<Rightarrow> decimal_value t m)"
  by (induction s n rule: decimal_value.induct) (auto simp: Let_def)

lemma decimal_value_decimal: "decimal_value (decimal n) 0 = Some n"
proof (induction n rule: decimal.induct)
  case (1 n)
  show ?case
  proof (cases "n < 10")
    case True
    then show ?thesis by (subst decimal.simps) (simp add: Let_def)
  next
    case False
    then have "decimal_value (decimal (n div 10)) 0 = Some (n div 10)" by (rule "1.IH")
    moreover have "48 + n mod 10 < 256" by presburger
    ultimately show ?thesis
      using False by (subst decimal.simps) (simp add: decimal_value_append Let_def)
  qed
qed

lemma decimal_inj: "decimal n = decimal m \<Longrightarrow> n = m"
  using decimal_value_decimal by (metis option.inject)

lemma decimal_digits: "c \<in> set (decimal n) \<Longrightarrow> 48 \<le> (of_char c :: nat) \<and> (of_char c :: nat) \<le> 57"
proof (induction n rule: decimal.induct)
  case (1 n)
  have "48 + n mod 10 < 256" by presburger
  with 1 show ?case
    by (subst (asm) decimal.simps) (auto split: if_splits)
qed

lemma decimal_nonempty [simp]: "decimal n \<noteq> []"
  by (subst decimal.simps) simp

section \<open>Package strings\<close>

definition HasSuffix :: "string \<Rightarrow> string \<Rightarrow> bool" where
  "HasSuffix s suf \<longleftrightarrow> length suf \<le> length s \<and> drop (length s - length suf) s = suf"

text \<open>
  \<open>cut sep s\<close>: the text before the first \<open>sep\<close> and, if there is one, the text after it.
\<close>

fun cut :: "char \<Rightarrow> string \<Rightarrow> string \<times> string option" where
  "cut sep [] = ([], None)"
| "cut sep (c # cs) =
     (if c = sep then ([], Some cs) else (let (a, b) = cut sep cs in (c # a, b)))"

lemma cut_Some: "cut sep s = (a, Some b) \<Longrightarrow> s = a @ sep # b \<and> sep \<notin> set a"
  by (induction s arbitrary: a) (auto split: if_splits prod.splits)

lemma cut_None: "cut sep s = (a, None) \<Longrightarrow> s = a \<and> sep \<notin> set s"
  by (induction s arbitrary: a) (auto split: if_splits prod.splits)

lemma cut_append: "sep \<notin> set a \<Longrightarrow> cut sep (a @ sep # b) = (a, Some b)"
  by (induction a) auto

lemma cut_id: "sep \<notin> set a \<Longrightarrow> cut sep a = (a, None)"
  by (induction a) auto

lemma cut_length: "cut sep s = (a, Some b) \<Longrightarrow> length a + length b < length s"
  by (auto dest: cut_Some)

end
