(* ===== verification/Go_Regexp.thy ===== *)
theory Go_Regexp
  imports Go_Strings
begin

text \<open>
  Package \<^verbatim>\<open>regexp\<close> for the patterns of the program, all anchored at the start of the text. Go
  returns the match that a backtracking search would find first; \<open>re_match\<close> is that search, in
  continuation-passing style, with the captured groups. Repetition is over one character class.
\<close>

type_synonym captures = "nat \<rightharpoonup> string"

datatype re =
    Empty
  | Class "char \<Rightarrow> bool"
  | Many "char \<Rightarrow> bool"
  | ManyLazy "char \<Rightarrow> bool"
  | Seq re re
  | Maybe re
  | Group nat re
  | EndText

text \<open>Greedy repetition tries the longest run first, lazy repetition the shortest.\<close>

fun many ::
  "(char \<Rightarrow> bool) \<Rightarrow> string \<Rightarrow> captures \<Rightarrow> (string \<Rightarrow> captures \<Rightarrow> captures option)
    \<Rightarrow> captures option" where
  "many p [] c k = k [] c"
| "many p (x # xs) c k =
     (if p x then (case many p xs c k of Some r \<Rightarrow> Some r | None \<Rightarrow> k (x # xs) c)
      else k (x # xs) c)"

fun many_lazy ::
  "(char \<Rightarrow> bool) \<Rightarrow> string \<Rightarrow> captures \<Rightarrow> (string \<Rightarrow> captures \<Rightarrow> captures option)
    \<Rightarrow> captures option" where
  "many_lazy p [] c k = k [] c"
| "many_lazy p (x # xs) c k =
     (case k (x # xs) c of
        Some r \<Rightarrow> Some r
      | None \<Rightarrow> if p x then many_lazy p xs c k else None)"

primrec re_match ::
  "re \<Rightarrow> string \<Rightarrow> captures \<Rightarrow> (string \<Rightarrow> captures \<Rightarrow> captures option) \<Rightarrow> captures option"
  where
  "re_match Empty s c k = k s c"
| "re_match (Class p) s c k = (case s of [] \<Rightarrow> None | x # xs \<Rightarrow> if p x then k xs c else None)"
| "re_match (Many p) s c k = many p s c k"
| "re_match (ManyLazy p) s c k = many_lazy p s c k"
| "re_match (Seq a b) s c k = re_match a s c (\<lambda>s' c'. re_match b s' c' k)"
| "re_match (Maybe a) s c k = (case re_match a s c k of Some r \<Rightarrow> Some r | None \<Rightarrow> k s c)"
| "re_match (Group i a) s c k =
     re_match a s c (\<lambda>s' c'. k s' (c'(i \<mapsto> take (length s - length s') s)))"
| "re_match EndText s c k = (if s = [] then k s c else None)"

definition FindSubmatch :: "re \<Rightarrow> string \<Rightarrow> captures option" where
  "FindSubmatch r s = re_match r s Map.empty (\<lambda>s' c. Some c)"

definition MatchString :: "re \<Rightarrow> string \<Rightarrow> bool" where
  "MatchString r s \<longleftrightarrow> FindSubmatch r s \<noteq> None"

text \<open>\<^verbatim>\<open>x+\<close> and its lazy form.\<close>

definition Some1 :: "(char \<Rightarrow> bool) \<Rightarrow> re" where
  "Some1 p = Seq (Class p) (Many p)"

definition Some1Lazy :: "(char \<Rightarrow> bool) \<Rightarrow> re" where
  "Some1Lazy p = Seq (Class p) (ManyLazy p)"

definition Lit :: "char \<Rightarrow> re" where
  "Lit x = Class (\<lambda>y. y = x)"

section \<open>Repetition\<close>

text \<open>When the continuation accepts only where the class ends, the greedy run is the whole run.\<close>

lemma many_takeWhile:
  assumes "\<And>y ys c'. p y \<Longrightarrow> k (y # ys) c' = None"
  shows "many p s c k = k (dropWhile p s) c"
  by (induction s) (auto simp: assms split: option.splits)

text \<open>Lazy repetition stops at the first place the continuation accepts.\<close>

lemma many_lazy_first:
  assumes "list_all p a" and "\<And>u v. a = u @ v \<Longrightarrow> v \<noteq> [] \<Longrightarrow> k (v @ b) c = None"
  shows "many_lazy p (a @ b) c k = many_lazy p b c k"
  using assms
proof (induction a)
  case (Cons x a)
  have "k ((x # a) @ b) c = None" using Cons.prems(2) [of "[]" "x # a"] by simp
  moreover have "many_lazy p (a @ b) c k = many_lazy p b c k"
    using Cons.prems by (intro Cons.IH) (auto simp: Cons.prems(2) [of "x # _"])
  ultimately show ?case using Cons.prems(1) by simp
qed simp

lemma many_lazy_now: "k s c = Some r \<Longrightarrow> many_lazy p s c k = Some r"
  by (cases s) auto

section \<open>The provider pattern\<close>

text \<open>
  \<^verbatim>\<open>^(?:([a-z-]+)/)?([a-z-.]+)$\<close> of \<^verbatim>\<open>worker.go\<close> and \<^verbatim>\<open>^([a-z-]+/)?[a-z-.]+$\<close> of
  \<^verbatim>\<open>accesspolicy.go\<close>: an optional namespace and a name.
\<close>

definition lower_dash :: "char \<Rightarrow> bool" where
  "lower_dash x \<longleftrightarrow> (97 \<le> (of_char x :: nat) \<and> (of_char x :: nat) \<le> 122) \<or> x = CHR ''-''"

definition lower_dash_dot :: "char \<Rightarrow> bool" where
  "lower_dash_dot x \<longleftrightarrow> lower_dash x \<or> x = CHR ''.''"

definition provider_re :: re where
  "provider_re =
     Seq (Maybe (Seq (Group 1 (Some1 lower_dash)) (Lit (CHR ''/''))))
         (Seq (Group 2 (Some1 lower_dash_dot)) EndText)"

definition provider_check_re :: re where
  "provider_check_re =
     Seq (Maybe (Group 1 (Seq (Some1 lower_dash) (Lit (CHR ''/'')))))
         (Seq (Some1 lower_dash_dot) EndText)"

lemma slash_classes [simp]: "\<not> lower_dash (CHR ''/'')" "\<not> lower_dash_dot (CHR ''/'')"
  by (simp_all add: lower_dash_def lower_dash_dot_def)

lemma lower_dash_imp: "lower_dash x \<Longrightarrow> lower_dash_dot x"
  by (simp add: lower_dash_dot_def)

definition name_part :: "string \<Rightarrow> bool" where
  "name_part s \<longleftrightarrow> s \<noteq> [] \<and> list_all lower_dash_dot s"

definition namespace_part :: "string \<Rightarrow> bool" where
  "namespace_part s \<longleftrightarrow> s \<noteq> [] \<and> list_all lower_dash s"

lemma many_to_end:
  "many p s c (\<lambda>s' c'. if s' = [] then k s' c' else None)
     = (if list_all p s then k [] c else None)"
  by (induction s) (auto split: option.splits)

lemma list_all_dropWhile: "dropWhile p s = [] \<longleftrightarrow> list_all p s"
  by (auto simp: list_all_iff)

lemma take_takeWhile: "take (length s - length (dropWhile p s)) s = takeWhile p s"
  by (metis append_eq_conv_conj length_append add_diff_cancel_right' takeWhile_dropWhile_id)

text \<open>What follows the namespace: a name up to the end of the text.\<close>

lemma name_match:
  "re_match (Seq (Group 2 (Some1 lower_dash_dot)) EndText) s c (\<lambda>s' c. Some c) =
     (if name_part s then Some (c(2 \<mapsto> s)) else None)"
proof (cases s)
  case (Cons x xs)
  have "many lower_dash_dot xs c (\<lambda>s' c'. if s' = [] then
      Some (c'(2 \<mapsto> take (Suc (length xs) - length s') (x # xs))) else None) =
      (if list_all lower_dash_dot xs then Some (c(2 \<mapsto> s)) else None)"
    using Cons by (subst many_to_end [of _ _ _
        "\<lambda>s' c'. Some (c'(2 \<mapsto> take (Suc (length xs) - length s') (x # xs)))"]) simp
  with Cons show ?thesis
    by (simp add: Some1_def name_part_def)
qed (simp add: Some1_def name_part_def)

lemma hd_dropWhile_in:
  "y \<in> set a \<Longrightarrow> \<not> p y \<Longrightarrow> hd (dropWhile p a @ b) \<in> set a"
  by (induction a) auto

text \<open>The namespace and its slash; \<open>h\<close> is the match of the rest.\<close>

lemma slash_match:
  "re_match (Some1 lower_dash) s c
       (\<lambda>s' c'. case s' of [] \<Rightarrow> None | y # ys \<Rightarrow> if y = CHR ''/'' then h ys c' else None) =
     (case cut (CHR ''/'') s of
        (a, Some b) \<Rightarrow> if namespace_part a then h b c else None
      | (a, None) \<Rightarrow> None)"
proof (cases s)
  case (Cons x xs)
  define k' where "k' = (\<lambda>s' c'. case s' of [] \<Rightarrow> None
    | y # ys \<Rightarrow> if y = CHR ''/'' then h ys c' else None)"
  have "many lower_dash xs c k' = k' (dropWhile lower_dash xs) c"
    by (rule many_takeWhile) (auto simp: k'_def)
  with Cons have lhs:
    "re_match (Some1 lower_dash) s c k' =
       (if lower_dash x then k' (dropWhile lower_dash xs) c else None)"
    by (simp add: Some1_def)
  have "re_match (Some1 lower_dash) s c k' = (case cut (CHR ''/'') s of
        (a, Some b) \<Rightarrow> if namespace_part a then h b c else None | (a, None) \<Rightarrow> None)"
  proof (cases "CHR ''/'' \<in> set s")
    case False
    then have "k' (dropWhile lower_dash xs) c = None"
      using Cons set_dropWhileD [of _ lower_dash xs] by (auto simp: k'_def split: list.splits)
    with False lhs show ?thesis
      by (simp add: cut_id)
  next
    case True
    then obtain a b where s: "s = a @ CHR ''/'' # b" and na: "CHR ''/'' \<notin> set a"
      by (meson split_list_first)
    have c: "cut (CHR ''/'') s = (a, Some b)" unfolding s by (rule cut_append [OF na])
    have "(if lower_dash x then k' (dropWhile lower_dash xs) c else None) =
        (if namespace_part a then h b c else None)"
    proof (cases "namespace_part a")
      case True
      then obtain a' where a: "a = x # a'" "lower_dash x" "list_all lower_dash a'"
        using s Cons by (cases a) (auto simp: namespace_part_def)
      with s Cons have "dropWhile lower_dash xs = CHR ''/'' # b"
        by (auto simp: list_all_iff dropWhile_append3)
      then show ?thesis using True a(2) by (simp add: k'_def)
    next
      case False
      have "k' (dropWhile lower_dash xs) c = None" if "lower_dash x"
      proof -
        from that s Cons obtain a' where a: "a = x # a'" "xs = a' @ CHR ''/'' # b"
          by (cases a) auto
        with False that obtain y where "y \<in> set a'" "\<not> lower_dash y"
          by (auto simp: namespace_part_def list_all_iff)
        then have "dropWhile lower_dash xs \<noteq> []"
          and "hd (dropWhile lower_dash xs) \<in> set a'"
          using a by (auto simp: dropWhile_append1 hd_dropWhile_in)
        then show ?thesis using na a by (auto simp: k'_def split: list.splits)
      qed
      with False show ?thesis by simp
    qed
    then show ?thesis
      by (simp add: c lhs)
  qed
  then show ?thesis by (simp add: k'_def)
qed (simp add: Some1_def)

lemma cut_take: "cut sep s = (a, Some b) \<Longrightarrow> take (length s - Suc (length b)) s = a"
  using cut_Some by fastforce

lemma namespace_match:
  "re_match (Seq (Group 1 (Some1 lower_dash)) (Lit (CHR ''/''))) s c k =
     (case cut (CHR ''/'') s of
        (a, Some b) \<Rightarrow> if namespace_part a then k b (c(1 \<mapsto> a)) else None
      | (a, None) \<Rightarrow> None)"
proof -
  have "re_match (Seq (Group 1 (Some1 lower_dash)) (Lit (CHR ''/''))) s c k =
      re_match (Some1 lower_dash) s c (\<lambda>s' c'. case s' of [] \<Rightarrow> None
        | y # ys \<Rightarrow> if y = CHR ''/''
            then k ys (c'(1 \<mapsto> take (length s - Suc (length ys)) s)) else None)"
    unfolding re_match.simps(5,7) Lit_def re_match.simps(2)
    by (intro arg_cong [of _ _ "re_match _ s c"]) (auto simp: fun_eq_iff split: list.splits)
  then show ?thesis
    unfolding slash_match by (auto simp: cut_take split: prod.splits option.splits)
qed

text \<open>The provider pattern, decided: a text with a slash splits there, one without has no namespace.\<close>

lemma provider_match:
  "FindSubmatch provider_re s =
     (case cut (CHR ''/'') s of
        (a, None) \<Rightarrow> if name_part a then Some [2 \<mapsto> a] else None
      | (a, Some b) \<Rightarrow> if namespace_part a \<and> name_part b then Some [1 \<mapsto> a, 2 \<mapsto> b] else None)"
proof -
  have no: "\<not> name_part (a @ CHR ''/'' # b)" for a b
    by (simp add: name_part_def)
  show ?thesis
    unfolding FindSubmatch_def provider_re_def re_match.simps(5) [of "Maybe _"] re_match.simps(6)
      name_match namespace_match
    using no by (auto simp: namespace_match [unfolded re_match.simps(5)] split: prod.splits
        option.splits dest!: cut_Some cut_None)
qed

text \<open>The pattern of the validation accepts the same texts.\<close>

lemma provider_check:
  "MatchString provider_check_re s \<longleftrightarrow> FindSubmatch provider_re s \<noteq> None"
proof -
  have e: "many lower_dash_dot s c (\<lambda>s' c'. if s' = [] then Some c' else None)
     = (if list_all lower_dash_dot s then Some c else None)" for s c
    using many_to_end [of lower_dash_dot s c "\<lambda>s' c'. Some c'"] by simp
  have n: "re_match (Seq (Some1 lower_dash_dot) EndText) s c (\<lambda>s' c. Some c) =
      (if name_part s then Some c else None)" for s c
    by (cases s) (simp_all add: Some1_def name_part_def e)
  have g: "re_match (Group 1 (Seq (Some1 lower_dash) (Lit (CHR ''/'')))) s c k =
      (case cut (CHR ''/'') s of
        (a, Some b) \<Rightarrow> if namespace_part a
          then k b (c(1 \<mapsto> take (length s - length b) s)) else None
      | (a, None) \<Rightarrow> None)" for c k
  proof -
    have "re_match (Group 1 (Seq (Some1 lower_dash) (Lit (CHR ''/'')))) s c k =
      re_match (Some1 lower_dash) s c (\<lambda>s' c'. case s' of [] \<Rightarrow> None
        | y # ys \<Rightarrow> if y = CHR ''/''
            then k ys (c'(1 \<mapsto> take (length s - length ys) s)) else None)"
      unfolding re_match.simps(5,7) Lit_def re_match.simps(2) ..
    then show ?thesis unfolding slash_match .
  qed
  have no: "\<not> name_part (a @ CHR ''/'' # b)" for a b
    by (simp add: name_part_def)
  have "MatchString provider_check_re s \<longleftrightarrow>
     (case cut (CHR ''/'') s of
        (a, None) \<Rightarrow> name_part a
      | (a, Some b) \<Rightarrow> namespace_part a \<and> name_part b)"
    unfolding MatchString_def FindSubmatch_def provider_check_re_def re_match.simps(5) [of "Maybe _"]
      re_match.simps(6) n g
    using no by (auto split: prod.splits option.splits if_splits dest!: cut_Some cut_None)
  then show ?thesis
    unfolding provider_match by (auto split: prod.splits option.splits)
qed

end
