(* ===== verification/Go_Url.thy ===== *)
theory Go_Url
  imports Go_Strings "HOL-Library.Char_ord" "HOL-Library.List_Lexorder"
begin

text \<open>
  Package \<^verbatim>\<open>net/url\<close> (Go 1.14), as far as the program uses it: \<^verbatim>\<open>Parse\<close>, \<^verbatim>\<open>String\<close>, \<^verbatim>\<open>RequestURI\<close>,
  \<^verbatim>\<open>ResolveReference\<close>, \<^verbatim>\<open>Query\<close> and \<^verbatim>\<open>Values.Encode\<close>. An error is its reason, without the operation
  and the quoted URL that \<^verbatim>\<open>url.Error\<close> puts before it.
\<close>

section \<open>Bytes\<close>

abbreviation code :: "char \<Rightarrow> nat" where
  "code c \<equiv> of_char c"

definition alphanumeric :: "char \<Rightarrow> bool" where
  "alphanumeric c \<longleftrightarrow> (97 \<le> code c \<and> code c \<le> 122) \<or> (65 \<le> code c \<and> code c \<le> 90)
     \<or> (48 \<le> code c \<and> code c \<le> 57)"

definition alphabetic :: "char \<Rightarrow> bool" where
  "alphabetic c \<longleftrightarrow> (97 \<le> code c \<and> code c \<le> 122) \<or> (65 \<le> code c \<and> code c \<le> 90)"

definition digit :: "char \<Rightarrow> bool" where
  "digit c \<longleftrightarrow> 48 \<le> code c \<and> code c \<le> 57"

definition unhex :: "char \<Rightarrow> nat option" where
  "unhex c = (if digit c then Some (code c - 48)
     else if 97 \<le> code c \<and> code c \<le> 102 then Some (code c - 87)
     else if 65 \<le> code c \<and> code c \<le> 70 then Some (code c - 55)
     else None)"

definition upperhex :: "nat \<Rightarrow> char" where
  "upperhex n = ''0123456789ABCDEF'' ! n"

section \<open>Escaping\<close>

datatype encoding =
    encodePath
  | encodeHost
  | encodeZone
  | encodeUserPassword
  | encodeQueryComponent
  | encodeFragment

definition host_marks :: "char list" where
  "host_marks = ''!$&()*+,;=:[]<>'' @ [CHR 0x27, CHR 0x22]"

definition shouldEscape :: "char \<Rightarrow> encoding \<Rightarrow> bool" where
  "shouldEscape c mode =
     (if alphanumeric c then False
      else if (mode = encodeHost \<or> mode = encodeZone) \<and> c \<in> set host_marks then False
      else if c \<in> set ''-_.~'' then False
      else if c \<in> set ''$&+,/:;=?@'' \<and> mode \<notin> {encodeHost, encodeZone} then
        (case mode of
           encodePath \<Rightarrow> c = CHR ''?''
         | encodeUserPassword \<Rightarrow> c \<in> set ''@/?:''
         | encodeQueryComponent \<Rightarrow> True
         | _ \<Rightarrow> False)
      else if mode = encodeFragment \<and> c \<in> set ''!()*'' then False
      else True)"

definition escape_byte :: "encoding \<Rightarrow> char \<Rightarrow> string" where
  "escape_byte mode c =
     (if c = CHR '' '' \<and> mode = encodeQueryComponent then ''+''
      else if shouldEscape c mode
        then [CHR ''%'', upperhex (code c div 16), upperhex (code c mod 16)]
      else [c])"

definition escape :: "encoding \<Rightarrow> string \<Rightarrow> string" where
  "escape mode s = concat (map (escape_byte mode) s)"

fun unescape :: "encoding \<Rightarrow> string \<Rightarrow> string + string" where
  "unescape mode [] = Inr []"
| "unescape mode (c # cs) =
     (if c = CHR ''%'' then
        (case cs of
           a # b # rest \<Rightarrow>
             (case (unhex a, unhex b) of
                (Some x, Some y) \<Rightarrow>
                  (if (mode = encodeHost \<and> x < 8 \<and> [a, b] \<noteq> ''25'')
                      \<or> (mode = encodeZone \<and> [a, b] \<noteq> ''25'' \<and> 16 * x + y \<noteq> 32
                           \<and> shouldEscape (char_of (16 * x + y)) encodeHost)
                   then Inl ''invalid URL escape''
                   else map_sum (\<lambda>e. e) (\<lambda>s. char_of (16 * x + y) # s) (unescape mode rest))
              | _ \<Rightarrow> Inl ''invalid URL escape'')
         | _ \<Rightarrow> Inl ''invalid URL escape'')
      else if c = CHR ''+'' \<and> mode = encodeQueryComponent then
        map_sum (\<lambda>e. e) (\<lambda>s. CHR '' '' # s) (unescape mode cs)
      else if (mode = encodeHost \<or> mode = encodeZone) \<and> code c < 128 \<and> c \<noteq> CHR ''+''
          \<and> shouldEscape c mode then
        Inl ''invalid character in host name''
      else map_sum (\<lambda>e. e) (\<lambda>s. c # s) (unescape mode cs))"

lemma unhex_upperhex: "n < 16 \<Longrightarrow> unhex (upperhex n) = Some n"
proof -
  have "\<forall>n \<in> set [0..<16]. unhex (upperhex n) = Some n"
    by code_simp
  then show "n < 16 \<Longrightarrow> unhex (upperhex n) = Some n" by simp
qed

text \<open>Unescaping takes back what escaping made, except in the two modes that reject escapes.\<close>

lemma shouldEscape_percent: "shouldEscape (CHR ''%'') mode"
  by (cases mode) (simp_all add: shouldEscape_def alphanumeric_def host_marks_def)

lemma shouldEscape_plus: "shouldEscape (CHR ''+'') encodeQueryComponent"
  by (simp add: shouldEscape_def alphanumeric_def host_marks_def)

lemma unescape_escape:
  "mode \<noteq> encodeHost \<Longrightarrow> mode \<noteq> encodeZone \<Longrightarrow> unescape mode (escape mode s) = Inr s"
proof (induction s)
  case (Cons c s)
  then have IH: "unescape mode (escape mode s) = Inr s" by simp
  have e: "escape mode (c # s) = escape_byte mode c @ escape mode s"
    by (simp add: escape_def)
  have "code c < 256" by simp
  then have "code c div 16 < 16" by (simp only: less_mult_imp_div_less)
  then have h: "unhex (upperhex (code c div 16)) = Some (code c div 16)"
    "unhex (upperhex (code c mod 16)) = Some (code c mod 16)"
    by (simp_all add: unhex_upperhex)
  have "char_of (16 * (code c div 16) + code c mod 16) = c" by simp
  with h IH Cons.prems shouldEscape_percent [of mode] shouldEscape_plus show ?case
    by (auto simp: e escape_byte_def)
qed (simp add: escape_def)

section \<open>URLs\<close>

datatype userinfo = User string | UserPassword string string

record url =
  url_Scheme :: string
  url_Opaque :: string
  url_User :: "userinfo option"
  url_Host :: string
  url_Path :: string
  url_RawPath :: string
  url_ForceQuery :: bool
  url_RawQuery :: string
  url_Fragment :: string

definition empty_url :: url where
  "empty_url = \<lparr>url_Scheme = [], url_Opaque = [], url_User = None, url_Host = [], url_Path = [],
     url_RawPath = [], url_ForceQuery = False, url_RawQuery = [], url_Fragment = []\<rparr>"

text \<open>\<^verbatim>\<open>split(s, sep, true)\<close>; without a separator the second part is empty.\<close>

definition split_at :: "char \<Rightarrow> string \<Rightarrow> string \<times> string" where
  "split_at sep s = (case cut sep s of (a, None) \<Rightarrow> (a, []) | (a, Some b) \<Rightarrow> (a, b))"

text \<open>The text before and after the last separator.\<close>

definition cut_last :: "char \<Rightarrow> string \<Rightarrow> (string \<times> string) option" where
  "cut_last sep s =
     (case cut sep (rev s) of (b, None) \<Rightarrow> None | (b, Some a) \<Rightarrow> Some (rev a, rev b))"

definition ctl_byte :: "char \<Rightarrow> bool" where
  "ctl_byte c \<longleftrightarrow> code c < 32 \<or> code c = 127"

fun scheme_loop :: "string \<Rightarrow> string \<Rightarrow> string \<Rightarrow> string + (string \<times> string)" where
  "scheme_loop raw acc [] = Inr ([], raw)"
| "scheme_loop raw acc (c # cs) =
     (if alphabetic c then scheme_loop raw (acc @ [c]) cs
      else if digit c \<or> c \<in> set ''+-.'' then
        (if acc = [] then Inr ([], raw) else scheme_loop raw (acc @ [c]) cs)
      else if c = CHR '':'' then
        (if acc = [] then Inl ''missing protocol scheme'' else Inr (acc, cs))
      else Inr ([], raw))"

definition getscheme :: "string \<Rightarrow> string + (string \<times> string)" where
  "getscheme raw = scheme_loop raw [] raw"

definition to_lower :: "char \<Rightarrow> char" where
  "to_lower c = (if 65 \<le> code c \<and> code c \<le> 90 then char_of (code c + 32) else c)"

definition validOptionalPort :: "string \<Rightarrow> bool" where
  "validOptionalPort port =
     (case port of [] \<Rightarrow> True | c # cs \<Rightarrow> c = CHR '':'' \<and> list_all digit cs)"

definition validUserinfo :: "string \<Rightarrow> bool" where
  "validUserinfo = list_all (\<lambda>c. alphanumeric c \<or> c \<in> set ''-._:~!$&()*+,;=%@'' \<or> c = CHR 0x27)"

text \<open>The index of \<^verbatim>\<open>%25\<close>, as the text before it and the text from it on.\<close>

fun split_zone :: "string \<Rightarrow> (string \<times> string) option" where
  "split_zone [] = None"
| "split_zone (c # cs) =
     (if take 3 (c # cs) = ''%25'' then Some ([], c # cs)
      else map_option (\<lambda>(a, b). (c # a, b)) (split_zone cs))"

definition sum_bind :: "'e + 'a \<Rightarrow> ('a \<Rightarrow> 'e + 'b) \<Rightarrow> 'e + 'b" where
  "sum_bind x f = (case x of Inl e \<Rightarrow> Inl e | Inr a \<Rightarrow> f a)"

lemma sum_bind_simps [simp]: "sum_bind (Inl e) f = Inl e" "sum_bind (Inr a) f = f a"
  by (simp_all add: sum_bind_def)

lemma sum_bind_eq_Inr: "sum_bind x f = Inr b \<longleftrightarrow> (\<exists>a. x = Inr a \<and> f a = Inr b)"
  by (cases x) auto

definition parseHost :: "string \<Rightarrow> string + string" where
  "parseHost host =
     (if take 1 host = ''['' then
        (case cut_last (CHR '']'') host of
           None \<Rightarrow> Inl ''missing ']' in host''
         | Some (inner, colonPort) \<Rightarrow>
             (if \<not> validOptionalPort colonPort then Inl ''invalid port after host''
              else (case split_zone inner of
                 Some (addr, zone) \<Rightarrow>
                   sum_bind (unescape encodeHost addr) (\<lambda>host1.
                   sum_bind (unescape encodeZone zone) (\<lambda>host2.
                   sum_bind (unescape encodeHost (CHR '']'' # colonPort)) (\<lambda>host3.
                   Inr (host1 @ host2 @ host3))))
               | None \<Rightarrow> unescape encodeHost host)))
      else
        (case cut_last (CHR '':'') host of
           Some (before, port) \<Rightarrow>
             (if \<not> validOptionalPort (CHR '':'' # port) then Inl ''invalid port after host''
              else unescape encodeHost host)
         | None \<Rightarrow> unescape encodeHost host))"

definition parseAuthority :: "string \<Rightarrow> string + (userinfo option \<times> string)" where
  "parseAuthority authority =
     (case cut_last (CHR ''@'') authority of
        None \<Rightarrow> sum_bind (parseHost authority) (\<lambda>host. Inr (None, host))
      | Some (ui, h) \<Rightarrow>
          sum_bind (parseHost h) (\<lambda>host.
            if \<not> validUserinfo ui then Inl ''net/url: invalid userinfo''
            else (case cut (CHR '':'') ui of
                (u, None) \<Rightarrow>
                  sum_bind (unescape encodeUserPassword u) (\<lambda>u'. Inr (Some (User u'), host))
              | (u, Some p) \<Rightarrow>
                  sum_bind (unescape encodeUserPassword u) (\<lambda>u'.
                  sum_bind (unescape encodeUserPassword p) (\<lambda>p'.
                  Inr (Some (UserPassword u' p'), host))))))"

definition setPath :: "url \<Rightarrow> string \<Rightarrow> string + url" where
  "setPath u p =
     sum_bind (unescape encodePath p) (\<lambda>path.
       Inr (u\<lparr>url_Path := path,
              url_RawPath := (if p = escape encodePath path then [] else p)\<rparr>))"

text \<open>The part of \<^verbatim>\<open>parse\<close> after the scheme and the query have been taken off.\<close>

definition parse_hier :: "url \<Rightarrow> string \<Rightarrow> string + url" where
  "parse_hier u rest =
     (if take 1 rest \<noteq> ''/'' \<and> url_Scheme u \<noteq> [] then Inr (u\<lparr>url_Opaque := rest\<rparr>)
      else if take 1 rest \<noteq> ''/'' \<and> CHR '':'' \<in> set (fst (cut (CHR ''/'') rest)) then
        Inl ''first path segment in URL cannot contain colon''
      else if (url_Scheme u \<noteq> [] \<or> take 3 rest \<noteq> ''///'') \<and> take 2 rest = ''//'' then
        (case cut (CHR ''/'') (drop 2 rest) of
           (authority, path) \<Rightarrow>
             sum_bind (parseAuthority authority) (\<lambda>(user, host).
               setPath (u\<lparr>url_User := user, url_Host := host\<rparr>)
                 (case path of None \<Rightarrow> [] | Some p \<Rightarrow> CHR ''/'' # p)))
      else setPath u rest)"

definition parse_no_fragment :: "string \<Rightarrow> string + url" where
  "parse_no_fragment raw =
     (if list_ex ctl_byte raw then Inl ''net/url: invalid control character in URL''
      else if raw = ''*'' then Inr (empty_url\<lparr>url_Path := ''*''\<rparr>)
      else sum_bind (getscheme raw) (\<lambda>(scheme, rest).
        let u = empty_url\<lparr>url_Scheme := map to_lower scheme\<rparr> in
        if rest \<noteq> [] \<and> last rest = CHR ''?'' \<and> count_list rest (CHR ''?'') = 1
        then parse_hier (u\<lparr>url_ForceQuery := True\<rparr>) (butlast rest)
        else (case split_at (CHR ''?'') rest of
                (path, query) \<Rightarrow> parse_hier (u\<lparr>url_RawQuery := query\<rparr>) path)))"

definition url_Parse :: "string \<Rightarrow> string + url" where
  "url_Parse raw =
     (case split_at (CHR ''#'') raw of
        (u, frag) \<Rightarrow>
          sum_bind (parse_no_fragment u) (\<lambda>parsed.
            if frag = [] then Inr parsed
            else sum_bind (unescape encodeFragment frag) (\<lambda>f. Inr (parsed\<lparr>url_Fragment := f\<rparr>))))"

definition validEncodedPath :: "string \<Rightarrow> bool" where
  "validEncodedPath =
     list_all (\<lambda>c. c \<in> set ''!$&()*+,;=:@[]%'' \<or> c = CHR 0x27 \<or> \<not> shouldEscape c encodePath)"

definition EscapedPath :: "url \<Rightarrow> string" where
  "EscapedPath u =
     (if url_RawPath u \<noteq> [] \<and> validEncodedPath (url_RawPath u)
         \<and> unescape encodePath (url_RawPath u) = Inr (url_Path u)
      then url_RawPath u
      else if url_Path u = ''*'' then ''*''
      else escape encodePath (url_Path u))"

fun userinfo_String :: "userinfo \<Rightarrow> string" where
  "userinfo_String (User u) = escape encodeUserPassword u"
| "userinfo_String (UserPassword u p) =
     escape encodeUserPassword u @ '':'' @ escape encodeUserPassword p"

definition url_String :: "url \<Rightarrow> string" where
  "url_String u =
     (let scheme = (if url_Scheme u \<noteq> [] then url_Scheme u @ '':'' else []);
          hier =
            (if url_Opaque u \<noteq> [] then url_Opaque u
             else
               (let authority =
                      (if url_Scheme u \<noteq> [] \<or> url_Host u \<noteq> [] \<or> url_User u \<noteq> None then
                         (if url_Host u \<noteq> [] \<or> url_Path u \<noteq> [] \<or> url_User u \<noteq> None then ''//'' else [])
                         @ (case url_User u of None \<Rightarrow> [] | Some ui \<Rightarrow> userinfo_String ui @ ''@'')
                         @ escape encodeHost (url_Host u)
                       else []);
                    path = EscapedPath u;
                    slash = (if path \<noteq> [] \<and> hd path \<noteq> CHR ''/'' \<and> url_Host u \<noteq> [] then ''/'' else []);
                    dot = (if scheme @ authority @ slash = []
                              \<and> CHR '':'' \<in> set (fst (cut (CHR ''/'') path)) then ''./'' else [])
                in authority @ slash @ dot @ path))
      in scheme @ hier
         @ (if url_ForceQuery u \<or> url_RawQuery u \<noteq> [] then ''?'' @ url_RawQuery u else [])
         @ (if url_Fragment u \<noteq> [] then ''#'' @ escape encodeFragment (url_Fragment u) else []))"

definition RequestURI :: "url \<Rightarrow> string" where
  "RequestURI u =
     (let result =
        (if url_Opaque u = [] then (if EscapedPath u = [] then ''/'' else EscapedPath u)
         else if take 2 (url_Opaque u) = ''//'' then url_Scheme u @ '':'' @ url_Opaque u
         else url_Opaque u)
      in if url_ForceQuery u \<or> url_RawQuery u \<noteq> [] then result @ ''?'' @ url_RawQuery u else result)"

section \<open>References\<close>

function split_all :: "char \<Rightarrow> string \<Rightarrow> string list" where
  "split_all sep s = (case cut sep s of (a, None) \<Rightarrow> [a] | (a, Some b) \<Rightarrow> a # split_all sep b)"
  by pat_completeness auto
termination by (relation "measure (length \<circ> snd)") (auto dest: cut_length [OF sym])

declare split_all.simps [simp del]

fun join :: "string \<Rightarrow> string list \<Rightarrow> string" where
  "join sep [] = []"
| "join sep [x] = x"
| "join sep (x # xs) = x @ sep @ join sep xs"

fun dot_segments :: "string list \<Rightarrow> string list \<Rightarrow> string list" where
  "dot_segments dst [] = dst"
| "dot_segments dst (e # es) =
     (if e = ''.'' then dot_segments dst es
      else if e = ''..'' then dot_segments (butlast dst) es
      else dot_segments (dst @ [e]) es)"

definition resolvePath :: "string \<Rightarrow> string \<Rightarrow> string" where
  "resolvePath base ref =
     (let full = (if ref = [] then base
                  else if hd ref \<noteq> CHR ''/'' then
                    (case cut_last (CHR ''/'') base of None \<Rightarrow> ref | Some (a, b) \<Rightarrow> a @ ''/'' @ ref)
                  else ref)
      in if full = [] then []
         else (let src = split_all (CHR ''/'') full;
                   dst = dot_segments [] src;
                   dst' = (if last src \<in> {''.'', ''..''} then dst @ [[]] else dst);
                   joined = join ''/'' dst'
               in ''/'' @ (if take 1 joined = ''/'' then drop 1 joined else joined)))"

text \<open>The error of \<^verbatim>\<open>setPath\<close> is ignored: the URL is then left as it is.\<close>

definition setPath_ignore :: "url \<Rightarrow> string \<Rightarrow> url" where
  "setPath_ignore u p = (case setPath u p of Inl e \<Rightarrow> u | Inr u' \<Rightarrow> u')"

definition ResolveReference :: "url \<Rightarrow> url \<Rightarrow> url" where
  "ResolveReference u ref =
     (let url0 = (if url_Scheme ref = [] then ref\<lparr>url_Scheme := url_Scheme u\<rparr> else ref)
      in if url_Scheme ref \<noteq> [] \<or> url_Host ref \<noteq> [] \<or> url_User ref \<noteq> None then
           setPath_ignore url0 (resolvePath (EscapedPath ref) [])
         else if url_Opaque ref \<noteq> [] then url0\<lparr>url_User := None, url_Host := [], url_Path := []\<rparr>
         else
           (let url1 = (if url_Path ref = [] \<and> url_RawQuery ref = [] then
                          url0\<lparr>url_RawQuery := url_RawQuery u,
                               url_Fragment := (if url_Fragment ref = [] then url_Fragment u
                                                else url_Fragment ref)\<rparr>
                        else url0)
            in setPath_ignore (url1\<lparr>url_Host := url_Host u, url_User := url_User u\<rparr>)
                 (resolvePath (EscapedPath u) (EscapedPath ref))))"

section \<open>Queries\<close>

type_synonym url_values = "string \<rightharpoonup> string list"

fun cut_any :: "string \<Rightarrow> string \<times> string" where
  "cut_any [] = ([], [])"
| "cut_any (c # cs) =
     (if c = CHR ''&'' \<or> c = CHR '';'' then ([], cs) else (let (a, b) = cut_any cs in (c # a, b)))"

lemma cut_any_length: "s \<noteq> [] \<Longrightarrow> length (snd (cut_any s)) < length s"
proof (induction s)
  case (Cons c s)
  then show ?case by (cases "s = []") (auto split: prod.splits)
qed simp

definition add_pair :: "string \<Rightarrow> url_values \<Rightarrow> url_values" where
  "add_pair key m =
     (if key = [] then m
      else (case split_at (CHR ''='') key of (k, v) \<Rightarrow>
        (case (unescape encodeQueryComponent k, unescape encodeQueryComponent v) of
           (Inr k', Inr v') \<Rightarrow> m(k' \<mapsto> lookup0 [] m k' @ [v'])
         | _ \<Rightarrow> m)))"

function parseQuery :: "url_values \<Rightarrow> string \<Rightarrow> url_values" where
  "parseQuery m query =
     (if query = [] then m
      else (case cut_any query of (key, rest) \<Rightarrow> parseQuery (add_pair key m) rest))"
  by pat_completeness auto
termination
  by (relation "measure (length \<circ> snd)") (auto dest!: cut_any_length, metis cut_any_length snd_conv)

declare parseQuery.simps [simp del]

definition Query :: "url \<Rightarrow> url_values" where
  "Query u = parseQuery Map.empty (url_RawQuery u)"

definition values_Encode :: "url_values \<Rightarrow> string" where
  "values_Encode v =
     join ''&'' (concat (map (\<lambda>k. map (\<lambda>x. escape encodeQueryComponent k @ ''=''
                                          @ escape encodeQueryComponent x) (lookup0 [] v k))
                             (sorted_list_of_set (dom v))))"

lemma Query_no_empty: "parseQuery m q k = Some vs \<Longrightarrow> (\<And>k. m k \<noteq> Some []) \<Longrightarrow> vs \<noteq> []"
proof (induction m q rule: parseQuery.induct)
  case (1 m query)
  show ?case
  proof (cases "query = []")
    case True
    with 1 show ?thesis by (auto simp: parseQuery.simps [of m])
  next
    case False
    obtain key rest where c: "cut_any query = (key, rest)" by fastforce
    have "add_pair key m k \<noteq> Some []" for k
      using 1(3) by (auto simp: add_pair_def split: sum.splits prod.splits)
    then show ?thesis
      using 1(1) [OF False c [symmetric]] 1(2) False c
      by (auto simp: parseQuery.simps [of m query])
  qed
qed

end
