(* ===== verification/Api_Access_Policy.thy ===== *)
theory Api_Access_Policy
  imports Errors Go_Regexp Go_Url
begin

text \<open>
  The AccessPolicy resource (\<^verbatim>\<open>src/api/accesspolicy.go\<close>): its fields, validation and defaulting.
  The nil-safe getters take an option, where \<open>None\<close> is the nil pointer.
\<close>

section \<open>Fields\<close>

record apiCredentialsSecret =
  cs_Name :: string
  cs_ClientIDKey :: string
  cs_ClientSecretKey :: string
  cs_TokenSecretKey :: string

record apiOIDC =
  ao_Provider :: string
  ao_CredentialsSecret :: apiCredentialsSecret
  ao_CallbackPath :: string

record apiRouteHeader =
  arh_Name :: string
  arh_Roles :: "string list"
  arh_Value :: string

record apiRoute =
  ar_Name :: string
  ar_Roles :: "string list"
  ar_Headers :: "apiRouteHeader list"
  ar_DisableEnforcement :: bool

record apiSpec =
  as_Gateway :: string
  as_OIDC :: apiOIDC
  as_Routes :: "apiRoute list"

text \<open>A selector that was never set is the nil map, which differs from an empty one.\<close>

record apiIngress =
  ai_Selector :: "(string \<rightharpoonup> string) option"

record apiStatus =
  st_Ingress :: apiIngress
  st_VirtualHosts :: "string list"

record apiAccessPolicy =
  ap_Namespace :: string
  ap_Name :: string
  ap_Spec :: apiSpec
  ap_Status :: apiStatus

section \<open>Validation\<close>

definition Validate_oidc :: "apiOIDC \<Rightarrow> go_error list \<Rightarrow> go_error list" where
  "Validate_oidc o' errs =
     (let errs1 = (if MatchString provider_check_re (ao_Provider o') then errs
                   else errs @ [new_error ''invalid OpenID provider'' []])
      in (case url_Parse (ao_CallbackPath o') of
            Inl err \<Rightarrow> errs1 @ [wrap_error (Foreign err) ''invalid callback path'' []]
          | Inr u \<Rightarrow> errs1))"

definition duplicate_error :: "string \<Rightarrow> go_error" where
  "duplicate_error name = new_error ''duplicate route name'' [(''name'', GStr name)]"

fun Validate_routes :: "apiRoute list \<Rightarrow> string set \<Rightarrow> go_error list \<Rightarrow> go_error list" where
  "Validate_routes [] names errs = errs"
| "Validate_routes (r # rs) names errs =
     (if ar_Name r \<in> names then Validate_routes rs names (errs @ [duplicate_error (ar_Name r)])
      else Validate_routes rs (insert (ar_Name r) names) errs)"

definition Validate_spec :: "apiSpec \<Rightarrow> go_error list \<Rightarrow> go_error list" where
  "Validate_spec s errs = Validate_routes (as_Routes s) {} (Validate_oidc (as_OIDC s) errs)"

definition Validate :: "apiAccessPolicy \<Rightarrow> go_error list" where
  "Validate ap = Validate_spec (ap_Spec ap) []"

section \<open>Defaults\<close>

definition Normalize_secret :: "apiCredentialsSecret \<Rightarrow> apiCredentialsSecret" where
  "Normalize_secret s =
     s\<lparr>cs_ClientIDKey := (if cs_ClientIDKey s = [] then ''clientID'' else cs_ClientIDKey s),
       cs_ClientSecretKey :=
         (if cs_ClientSecretKey s = [] then ''clientSecret'' else cs_ClientSecretKey s),
       cs_TokenSecretKey :=
         (if cs_TokenSecretKey s = [] then ''tokenKey'' else cs_TokenSecretKey s)\<rparr>"

definition Normalize_oidc :: "apiOIDC \<Rightarrow> apiOIDC" where
  "Normalize_oidc o' =
     o'\<lparr>ao_CredentialsSecret := Normalize_secret (ao_CredentialsSecret o'),
        ao_CallbackPath :=
          (if ao_CallbackPath o' = [] then ''/odic/callback'' else ao_CallbackPath o')\<rparr>"

definition Normalize_spec :: "apiSpec \<Rightarrow> apiSpec" where
  "Normalize_spec s = s\<lparr>as_OIDC := Normalize_oidc (as_OIDC s)\<rparr>"

definition Normalize :: "apiAccessPolicy \<Rightarrow> apiAccessPolicy" where
  "Normalize ap = ap\<lparr>ap_Spec := Normalize_spec (ap_Spec ap)\<rparr>"

section \<open>Getters\<close>

definition GetIngress :: "apiStatus option \<Rightarrow> apiIngress option" where
  "GetIngress st = map_option st_Ingress st"

definition GetSelector :: "apiIngress option \<Rightarrow> (string \<rightharpoonup> string) option" where
  "GetSelector i = (case i of None \<Rightarrow> None | Some i' \<Rightarrow> ai_Selector i')"

section \<open>Route names\<close>

text \<open>The names of the routes after the first of each name, in order.\<close>

fun repeated :: "'a list \<Rightarrow> 'a set \<Rightarrow> 'a list" where
  "repeated [] seen = []"
| "repeated (x # xs) seen =
     (if x \<in> seen then x # repeated xs seen else repeated xs (insert x seen))"

lemma Validate_routes_repeated:
  "Validate_routes rs names errs = errs @ map duplicate_error (repeated (map ar_Name rs) names)"
  by (induction rs arbitrary: names errs) auto

lemma repeated_Nil_iff: "repeated xs seen = [] \<longleftrightarrow> distinct xs \<and> set xs \<inter> seen = {}"
  by (induction xs arbitrary: seen) auto

lemma repeated_length: "finite seen \<Longrightarrow>
    length (repeated xs seen) + card (set xs - seen) = length xs"
proof (induction xs arbitrary: seen)
  case (Cons x xs)
  show ?case
  proof (cases "x \<in> seen")
    case False
    have "set (x # xs) - seen = insert x (set xs - insert x seen)" using False by auto
    then have "card (set (x # xs) - seen) = Suc (card (set xs - insert x seen))" by simp
    with False Cons.IH [of "insert x seen"] Cons.prems show ?thesis by simp
  qed (use Cons in simp)
qed simp

section \<open>Claims\<close>

definition provider_ok :: "string \<Rightarrow> bool" where
  "provider_ok s \<longleftrightarrow>
     (case cut (CHR ''/'') s of
        (a, None) \<Rightarrow> name_part a
      | (a, Some b) \<Rightarrow> namespace_part a \<and> name_part b)"

lemma provider_check_ok: "MatchString provider_check_re s \<longleftrightarrow> provider_ok s"
  unfolding provider_check provider_match provider_ok_def
  by (auto split: prod.splits option.splits)

definition callback_ok :: "string \<Rightarrow> bool" where
  "callback_ok s \<longleftrightarrow> (case url_Parse s of Inl e \<Rightarrow> False | Inr u \<Rightarrow> True)"

lemma Validate_parts:
  "Validate ap =
     (if provider_ok (ao_Provider (as_OIDC (ap_Spec ap))) then []
      else [new_error ''invalid OpenID provider'' []])
     @ (case url_Parse (ao_CallbackPath (as_OIDC (ap_Spec ap))) of
          Inl err \<Rightarrow> [wrap_error (Foreign err) ''invalid callback path'' []] | Inr u \<Rightarrow> [])
     @ map duplicate_error (repeated (map ar_Name (as_Routes (ap_Spec ap))) {})"
  by (simp add: Validate_def Validate_spec_def Validate_oidc_def Validate_routes_repeated
      provider_check_ok Let_def split: sum.splits)

text \<open>
  C39: A policy passes validation exactly when its provider is a name of lower-case letters,
  dashes and dots, or a namespace of lower-case letters and dashes, a slash and such a name; its
  callback path parses as a URL; and no two routes share a name. The number of errors counts one
  for the provider, one for the callback path and one for each route beyond the first of its
  name.
\<close>

theorem validate_accepts_iff:
  "(Validate ap = [] \<longleftrightarrow>
      provider_ok (ao_Provider (as_OIDC (ap_Spec ap)))
      \<and> callback_ok (ao_CallbackPath (as_OIDC (ap_Spec ap)))
      \<and> distinct (map ar_Name (as_Routes (ap_Spec ap))))
   \<and> length (Validate ap) + card (set (map ar_Name (as_Routes (ap_Spec ap)))) =
      of_bool (\<not> provider_ok (ao_Provider (as_OIDC (ap_Spec ap))))
      + of_bool (\<not> callback_ok (ao_CallbackPath (as_OIDC (ap_Spec ap))))
      + length (as_Routes (ap_Spec ap))"
  using repeated_length [of "{}" "map ar_Name (as_Routes (ap_Spec ap))"]
  by (auto simp: Validate_parts repeated_Nil_iff callback_ok_def split: sum.splits)

lemma default_callback_parses: "callback_ok ''/odic/callback''"
  by code_simp

lemma empty_callback_parses: "callback_ok []"
  by code_simp

text \<open>
  Defaulting fills every key of the credentials secret and the callback path, changes
  nothing else, does nothing the second time, and never turns a valid policy into an invalid
  one (nor the other way round).
\<close>

lemma normalize_fills_and_keeps_validity:
  "Normalize (Normalize ap) = Normalize ap
   \<and> cs_ClientIDKey (ao_CredentialsSecret (as_OIDC (ap_Spec (Normalize ap)))) \<noteq> []
   \<and> cs_ClientSecretKey (ao_CredentialsSecret (as_OIDC (ap_Spec (Normalize ap)))) \<noteq> []
   \<and> cs_TokenSecretKey (ao_CredentialsSecret (as_OIDC (ap_Spec (Normalize ap)))) \<noteq> []
   \<and> ao_CallbackPath (as_OIDC (ap_Spec (Normalize ap))) \<noteq> []
   \<and> as_Routes (ap_Spec (Normalize ap)) = as_Routes (ap_Spec ap)
   \<and> ap_Status (Normalize ap) = ap_Status ap
   \<and> (Validate (Normalize ap) = [] \<longleftrightarrow> Validate ap = [])"
proof -
  have "Validate (Normalize ap) = [] \<longleftrightarrow> Validate ap = []"
    using default_callback_parses empty_callback_parses
    unfolding Validate_parts
    by (auto simp: callback_ok_def Normalize_def Normalize_spec_def Normalize_oidc_def
        split: sum.splits)
  then show ?thesis
    by (simp add: Normalize_def Normalize_spec_def Normalize_oidc_def Normalize_secret_def)
qed

end
