(* ===== verification/Role_Path.thy ===== *)
theory Role_Path
  imports Errors Go_Strings
begin

text \<open>
  The parser of role paths (\<^verbatim>\<open>src/state/openidprovider/path.go\<close>): a path is a list of
  identifiers separated by dots, an identifier is plain or quoted with escape sequences. The
  parser works on runes; reading \<^verbatim>\<open>str[0]\<close> of an empty slice panics.
\<close>

section \<open>Unicode classes\<close>

text \<open>
  The tables of package \<^verbatim>\<open>unicode\<close> are data of the environment. The code relies on two entries:
  the quote and the dot are pattern syntax, so neither belongs to an identifier.
\<close>

record unicode_tables =
  uc_L :: "rune \<Rightarrow> bool"
  uc_Nl :: "rune \<Rightarrow> bool"
  uc_Other_ID_Start :: "rune \<Rightarrow> bool"
  uc_Mn :: "rune \<Rightarrow> bool"
  uc_Mc :: "rune \<Rightarrow> bool"
  uc_Nd :: "rune \<Rightarrow> bool"
  uc_Pc :: "rune \<Rightarrow> bool"
  uc_Other_ID_Continue :: "rune \<Rightarrow> bool"
  uc_Pattern_Syntax :: "rune \<Rightarrow> bool"
  uc_Pattern_White_Space :: "rune \<Rightarrow> bool"

definition unicode_ok :: "unicode_tables \<Rightarrow> bool" where
  "unicode_ok u \<longleftrightarrow> uc_Pattern_Syntax u 34 \<and> uc_Pattern_Syntax u 46"

text \<open>The tables restricted to ASCII, for concrete runs.\<close>

definition ascii_letter :: "rune \<Rightarrow> bool" where
  "ascii_letter r \<longleftrightarrow> (65 \<le> r \<and> r \<le> 90) \<or> (97 \<le> r \<and> r \<le> 122)"

definition ascii_tables :: unicode_tables where
  "ascii_tables =
     \<lparr>uc_L = ascii_letter, uc_Nl = (\<lambda>r. False), uc_Other_ID_Start = (\<lambda>r. False),
      uc_Mn = (\<lambda>r. False), uc_Mc = (\<lambda>r. False), uc_Nd = (\<lambda>r. 48 \<le> r \<and> r \<le> 57),
      uc_Pc = (\<lambda>r. r = 95), uc_Other_ID_Continue = (\<lambda>r. r = 183),
      uc_Pattern_Syntax =
        (\<lambda>r. (33 \<le> r \<and> r \<le> 47) \<or> (58 \<le> r \<and> r \<le> 64) \<or> (91 \<le> r \<and> r \<le> 94)
             \<or> r = 96 \<or> (123 \<le> r \<and> r \<le> 126)),
      uc_Pattern_White_Space = (\<lambda>r. (9 \<le> r \<and> r \<le> 13) \<or> r = 32)\<rparr>"

lemma unicode_ok_ascii: "unicode_ok ascii_tables"
  by (simp add: unicode_ok_def ascii_tables_def)

section \<open>The parser\<close>

definition isIdStart :: "unicode_tables \<Rightarrow> rune \<Rightarrow> bool" where
  "isIdStart u r \<longleftrightarrow>
     (uc_L u r \<or> uc_Nl u r \<or> uc_Other_ID_Start u r)
     \<and> \<not> (uc_Pattern_Syntax u r \<or> uc_Pattern_White_Space u r)"

definition isIdContinue :: "unicode_tables \<Rightarrow> rune \<Rightarrow> bool" where
  "isIdContinue u r \<longleftrightarrow>
     (uc_L u r \<or> uc_Nl u r \<or> uc_Other_ID_Start u r \<or> uc_Mn u r \<or> uc_Mc u r \<or> uc_Nd u r
      \<or> uc_Pc u r \<or> uc_Other_ID_Continue u r)
     \<and> \<not> (uc_Pattern_Syntax u r \<or> uc_Pattern_White_Space u r)"

text \<open>A text between single quotes, in the messages of \<^verbatim>\<open>fmt.Errorf\<close>.\<close>

definition sq :: "string \<Rightarrow> string" where
  "sq s = CHR 0x27 # s @ [CHR 0x27]"

text \<open>
  In the code points below: 34 is the double quote, 36 the dollar sign, 46 the dot, 92 the
  backslash, 95 the underscore, 8204 and 8205 the zero-width non-joiner and joiner.
\<close>

fun scan_id :: "unicode_tables \<Rightarrow> rune list \<Rightarrow> nat" where
  "scan_id u [] = 0"
| "scan_id u (r # rs) =
     (if r \<noteq> 36 \<and> r \<noteq> 95 \<and> r \<noteq> 8204 \<and> r \<noteq> 8205 \<and> \<not> isIdContinue u r then 0
      else Suc (scan_id u rs))"

fun unquoted :: "unicode_tables \<Rightarrow> rune list \<Rightarrow> (go_error, string \<times> rune list) res" where
  "unquoted u [] = Panic"
| "unquoted u (r # rs) =
     (if r \<noteq> 36 \<and> r \<noteq> 95 \<and> \<not> isIdStart u r then Ok ([], r # rs)
      else (let idx = 1 + scan_id u rs
            in Ok (string_of_runes (take idx (r # rs)), drop idx (r # rs))))"

definition codepoint :: "rune list \<Rightarrow> (go_error, string \<times> rune list) res" where
  "codepoint str =
     (if length str < 4
      then Err (Foreign ''unexpected end of input, expected unicode codepoint'')
      else (let hex = take 4 str; rest = drop 4 str in
            case ParseUint16 hex of
              None \<Rightarrow> Err (Foreign (''invalid unicode codepoint '' @ sq (string_of_runes hex)))
            | Some n \<Rightarrow> Ok (string_of_rune n, rest)))"

fun escaped :: "rune list \<Rightarrow> (go_error, string \<times> rune list) res" where
  "escaped (r0 # r # str) =
     (if r = 34 then Ok (string_of_rune 34, str)
      else if r = 92 then Ok (string_of_rune 92, str)
      else if r = 47 then Ok (string_of_rune 47, str)
      else if r = 98 then Ok (string_of_rune 8, str)
      else if r = 102 then Ok (string_of_rune 12, str)
      else if r = 110 then Ok (string_of_rune 10, str)
      else if r = 114 then Ok (string_of_rune 13, str)
      else if r = 116 then Ok (string_of_rune 9, str)
      else if r = 117 then codepoint str
      else Err (Foreign (''unknown escape sequence '' @ sq (string_of_rune 92 @ string_of_rune r))))"
| "escaped _ = Err (Foreign ''unexpected end of input, expected escape sequence'')"

lemma codepoint_length: "codepoint str = Ok (esc, rest) \<Longrightarrow> length rest < length str"
  by (auto simp: codepoint_def Let_def split: if_splits option.splits)

lemma escaped_length: "escaped str = Ok (esc, rest) \<Longrightarrow> length rest < length str"
  by (cases str rule: escaped.cases) (auto split: if_splits dest: codepoint_length)

function quoted_loop :: "string \<Rightarrow> rune list \<Rightarrow> (go_error, string \<times> rune list) res" where
  "quoted_loop nm [] =
     Err (Foreign (''unexpected end of input in quoted string '' @ sq nm))"
| "quoted_loop nm (r # str) =
     (if r = 34 then Ok (nm, str)
      else if r = 92 then res_bind (escaped str) (\<lambda>(esc, rest). quoted_loop (nm @ esc) rest)
      else quoted_loop (nm @ string_of_rune r) str)"
  by pat_completeness auto
termination
  by (relation "measure (\<lambda>(nm, str). length str)") (auto dest: escaped_length)

fun quoted :: "rune list \<Rightarrow> (go_error, string \<times> rune list) res" where
  "quoted [] = Panic"
| "quoted (r # str) = quoted_loop [] str"

lemma quoted_loop_length: "quoted_loop nm str = Ok (x, rest) \<Longrightarrow> length rest < length str"
proof (induction nm str rule: quoted_loop.induct)
  case (2 nm r str)
  then show ?case
    by (fastforce split: if_splits dest: escaped_length)
qed simp

lemma quoted_length: "quoted str = Ok (x, rest) \<Longrightarrow> length rest < length str"
  by (cases str) (auto dest: quoted_loop_length)

lemma unquoted_length: "unquoted u str = Ok (x, rest) \<Longrightarrow> length rest \<le> length str"
  by (cases str) (auto simp: Let_def split: if_splits)

text \<open>\<open>ident\<close>: the branch of the loop of \<^verbatim>\<open>parseRolePath\<close> that reads one identifier.\<close>

fun ident :: "unicode_tables \<Rightarrow> rune list \<Rightarrow> (go_error, string \<times> rune list) res" where
  "ident u [] = Panic"
| "ident u (r # str) = (if r = 34 then quoted (r # str) else unquoted u (r # str))"

lemma ident_length: "ident u str = Ok (x, rest) \<Longrightarrow> length rest \<le> length str"
  by (cases str) (auto split: if_splits dest: quoted_loop_length unquoted_length)

function parse_loop ::
  "unicode_tables \<Rightarrow> rune list \<Rightarrow> string list \<Rightarrow> (go_error, string list \<times> rune list) res" where
  "parse_loop u str ids =
     res_bind (ident u str) (\<lambda>(nm, str').
       if nm = [] then Err (Foreign ''empty identifier'')
       else case str' of
              [] \<Rightarrow> Ok (ids @ [nm], [])
            | c # rest \<Rightarrow>
                if c \<noteq> 46
                then Err (Foreign (''unexpected '' @ sq (string_of_rune c) @ '', expected '' @ sq ''.''))
                else parse_loop u rest (ids @ [nm]))"
  by pat_completeness auto
termination
  by (relation "measure (\<lambda>(u, str, ids). length str)") (auto dest: ident_length)

definition parseRolePath ::
  "unicode_tables \<Rightarrow> rune list \<Rightarrow> (go_error, string list \<times> rune list) res" where
  "parseRolePath u str = parse_loop u str []"

declare parse_loop.simps [simp del]

section \<open>Reading one identifier in a longer text\<close>

text \<open>
  Each routine reads a prefix of its input and looks at most at the next rune, so it behaves the
  same way when the rest of the text changes. The \<open>_split\<close> lemmas give the prefix that was read.
\<close>

lemma codepoint_split:
  assumes "codepoint str = Ok (esc, rest)"
  shows "\<exists>p. str = p @ rest \<and> (\<forall>ys. codepoint (p @ ys) = Ok (esc, ys))"
proof (intro exI conjI allI)
  show "str = take 4 str @ rest"
    using assms by (auto simp: codepoint_def Let_def split: if_splits option.splits)
  show "codepoint (take 4 str @ ys) = Ok (esc, ys)" for ys
    using assms by (auto simp: codepoint_def Let_def split: if_splits option.splits)
qed

lemma escaped_split:
  assumes "escaped str = Ok (esc, rest)"
  shows "\<exists>p. str = p @ rest \<and> (\<forall>ys. escaped (p @ ys) = Ok (esc, ys))"
proof -
  obtain r0 r str' where str: "str = r0 # r # str'"
    using assms by (cases str rule: escaped.cases) auto
  show ?thesis
  proof (cases "r = 117")
    case True
    with assms str have "codepoint str' = Ok (esc, rest)" by simp
    then obtain p where "str' = p @ rest" "\<forall>ys. codepoint (p @ ys) = Ok (esc, ys)"
      using codepoint_split by blast
    with str True show ?thesis by (intro exI [of _ "r0 # r # p"]) simp
  next
    case False
    with assms str show ?thesis
      by (intro exI [of _ "[r0, r]"]) (auto split: if_splits)
  qed
qed

lemma quoted_loop_split:
  "quoted_loop nm str = Ok (x, rest) \<Longrightarrow>
    \<exists>p. str = p @ rest \<and> (\<forall>ys. quoted_loop nm (p @ ys) = Ok (x, ys))"
proof (induction nm str rule: quoted_loop.induct)
  case (1 nm)
  then show ?case by simp
next
  case (2 nm r str)
  consider "r = 34" | "r = 92" | "r \<noteq> 34" "r \<noteq> 92" by blast
  then show ?case
  proof cases
    case 1
    with "2.prems" show ?thesis by (intro exI [of _ "[34]"]) auto
  next
    case 2
    with "2.prems" obtain esc str' where e: "escaped str = Ok (esc, str')"
      and l: "quoted_loop (nm @ esc) str' = Ok (x, rest)" by auto
    then obtain p where p: "str' = p @ rest" "\<forall>ys. quoted_loop (nm @ esc) (p @ ys) = Ok (x, ys)"
      using "2.IH"(1) 2 by fastforce
    obtain q where q: "str = q @ str'" "\<forall>ys. escaped (q @ ys) = Ok (esc, ys)"
      using escaped_split [OF e] by blast
    show ?thesis using 2 p q by (intro exI [of _ "92 # q @ p"]) simp
  next
    case 3
    with "2.prems" have "quoted_loop (nm @ string_of_rune r) str = Ok (x, rest)" by simp
    then obtain p where "str = p @ rest"
        "\<forall>ys. quoted_loop (nm @ string_of_rune r) (p @ ys) = Ok (x, ys)"
      using "2.IH"(2) 3 by blast
    with 3 show ?thesis by (intro exI [of _ "r # p"]) simp
  qed
qed

lemma quoted_loop_no_panic: "quoted_loop nm str \<noteq> Panic"
proof (induction nm str rule: quoted_loop.induct)
  case (2 nm r str)
  have "escaped str \<noteq> Panic"
    by (cases str rule: escaped.cases) (auto simp: codepoint_def Let_def split: option.splits)
  with 2 show ?case by (auto simp: res_bind_eq_Panic)
qed simp

lemma ident_panic_iff: "ident u str = Panic \<longleftrightarrow> str = []"
  by (cases str) (auto simp: Let_def quoted_loop_no_panic)

lemma dot_not_in_ident: "unicode_ok u \<Longrightarrow> \<not> isIdContinue u 46"
  by (simp add: unicode_ok_def isIdContinue_def)

lemma scan_id_le: "scan_id u rs \<le> length rs"
  by (induction rs) auto

lemma scan_id_stop:
  "unicode_ok u \<Longrightarrow> scan_id u (take (scan_id u rs) rs @ ys) =
     scan_id u rs + (if ys = [] then 0 else scan_id u ys)"
  by (induction rs) auto

lemma scan_id_dot: "unicode_ok u \<Longrightarrow> scan_id u (46 # ys) = 0"
  by (simp add: dot_not_in_ident)

lemma ident_split:
  assumes "unicode_ok u" and "ident u str = Ok (x, rest)" and "x \<noteq> []"
  shows "\<exists>p. str = p @ rest
    \<and> (\<forall>ys. ys = [] \<or> hd ys = 46 \<longrightarrow> ident u (p @ ys) = Ok (x, ys))"
proof -
  obtain r rs where str: "str = r # rs" using assms by (cases str) auto
  show ?thesis
  proof (cases "r = 34")
    case True
    with assms(2) str have "quoted_loop [] rs = Ok (x, rest)" by simp
    then obtain p where "rs = p @ rest" "\<forall>ys. quoted_loop [] (p @ ys) = Ok (x, ys)"
      using quoted_loop_split by blast
    with True str show ?thesis by (intro exI [of _ "34 # p"]) simp
  next
    case False
    let ?n = "scan_id u rs"
    have start: "r = 36 \<or> r = 95 \<or> isIdStart u r"
      and x: "x = string_of_runes (r # take ?n rs)" and rest: "rest = drop ?n rs"
      using assms(2,3) str False by (auto simp: Let_def split: if_splits)
    have "ident u ((r # take ?n rs) @ ys) = Ok (x, ys)" if "ys = [] \<or> hd ys = 46" for ys
    proof -
      have "(if ys = [] then 0 else scan_id u ys) = 0"
        using that scan_id_dot [OF assms(1)] by (cases ys) auto
      then have "scan_id u (take ?n rs @ ys) = ?n"
        using scan_id_stop [OF assms(1)] by simp
      then show ?thesis
        using start False x scan_id_le [of u rs] by (simp add: Let_def min_absorb2)
    qed
    with str rest show ?thesis
      by (intro exI [of _ "r # take ?n rs"]) simp
  qed
qed

section \<open>Properties of the parser\<close>

text \<open>One round of the loop, by what \<open>ident\<close> returned.\<close>

lemma parse_loop_last:
  "ident u str = Ok (x, []) \<Longrightarrow> x \<noteq> [] \<Longrightarrow> parse_loop u str ids = Ok (ids @ [x], [])"
  by (subst parse_loop.simps) simp

lemma parse_loop_next:
  "ident u str = Ok (x, 46 # rest) \<Longrightarrow> x \<noteq> [] \<Longrightarrow>
     parse_loop u str ids = parse_loop u rest (ids @ [x])"
  by (subst parse_loop.simps) simp

lemma parse_loop_empty: "parse_loop u [] ids = Panic"
  by (subst parse_loop.simps) simp

text \<open>How a run that returns, or panics, can begin.\<close>

lemma parse_loop_cases:
  assumes "parse_loop u str ids = out" and "out = Panic \<or> (\<exists>r. out = Ok r)" and "str \<noteq> []"
  obtains (last) x where "ident u str = Ok (x, [])" "x \<noteq> []" "out = Ok (ids @ [x], [])"
  | (dot) x rest where "ident u str = Ok (x, 46 # rest)" "x \<noteq> []"
      "out = parse_loop u rest (ids @ [x])"
proof -
  obtain x str' where i: "ident u str = Ok (x, str')"
    using assms ident_panic_iff [of u str]
    by (cases "ident u str") (auto simp: parse_loop.simps [of u str ids])
  have x: "x \<noteq> []"
    using assms i by (auto simp: parse_loop.simps [of u str ids])
  show thesis
  proof (cases str')
    case Nil
    with i x assms(1) show thesis by (intro last) (auto simp: parse_loop_last)
  next
    case (Cons c rest)
    have "c = 46"
      using assms i x Cons by (auto simp: parse_loop.simps [of u str ids] split: if_splits)
    with i x Cons assms(1) show thesis by (intro dot) (auto simp: parse_loop_next)
  qed
qed

lemma parse_loop_sound:
  "parse_loop u str ids = Ok (out, rest) \<Longrightarrow>
     rest = [] \<and> (\<exists>xs. out = ids @ xs \<and> xs \<noteq> [] \<and> [] \<notin> set xs)"
proof (induction u str ids rule: parse_loop.induct)
  case (1 u str ids)
  have ne: "str \<noteq> []" using "1.prems" parse_loop_empty by (cases str) auto
  have d: "Ok (out, rest) = Panic \<or> (\<exists>r. Ok (out, rest) = Ok r)" by simp
  show ?case
  proof (cases rule: parse_loop_cases [OF "1.prems" d ne])
    case (1 x)
    then show ?thesis by auto
  next
    case (2 x rest')
    then obtain xs where "rest = []" "out = (ids @ [x]) @ xs" "[] \<notin> set xs"
      using "1.IH" [OF 2(1) refl 2(2) refl] by force
    with 2(2) show ?thesis by (intro conjI exI [of _ "x # xs"]) auto
  qed
qed

lemma parse_loop_extend:
  "unicode_ok u \<Longrightarrow> parse_loop u str ids = Ok (out, []) \<Longrightarrow>
    parse_loop u (str @ 46 # ys) ids = parse_loop u ys out"
proof (induction u str ids rule: parse_loop.induct)
  case (1 u str ids)
  have ne: "str \<noteq> []" using "1.prems" parse_loop_empty by (cases str) auto
  have d: "Ok (out, []) = Panic \<or> (\<exists>r. Ok (out, [] :: rune list) = Ok r)" by simp
  show ?case
  proof (cases rule: parse_loop_cases [OF "1.prems"(2) d ne])
    case (1 x)
    then have "ident u (str @ 46 # ys) = Ok (x, 46 # ys)"
      using ident_split [OF "1.prems"(1)] by fastforce
    with 1 show ?thesis by (simp add: parse_loop_next)
  next
    case (2 x rest)
    then have "ident u (str @ 46 # ys) = Ok (x, 46 # rest @ 46 # ys)"
      using ident_split [OF "1.prems"(1)] by fastforce
    moreover have "parse_loop u (rest @ 46 # ys) (ids @ [x]) = parse_loop u ys out"
      using "1.IH" [OF 2(1) refl 2(2) refl] 2(3) "1.prems"(1) by simp
    ultimately show ?thesis using 2(2) by (simp add: parse_loop_next)
  qed
qed

lemma parse_loop_panic_dot:
  "unicode_ok u \<Longrightarrow> parse_loop u str ids = Panic \<Longrightarrow> str \<noteq> [] \<Longrightarrow>
    \<exists>p out. str = p @ [46] \<and> parse_loop u p ids = Ok (out, [])"
proof (induction u str ids rule: parse_loop.induct)
  case (1 u str ids)
  have d: "(Panic :: (go_error, string list \<times> rune list) res) = Panic \<or> (\<exists>r. Panic = Ok r)" by simp
  show ?case
  proof (cases rule: parse_loop_cases [OF "1.prems"(2) d "1.prems"(3)])
    case (1 x)
    then show ?thesis by simp
  next
    case (2 x rest)
    obtain p where p: "str = p @ 46 # rest"
        "\<And>ys. ys = [] \<or> hd ys = 46 \<Longrightarrow> ident u (p @ ys) = Ok (x, ys)"
      using ident_split [OF "1.prems"(1) 2(1,2)] by blast
    show ?thesis
    proof (cases "rest = []")
      case True
      have "parse_loop u p ids = Ok (ids @ [x], [])"
        using p(2) [of "[]"] 2(2) by (simp add: parse_loop_last)
      with p True show ?thesis by blast
    next
      case False
      then obtain q out where q: "rest = q @ [46]" "parse_loop u q (ids @ [x]) = Ok (out, [])"
        using "1.IH" [OF 2(1) refl 2(2) refl _ "1.prems"(1)] 2(3) by force
      have "parse_loop u (p @ 46 # q) ids = Ok (out, [])"
        using p(2) [of "46 # q"] q 2(2) by (simp add: parse_loop_next)
      with p q show ?thesis by (intro exI [of _ "p @ 46 # q"] exI [of _ out]) simp
    qed
  qed
qed

lemma parse_loop_panic_iff:
  assumes "unicode_ok u"
  shows "parse_loop u str ids = Panic \<longleftrightarrow>
    str = [] \<or> (\<exists>p out. str = p @ [46] \<and> parse_loop u p ids = Ok (out, []))"
  using parse_loop_panic_dot [OF assms] parse_loop_extend [OF assms, of _ _ _ "[]"]
  by (auto simp: parse_loop_empty)

section \<open>Writing paths\<close>

text \<open>
  A printer for the syntax the parser accepts: an identifier is written as it is when it is a
  plain identifier, and otherwise between quotes. After a backslash the parser skips one rune
  before it reads the escape letter, so a quote or a backslash takes three runes to write.
\<close>

fun plain_ident :: "unicode_tables \<Rightarrow> rune list \<Rightarrow> bool" where
  "plain_ident u [] = False"
| "plain_ident u (r # rs) =
     ((r = 36 \<or> r = 95 \<or> isIdStart u r)
      \<and> list_all (\<lambda>r. r = 36 \<or> r = 95 \<or> r = 8204 \<or> r = 8205 \<or> isIdContinue u r) rs)"

definition quote_rune :: "rune \<Rightarrow> rune list" where
  "quote_rune r = (if r = 34 \<or> r = 92 then [92, 92, r] else [r])"

definition print_ident :: "unicode_tables \<Rightarrow> rune list \<Rightarrow> rune list" where
  "print_ident u rs = (if plain_ident u rs then rs else 34 # concat (map quote_rune rs) @ [34])"

fun print_path :: "unicode_tables \<Rightarrow> rune list list \<Rightarrow> rune list" where
  "print_path u [] = []"
| "print_path u [x] = print_ident u x"
| "print_path u (x # xs) = print_ident u x @ 46 # print_path u xs"

lemma quoted_loop_quote_rune:
  "quoted_loop nm (quote_rune r @ ys) = quoted_loop (nm @ string_of_rune r) ys"
  by (simp add: quote_rune_def)

lemma quoted_loop_print:
  "quoted_loop nm (concat (map quote_rune rs) @ 34 # ys) = Ok (nm @ string_of_runes rs, ys)"
  by (induction rs arbitrary: nm) (simp_all add: quoted_loop_quote_rune)

lemma scan_id_plain:
  "list_all (\<lambda>r. r = 36 \<or> r = 95 \<or> r = 8204 \<or> r = 8205 \<or> isIdContinue u r) rs \<Longrightarrow>
    scan_id u (rs @ ys) = length rs + scan_id u ys"
  by (induction rs) auto

lemma ident_print:
  assumes "unicode_ok u" and "ys = [] \<or> hd ys = 46" and "rs \<noteq> []"
  shows "ident u (print_ident u rs @ ys) = Ok (string_of_runes rs, ys)"
proof (cases "plain_ident u rs")
  case False
  then show ?thesis by (simp add: print_ident_def quoted_loop_print)
next
  case True
  then obtain r rs' where rs: "rs = r # rs'" and start: "r = 36 \<or> r = 95 \<or> isIdStart u r"
    and cont: "list_all (\<lambda>r. r = 36 \<or> r = 95 \<or> r = 8204 \<or> r = 8205 \<or> isIdContinue u r) rs'"
    by (cases rs) auto
  have "r \<noteq> 34" using start assms(1) by (auto simp: unicode_ok_def isIdStart_def)
  moreover have "scan_id u ys = 0"
    using assms(2) scan_id_dot [OF assms(1)] by (cases ys) auto
  ultimately show ?thesis
    using True start rs scan_id_plain [OF cont, of ys]
    by (simp add: print_ident_def Let_def)
qed

lemma parse_loop_print:
  "unicode_ok u \<Longrightarrow> xs \<noteq> [] \<Longrightarrow> [] \<notin> set xs \<Longrightarrow>
    parse_loop u (print_path u xs) ids = Ok (ids @ map string_of_runes xs, [])"
proof (induction u xs arbitrary: ids rule: print_path.induct)
  case (2 u x)
  then show ?case
    using ident_print [of u "[]" x] by (simp add: parse_loop_last)
next
  case (3 u x y zs)
  then show ?case
    using ident_print [of u "46 # print_path u (y # zs)" x]
    by (auto simp: parse_loop_next)
qed simp

section \<open>Claims\<close>

text \<open>
  C38: Every list of non-empty identifiers (of any runes) has a path in the accepted syntax: the
  parser reads the printed path back as exactly the UTF-8 strings of the identifiers and leaves
  nothing unread.
\<close>

theorem role_path_roundtrip:
  assumes "unicode_ok u" and "xs \<noteq> []" and "[] \<notin> set xs"
  shows "parseRolePath u (print_path u xs) = Ok (map string_of_runes xs, [])"
  using parse_loop_print [OF assms, of "[]"] by (simp add: parseRolePath_def)

theorem role_path_roundtrip_witness:
  "parseRolePath ascii_tables (print_path ascii_tables [[114, 49], [34, 46, 92]])
     = Ok ([''r1'', [CHR 0x22, CHR ''.'', CHR 0x5C]], [])"
proof -
  have "map string_of_runes [[114, 49], [34, 46, 92]] = [''r1'', [CHR 0x22, CHR ''.'', CHR 0x5C]]"
    by (simp add: rune_eval)
  then show ?thesis
    using role_path_roundtrip [OF unicode_ok_ascii, of "[[114, 49], [34, 46, 92]]"] by simp
qed

text \<open>
  When the parser succeeds it has read the whole path, and the result is a non-empty list
  of non-empty identifiers.
\<close>

lemma role_path_sound:
  assumes "parseRolePath u str = Ok (ids, rest)"
  shows "rest = [] \<and> ids \<noteq> [] \<and> [] \<notin> set ids"
  using parse_loop_sound [of u str "[]"] assms by (auto simp: parseRolePath_def)

theorem role_path_sound_witness:
  "parseRolePath ascii_tables [97, 46, 98] = Ok ([''a'', ''b''], [])
   \<and> [] \<notin> set [''a'', ''b'']"
proof -
  have p: "parseRolePath ascii_tables [97, 46, 98] = Ok ([''a'', ''b''], [])"
    by (simp add: parseRolePath_def parse_loop.simps isIdStart_def isIdContinue_def
        ascii_tables_def ascii_letter_def rune_eval)
  with role_path_sound [OF p] show ?thesis by simp
qed

text \<open>
  The parser panics (index out of range) on exactly these inputs: the empty path, and a
  path it accepts followed by one dot. On every other input it returns a value or an error.
\<close>

lemma role_path_panics_iff:
  assumes "unicode_ok u"
  shows "parseRolePath u str = Panic \<longleftrightarrow>
    str = [] \<or> (\<exists>p ids. str = p @ [46] \<and> parseRolePath u p = Ok (ids, []))"
  using parse_loop_panic_iff [OF assms] by (simp add: parseRolePath_def)

lemma role_path_panics_iff_witness: "parseRolePath ascii_tables [97, 46] = Panic"
proof -
  have "parseRolePath ascii_tables [97] = Ok ([''a''], [])"
    by (simp add: parseRolePath_def parse_loop.simps isIdStart_def isIdContinue_def
        ascii_tables_def ascii_letter_def rune_eval)
  then show ?thesis
    using role_path_panics_iff [OF unicode_ok_ascii, of "[97, 46]"] by auto
qed

text \<open>
  The rune right after a backslash is skipped, whatever it is, and the one after it decides
  the escape; so the conventional escape of a quote in \<^verbatim>\<open>"a\"b"\<close> does not give a quote: the
  identifier read is \<^verbatim>\<open>a\<close> followed by a backspace.
\<close>

lemma role_path_escape_skips_rune:
  "escaped (c # str) = escaped (c' # str)
   \<and> parseRolePath u [34, 97, 92, 34, 98, 34] = Ok ([[CHR ''a'', CHR 0x08]], [])"
proof
  show "escaped (c # str) = escaped (c' # str)" by (cases str) simp_all
  show "parseRolePath u [34, 97, 92, 34, 98, 34] = Ok ([[CHR ''a'', CHR 0x08]], [])"
    by (simp add: parseRolePath_def parse_loop.simps rune_eval)
qed

end
