(* ===== verification/Role_Extract.thy ===== *)
theory Role_Extract
  imports Errors
begin

text \<open>
  Reading roles out of the claims of a token (\<^verbatim>\<open>src/state/openidprovider/roles.go\<close>). Claims are
  JSON values as \<^verbatim>\<open>encoding/json\<close> decodes them into \<^verbatim>\<open>interface{}\<close>; the type of numbers and
  their text (\<^verbatim>\<open>strconv.FormatFloat\<close>) are parameters.
\<close>

datatype 'n json =
    JNull
  | JBool bool
  | JNum 'n
  | JStr string
  | JArr "'n json list"
  | JObj "string \<Rightarrow> 'n json option"

text \<open>The dynamic type of a value, as \<^verbatim>\<open>%T\<close> prints it.\<close>

fun go_type :: "'n json \<Rightarrow> string" where
  "go_type JNull = ''<nil>''"
| "go_type (JBool b) = ''bool''"
| "go_type (JNum n) = ''float64''"
| "go_type (JStr s) = ''string''"
| "go_type (JArr xs) = ''[]interface {}''"
| "go_type (JObj m) = ''map[string]interface {}''"

section \<open>Conversion of the value found\<close>

fun convertValue :: "('n \<Rightarrow> string) \<Rightarrow> 'n json \<Rightarrow> (go_error, string) res" where
  "convertValue fmt (JBool b) = Ok (if b then ''true'' else ''false'')"
| "convertValue fmt (JNum n) = Ok (fmt n)"
| "convertValue fmt (JStr s) = Ok s"
| "convertValue fmt JNull = Ok ''null''"
| "convertValue fmt v = Err (Foreign (''unexpected value of type '' @ go_type v))"

definition convertSlice :: "('n \<Rightarrow> string) \<Rightarrow> 'n json list \<Rightarrow> (go_error, string list) res" where
  "convertSlice fmt arr = res_map (convertValue fmt) arr"

fun convert :: "('n \<Rightarrow> string) \<Rightarrow> 'n json \<Rightarrow> (go_error, string list) res" where
  "convert fmt (JArr arr) = convertSlice fmt arr"
| "convert fmt obj = res_bind (convertValue fmt obj) (\<lambda>str. Ok [str])"

section \<open>Following the path\<close>

fun extractRoles :: "('n \<Rightarrow> string) \<Rightarrow> string list \<Rightarrow> 'n json \<Rightarrow> (go_error, string list) res" where
  "extractRoles fmt [] obj = Err (Foreign ''empty path'')"
| "extractRoles fmt (i # path) (JObj dict) =
     (case dict i of
        None \<Rightarrow> Ok []
      | Some obj \<Rightarrow> if path = [] then convert fmt obj else extractRoles fmt path obj)"
| "extractRoles fmt (i # path) obj =
     Err (Foreign (''unexpected value of type '' @ go_type obj @
                   '', expected map[string]interface{}''))"

section \<open>What a path denotes\<close>

text \<open>
  The reference: a path leads to a value, or stops at a missing key, or runs into a value that
  is no object. \<open>extractRoles\<close> is the conversion of the value, no roles, or an error.
\<close>

datatype 'n walk_result = Found "'n json" | Missing | Stuck "'n json"

fun walk :: "string list \<Rightarrow> 'n json \<Rightarrow> 'n walk_result" where
  "walk [] obj = Found obj"
| "walk (i # path) (JObj dict) = (case dict i of None \<Rightarrow> Missing | Some obj \<Rightarrow> walk path obj)"
| "walk (i # path) obj = Stuck obj"

lemma walk_append:
  "walk (p @ q) obj =
     (case walk p obj of Found v \<Rightarrow> walk q v | Missing \<Rightarrow> Missing | Stuck v \<Rightarrow> Stuck v)"
  by (induction p obj rule: walk.induct) (auto split: option.splits)

lemma convertValue_no_panic: "\<not> is_panic (convertValue fmt v)"
  by (cases v) auto

lemma convert_no_panic: "\<not> is_panic (convert fmt v)"
proof (cases v)
  case (JArr arr)
  then show ?thesis
    by (simp add: convertSlice_def res_map_no_panic convertValue_no_panic)
qed auto

lemma convertSlice_Ok_iff:
  "convertSlice fmt arr = Ok strs \<longleftrightarrow> list_all2 (\<lambda>v s. convertValue fmt v = Ok s) arr strs"
  by (simp add: convertSlice_def res_map_Ok_iff)

lemma extractRoles_walk:
  "path \<noteq> [] \<Longrightarrow> extractRoles fmt path obj =
     (case walk path obj of
        Found v \<Rightarrow> convert fmt v
      | Missing \<Rightarrow> Ok []
      | Stuck v \<Rightarrow> Err (Foreign (''unexpected value of type '' @ go_type v @
                               '', expected map[string]interface{}'')))"
  by (induction fmt path obj rule: extractRoles.induct) (auto split: option.splits)

lemma extractRoles_no_panic: "extractRoles fmt path obj \<noteq> Panic"
  using convert_no_panic
  by (cases "path = []") (auto simp: extractRoles_walk is_panic_iff split: walk_result.splits)

section \<open>Claims\<close>

text \<open>
  A path that leads to an array yields one role per element, in the order of the array, each
  the text of its element; the extraction fails exactly when some element is an array or an
  object, and it never panics.
\<close>

lemma extract_roles_array:
  assumes "walk path obj = Found (JArr arr)" and "path \<noteq> []"
  shows "((\<exists>e. extractRoles fmt path obj = Err e) \<longleftrightarrow>
            (\<exists>v \<in> set arr. (\<exists>xs. v = JArr xs) \<or> (\<exists>m. v = JObj m)))
         \<and> (\<forall>roles. extractRoles fmt path obj = Ok roles \<longleftrightarrow>
              list_all2 (\<lambda>v s. convertValue fmt v = Ok s) arr roles)
         \<and> extractRoles fmt path obj \<noteq> Panic"
proof -
  have e: "extractRoles fmt path obj = res_map (convertValue fmt) arr"
    using assms by (simp add: extractRoles_walk convertSlice_def)
  have v: "(\<exists>e. convertValue fmt v = Err e) \<longleftrightarrow> (\<exists>xs. v = JArr xs) \<or> (\<exists>m. v = JObj m)" for v
    by (cases v) auto
  have "(\<exists>e. res_map (convertValue fmt) arr = Err e)
      \<longleftrightarrow> (\<exists>v \<in> set arr. \<exists>e. convertValue fmt v = Err e)"
    using convertValue_no_panic [of fmt] by (intro res_map_Err_iff) (auto simp: is_panic_iff)
  then show ?thesis
    unfolding v using e res_map_Ok_iff extractRoles_no_panic by metis
qed

definition demo_claims :: "nat json" where
  "demo_claims =
     JObj [''realm'' \<mapsto> JObj [''roles'' \<mapsto> JArr [JStr ''admin'', JBool True, JNull, JNum 7]],
           ''sub'' \<mapsto> JStr ''alice'']"

lemma extract_roles_array_witness:
  "extractRoles (\<lambda>n. ''7'') [''realm'', ''roles''] demo_claims
     = Ok [''admin'', ''true'', ''null'', ''7'']"
proof -
  have "walk [''realm'', ''roles''] demo_claims
      = Found (JArr [JStr ''admin'', JBool True, JNull, JNum 7])"
    by (simp add: demo_claims_def)
  from extract_roles_array [OF this, of "\<lambda>n. ''7''"] show ?thesis by simp
qed

end
