(* ===== verification/Oidc_Provider.thy ===== *)
theory Oidc_Provider
  imports Role_Path Role_Extract
begin

text \<open>
  OpenID providers (\<^verbatim>\<open>src/state/openidprovider/{struct,request,convert,token}.go\<close>): fetching the
  provider's configuration, parsing the role mappings of the resource, and turning the tokens a
  provider issued into a subject, an expiry and roles. HTTP, JSON decoding and JOSE are other
  code: they are the parameters \<open>http_get\<close> and \<open>jose\<close>.
\<close>

section \<open>Data\<close>

record openIdConfiguration =
  AuthorizationEndpoint :: string
  TokenEndpoint :: string
  JWKsURI :: string

datatype tokenFrom = AccessToken | IdToken

definition fromStrToConst :: "string \<rightharpoonup> tokenFrom" where
  "fromStrToConst = [[] \<mapsto> AccessToken, ''accesstoken'' \<mapsto> AccessToken, ''idtoken'' \<mapsto> IdToken]"

record roleMapping =
  rm_from :: tokenFrom
  rm_prefix :: string
  rm_path :: "string list"

record openIdProvider =
  op_name :: string
  op_cfg :: openIdConfiguration
  op_maps :: "roleMapping list"

record endpoint =
  AuthURL :: string
  TokenURL :: string

definition Endpoint :: "openIdProvider \<Rightarrow> endpoint" where
  "Endpoint op = \<lparr>AuthURL = AuthorizationEndpoint (op_cfg op), TokenURL = TokenEndpoint (op_cfg op)\<rparr>"

record tokenData =
  td_subject :: string
  td_expiry :: time
  td_roles :: "string \<rightharpoonup> string list"

text \<open>The resource, as the API server stores it (\<^verbatim>\<open>src/api/openidprovider.go\<close>).\<close>

record apiRoleMapping =
  api_from :: string
  api_prefix :: string
  api_path :: string

record apiOpenIDProvider =
  api_op_namespace :: string
  api_op_name :: string
  api_issuer :: string
  api_role_mappings :: "apiRoleMapping list"

section \<open>HTTP requests\<close>

text \<open>
  What the HTTP client does with a GET request: the URL is no request, the exchange fails, or
  there is a body. \<open>decode\<close> is the JSON decoder for the type asked for.
\<close>

datatype 'b http_outcome = BadRequest go_error | NoAnswer go_error | Body 'b

definition doJsonRequest ::
  "(string \<Rightarrow> 'b http_outcome) \<Rightarrow> ('b \<Rightarrow> go_error + 'a) \<Rightarrow> string \<Rightarrow> (go_error, 'a) res" where
  "doJsonRequest http_get decode url =
     (case http_get url of
        BadRequest err \<Rightarrow> Err (wrap_error err ''failed preparing request'' [(''url'', GStr url)])
      | NoAnswer err \<Rightarrow> Err (wrap_error err ''communication error'' [(''url'', GStr url)])
      | Body b \<Rightarrow>
          (case decode b of
             Inl err \<Rightarrow> Err (wrap_error err ''failed decoding JSON'' [(''url'', GStr url)])
           | Inr data \<Rightarrow> Ok data))"

section \<open>From the resource to the provider\<close>

definition convert_mapping ::
  "unicode_tables \<Rightarrow> apiRoleMapping \<Rightarrow> (go_error, roleMapping) res" where
  "convert_mapping u rm =
     (case fromStrToConst (api_from rm) of
        None \<Rightarrow> Err (new_error ''invalid from'' [(''from'', GStr (api_from rm))])
      | Some f \<Rightarrow>
          res_bind (parseRolePath u (runes_of_string (api_path rm))) (\<lambda>(path, _).
            Ok \<lparr>rm_from = f, rm_prefix = api_prefix rm, rm_path = path\<rparr>))"

definition convert_mappings ::
  "unicode_tables \<Rightarrow> apiRoleMapping list \<Rightarrow> (go_error, roleMapping list) res" where
  "convert_mappings u oprm = res_map (convert_mapping u) oprm"

definition wrap_res :: "string \<Rightarrow> (string \<times> gvalue) list \<Rightarrow> (go_error, 'a) res \<Rightarrow> (go_error, 'a) res"
  where
  "wrap_res msg kvs r = (case r of Err err \<Rightarrow> Err (wrap_error err msg kvs) | _ \<Rightarrow> r)"

lemma wrap_res_simps [simp]:
  "wrap_res msg kvs (Ok x) = Ok x"
  "wrap_res msg kvs (Err e) = Err (wrap_error e msg kvs)"
  "wrap_res msg kvs Panic = Panic"
  by (simp_all add: wrap_res_def)

lemma wrap_res_Ok_iff [simp]: "wrap_res msg kvs r = Ok x \<longleftrightarrow> r = Ok x"
  by (cases r) auto

lemma wrap_res_Panic_iff [simp]: "wrap_res msg kvs r = Panic \<longleftrightarrow> r = Panic"
  by (cases r) auto

definition convert_provider ::
  "unicode_tables \<Rightarrow> (string \<Rightarrow> 'b http_outcome) \<Rightarrow> ('b \<Rightarrow> go_error + openIdConfiguration)
    \<Rightarrow> apiOpenIDProvider \<Rightarrow> string \<Rightarrow> (go_error, openIdProvider) res" where
  "convert_provider u http_get decode op name =
     res_bind
       (wrap_res ''unable to fetch OIDC provider config'' [(''issuer'', GStr (api_issuer op))]
         (doJsonRequest http_get decode (api_issuer op @ ''/.well-known/openid-configuration'')))
       (\<lambda>cfg.
     res_bind (wrap_res ''unable to parse role mappings'' [] (convert_mappings u (api_role_mappings op)))
       (\<lambda>maps. Ok \<lparr>op_name = name, op_cfg = cfg, op_maps = maps\<rparr>))"

definition New_provider ::
  "unicode_tables \<Rightarrow> (string \<Rightarrow> 'b http_outcome) \<Rightarrow> ('b \<Rightarrow> go_error + openIdConfiguration)
    \<Rightarrow> apiOpenIDProvider \<Rightarrow> (go_error, openIdProvider) res" where
  "New_provider u http_get decode op =
     convert_provider u http_get decode op (api_op_namespace op @ ''/'' @ api_op_name op)"

section \<open>From the tokens to the session data\<close>

text \<open>
  The JOSE library: parsing a compact token, its registered claims under a key set, their
  validation at a time, all claims under a key set, and the expiry read without any
  verification. \<^verbatim>\<open>'jws\<close> is a parsed token and \<^verbatim>\<open>'reg\<close> the registered claims.
\<close>

record ('jws, 'jwks, 'reg, 'n) jose =
  parse_signed :: "string \<Rightarrow> go_error + 'jws"
  registered_claims :: "'jws \<Rightarrow> 'jwks \<Rightarrow> go_error + 'reg"
  validate :: "'reg \<Rightarrow> time \<Rightarrow> go_error option"
  custom_claims :: "'jws \<Rightarrow> 'jwks \<Rightarrow> go_error + (string \<rightharpoonup> 'n json)"
  unsafe_expiry :: "'jws \<Rightarrow> go_error + time"

text \<open>
  A token response of the provider. \<open>tok_id_token\<close> is the value of its \<^verbatim>\<open>id_token\<close> member, which
  a response may lack.
\<close>

record 'n oauth_token =
  tok_access :: string
  tok_refresh :: string
  tok_expiry :: time
  tok_id_token :: "'n json option"

definition claims ::
  "('jws, 'jwks, 'reg, 'n) jose \<Rightarrow> time \<Rightarrow> string \<Rightarrow> 'jwks \<Rightarrow> (go_error, string \<rightharpoonup> 'n json) res"
  where
  "claims j now tok jwks =
     (case parse_signed j tok of
        Inl err \<Rightarrow> Err (wrap_error err ''failed parsing token'' [(''token'', GStr tok)])
      | Inr parsed \<Rightarrow>
     (case registered_claims j parsed jwks of
        Inl err \<Rightarrow>
          Err (wrap_error err ''failed deserializing default claims'' [(''token'', GStr tok)])
      | Inr def \<Rightarrow>
     (case validate j def now of
        Some err \<Rightarrow> Err (wrap_error err ''failed validating token'' [(''token'', GStr tok)])
      | None \<Rightarrow>
     (case custom_claims j parsed jwks of
        Inl err \<Rightarrow>
          Err (wrap_error err ''failed deserializing custom claims'' [(''token'', GStr tok)])
      | Inr cs \<Rightarrow> Ok cs))))"

definition claimsUnsafe ::
  "('jws, 'jwks, 'reg, 'n) jose \<Rightarrow> string \<Rightarrow> (go_error, time) res" where
  "claimsUnsafe j tok =
     (case parse_signed j tok of
        Inl err \<Rightarrow> Err (wrap_error err ''failed parsing token'' [(''token'', GStr tok)])
      | Inr parsed \<Rightarrow>
     (case unsafe_expiry j parsed of
        Inl err \<Rightarrow> Err (wrap_error err ''failed deserializing claims'' [(''token'', GStr tok)])
      | Inr t \<Rightarrow> Ok t))"

text \<open>The loop over the role mappings.\<close>

fun collect_roles ::
  "('n \<Rightarrow> string) \<Rightarrow> (string \<rightharpoonup> 'n json) \<Rightarrow> (string \<rightharpoonup> 'n json) \<Rightarrow> roleMapping list
    \<Rightarrow> (string \<rightharpoonup> string list) \<Rightarrow> (go_error, string \<rightharpoonup> string list) res" where
  "collect_roles fmt at idt [] roles = Ok roles"
| "collect_roles fmt at idt (rm # maps) roles =
     (let tok = (case rm_from rm of AccessToken \<Rightarrow> at | IdToken \<Rightarrow> idt) in
      res_bind (wrap_res ''failed extracting roles'' [] (extractRoles fmt (rm_path rm) (JObj tok)))
        (\<lambda>extracted.
           collect_roles fmt at idt maps
             (roles(rm_prefix rm \<mapsto> lookup0 [] roles (rm_prefix rm) @ extracted))))"

definition json_string :: "'n json option \<Rightarrow> string option" where
  "json_string v = (case v of Some (JStr s) \<Rightarrow> Some s | _ \<Rightarrow> None)"

definition extractTokenData ::
  "('n \<Rightarrow> string) \<Rightarrow> ('jws, 'jwks, 'reg, 'n) jose \<Rightarrow> (string \<Rightarrow> 'b http_outcome)
    \<Rightarrow> ('b \<Rightarrow> go_error + 'jwks) \<Rightarrow> time \<Rightarrow> openIdProvider \<Rightarrow> 'n oauth_token
    \<Rightarrow> (go_error, tokenData) res" where
  "extractTokenData fmt j http_get decode now op tok =
     res_bind (wrap_res ''unable to retrieve JWKs'' []
                (doJsonRequest http_get decode (JWKsURI (op_cfg op)))) (\<lambda>jwks.
     res_bind (wrap_res ''unable to get access token claims'' []
                (claims j now (tok_access tok) jwks)) (\<lambda>at.
     res_bind (wrap_res ''unable to get refresh token claims'' []
                (claimsUnsafe j (tok_refresh tok))) (\<lambda>rt_expiry.
     case json_string (tok_id_token tok) of
       None \<Rightarrow> Panic
     | Some id_token \<Rightarrow>
     res_bind (wrap_res ''unable to get ID token claims'' []
                (claims j now id_token jwks)) (\<lambda>idt.
     res_bind (collect_roles fmt at idt (op_maps op) Map.empty) (\<lambda>roles.
     Ok \<lparr>td_subject = (case json_string (idt ''sub'') of None \<Rightarrow> [] | Some s \<Rightarrow> s),
         td_expiry = rt_expiry, td_roles = roles\<rparr>)))))"

lemma json_string_Some: "json_string v = Some s \<longleftrightarrow> v = Some (JStr s)"
  by (auto simp: json_string_def split: option.splits json.splits)

lemma json_string_None: "json_string v = None \<longleftrightarrow> (\<nexists>s. v = Some (JStr s))"
  by (auto simp: json_string_def split: option.splits json.splits)

lemma json_string_simp [simp]: "json_string (Some (JStr s)) = Some s"
  by (simp add: json_string_def)

section \<open>Role collection\<close>

text \<open>
  The reference for the loop: the roles of a prefix are those of the mappings with that prefix,
  one after the other in the order of the provider's list.
\<close>

definition mapping_roles ::
  "('n \<Rightarrow> string) \<Rightarrow> (string \<rightharpoonup> 'n json) \<Rightarrow> (string \<rightharpoonup> 'n json) \<Rightarrow> roleMapping
    \<Rightarrow> (go_error, string list) res" where
  "mapping_roles fmt at idt rm =
     extractRoles fmt (rm_path rm)
       (JObj (case rm_from rm of AccessToken \<Rightarrow> at | IdToken \<Rightarrow> idt))"

definition with_prefix :: "string \<Rightarrow> (roleMapping \<times> string list) list \<Rightarrow> string list" where
  "with_prefix p rms = concat (map snd (filter (\<lambda>(rm, rs). rm_prefix rm = p) rms))"

lemma with_prefix_Nil [simp]: "with_prefix p [] = []"
  by (simp add: with_prefix_def)

lemma with_prefix_Cons [simp]:
  "with_prefix p ((rm, rs) # rms) = (if rm_prefix rm = p then rs else []) @ with_prefix p rms"
  by (simp add: with_prefix_def)

lemma collect_roles_Cons:
  "collect_roles fmt at idt (rm # maps) roles =
     res_bind (wrap_res ''failed extracting roles'' [] (mapping_roles fmt at idt rm)) (\<lambda>extracted.
       collect_roles fmt at idt maps
         (roles(rm_prefix rm \<mapsto> lookup0 [] roles (rm_prefix rm) @ extracted)))"
  by (simp add: mapping_roles_def Let_def)

declare collect_roles.simps(2) [simp del]

lemma collect_roles_Ok:
  "collect_roles fmt at idt maps roles = Ok out \<Longrightarrow>
    \<exists>extracted. list_all2 (\<lambda>rm rs. mapping_roles fmt at idt rm = Ok rs) maps extracted
      \<and> dom out = dom roles \<union> rm_prefix ` set maps
      \<and> (\<forall>p. lookup0 [] out p = lookup0 [] roles p @ with_prefix p (zip maps extracted))"
proof (induction maps arbitrary: roles)
  case (Cons rm maps)
  from Cons.prems obtain rs where rs: "mapping_roles fmt at idt rm = Ok rs"
    and "collect_roles fmt at idt maps
        (roles(rm_prefix rm \<mapsto> lookup0 [] roles (rm_prefix rm) @ rs)) = Ok out"
    by (auto simp: collect_roles_Cons)
  moreover define roles' where
    "roles' = roles(rm_prefix rm \<mapsto> lookup0 [] roles (rm_prefix rm) @ rs)"
  ultimately have c: "collect_roles fmt at idt maps roles' = Ok out" by simp
  have r': "dom roles' = insert (rm_prefix rm) (dom roles)"
    "lookup0 [] roles' p = lookup0 [] roles p @ (if rm_prefix rm = p then rs else [])" for p
    by (auto simp: roles'_def)
  obtain ex where
    "list_all2 (\<lambda>rm rs. mapping_roles fmt at idt rm = Ok rs) maps ex"
    "dom out = dom roles' \<union> rm_prefix ` set maps"
    "\<forall>p. lookup0 [] out p = lookup0 [] roles' p @ with_prefix p (zip maps ex)"
    using Cons.IH [OF c] by blast
  with rs r' show ?case
    by (intro exI [of _ "rs # ex"]) auto
qed simp

lemma collect_roles_no_panic: "collect_roles fmt at idt maps roles \<noteq> Panic"
  by (induction maps arbitrary: roles)
     (auto simp: collect_roles_Cons res_bind_eq_Panic mapping_roles_def extractRoles_no_panic)

lemma claims_no_panic: "claims j now tok jwks \<noteq> Panic"
  by (simp add: claims_def split: sum.splits option.splits)

lemma claimsUnsafe_no_panic: "claimsUnsafe j tok \<noteq> Panic"
  by (simp add: claimsUnsafe_def split: sum.splits)

lemma doJsonRequest_no_panic: "doJsonRequest h d url \<noteq> Panic"
  by (simp add: doJsonRequest_def split: http_outcome.splits sum.splits)

lemma claims_Ok_iff:
  "claims j now tok jwks = Ok cs \<longleftrightarrow>
     (\<exists>parsed def. parse_signed j tok = Inr parsed \<and> registered_claims j parsed jwks = Inr def
        \<and> validate j def now = None \<and> custom_claims j parsed jwks = Inr cs)"
  by (auto simp: claims_def split: sum.splits option.splits)

lemma extractTokenData_Ok_iff:
  "extractTokenData fmt j h d now op tok = Ok td \<longleftrightarrow>
     (\<exists>jwks at rt id_token idt roles.
        doJsonRequest h d (JWKsURI (op_cfg op)) = Ok jwks
        \<and> claims j now (tok_access tok) jwks = Ok at
        \<and> claimsUnsafe j (tok_refresh tok) = Ok rt
        \<and> tok_id_token tok = Some (JStr id_token)
        \<and> claims j now id_token jwks = Ok idt
        \<and> collect_roles fmt at idt (op_maps op) Map.empty = Ok roles
        \<and> td = \<lparr>td_subject = (case json_string (idt ''sub'') of None \<Rightarrow> [] | Some s \<Rightarrow> s),
                td_expiry = rt, td_roles = roles\<rparr>)"
proof (cases "json_string (tok_id_token tok)")
  case None
  moreover from None have "\<nexists>s. tok_id_token tok = Some (JStr s)"
    by (simp add: json_string_None)
  ultimately show ?thesis by (simp add: extractTokenData_def)
next
  case (Some s)
  then have "tok_id_token tok = Some (JStr s)" by (simp add: json_string_Some)
  then show ?thesis
    by (auto simp: extractTokenData_def json_string_simp)
qed

section \<open>Claims\<close>

text \<open>
  A token whose signature verifies under the key set, that is valid at the time and that has these claims.
  The registered claims are only held against the time: no issuer, audience or client id is looked at.
\<close>

definition verified_claims ::
  "('jws, 'jwks, 'reg, 'n) jose \<Rightarrow> time \<Rightarrow> 'jwks \<Rightarrow> string \<Rightarrow> (string \<rightharpoonup> 'n json) \<Rightarrow> bool" where
  "verified_claims j now jwks tok cs \<longleftrightarrow>
     (\<exists>parsed def. parse_signed j tok = Inr parsed \<and> registered_claims j parsed jwks = Inr def
        \<and> validate j def now = None \<and> custom_claims j parsed jwks = Inr cs)"

text \<open>
  C37: When token data is produced, the access token and the ID token both verified under the key set
  fetched from the provider and were valid at that time; the audience and the client id of the ID token
  are not looked at. The subject is the \<^verbatim>\<open>sub\<close> string of the ID token (empty if there is none); the
  roles of each prefix are exactly the roles its mappings extract from these verified claims, in the
  order of the mappings. The expiry is the one that the refresh token states, which is read without any
  verification.
\<close>

theorem token_data_from_verified_claims:
  assumes "extractTokenData fmt j h d now op tok = Ok td"
  shows "\<exists>jwks at idt id_token extracted.
      doJsonRequest h d (JWKsURI (op_cfg op)) = Ok jwks
      \<and> tok_id_token tok = Some (JStr id_token)
      \<and> verified_claims j now jwks (tok_access tok) at
      \<and> verified_claims j now jwks id_token idt
      \<and> (\<exists>parsed. parse_signed j (tok_refresh tok) = Inr parsed \<and> unsafe_expiry j parsed = Inr (td_expiry td))
      \<and> td_subject td = (case idt ''sub'' of Some (JStr s) \<Rightarrow> s | _ \<Rightarrow> [])
      \<and> list_all2 (\<lambda>rm rs. mapping_roles fmt at idt rm = Ok rs) (op_maps op) extracted
      \<and> dom (td_roles td) = rm_prefix ` set (op_maps op)
      \<and> (\<forall>p \<in> dom (td_roles td).
           td_roles td p = Some (with_prefix p (zip (op_maps op) extracted)))"
proof -
  from assms obtain jwks at rt id_token idt roles where
    e: "doJsonRequest h d (JWKsURI (op_cfg op)) = Ok jwks"
      "claims j now (tok_access tok) jwks = Ok at" "tok_id_token tok = Some (JStr id_token)"
      "claims j now id_token jwks = Ok idt" "claimsUnsafe j (tok_refresh tok) = Ok rt"
    and r: "collect_roles fmt at idt (op_maps op) Map.empty = Ok roles"
    and td: "td = \<lparr>td_subject = (case json_string (idt ''sub'') of None \<Rightarrow> [] | Some s \<Rightarrow> s),
        td_expiry = rt, td_roles = roles\<rparr>"
    unfolding extractTokenData_Ok_iff by blast
  from collect_roles_Ok [OF r] obtain extracted where
    x: "list_all2 (\<lambda>rm rs. mapping_roles fmt at idt rm = Ok rs) (op_maps op) extracted"
      "dom roles = rm_prefix ` set (op_maps op)"
      "\<And>p. lookup0 [] roles p = with_prefix p (zip (op_maps op) extracted)"
    by auto
  have "roles p = Some (with_prefix p (zip (op_maps op) extracted))" if "p \<in> dom roles" for p
    using that x(3) [of p] by auto
  moreover have "td_subject td = (case idt ''sub'' of Some (JStr s) \<Rightarrow> s | _ \<Rightarrow> [])"
    using td by (simp add: json_string_def split: option.splits json.splits)
  moreover have "\<exists>parsed. parse_signed j (tok_refresh tok) = Inr parsed \<and> unsafe_expiry j parsed = Inr (td_expiry td)"
    using e(5) td by (auto simp: claimsUnsafe_def split: sum.splits)
  ultimately show ?thesis
    using e(1-4) x td unfolding claims_Ok_iff verified_claims_def [symmetric]
    by (intro exI [of _ jwks] exI [of _ at] exI [of _ idt] exI [of _ id_token] exI [of _ extracted] conjI)
       simp_all
qed

text \<open>
  A provider that signs with one key: the access token has a role list, the ID token a subject.
\<close>

definition demo_jose :: "(string, string, unit, nat) jose" where
  "demo_jose =
     \<lparr>parse_signed = (\<lambda>s. if s = [] then Inl (Foreign ''no token'') else Inr s),
      registered_claims = (\<lambda>jws k. if k = ''key'' then Inr () else Inl (Foreign ''bad key'')),
      validate = (\<lambda>reg now. None),
      custom_claims = (\<lambda>jws k. Inr (if jws = ''at''
        then [''roles'' \<mapsto> JArr [JStr ''admin'', JStr ''user'']] else [''sub'' \<mapsto> JStr ''alice''])),
      unsafe_expiry = (\<lambda>jws. Inr 99)\<rparr>"

definition demo_provider :: openIdProvider where
  "demo_provider =
     \<lparr>op_name = ''ns/idp'',
      op_cfg = \<lparr>AuthorizationEndpoint = ''https://idp/auth'', TokenEndpoint = ''https://idp/token'',
        JWKsURI = ''https://idp/keys''\<rparr>,
      op_maps = [\<lparr>rm_from = AccessToken, rm_prefix = ''r:'', rm_path = [''roles'']\<rparr>]\<rparr>"

definition demo_tokens :: "nat oauth_token" where
  "demo_tokens =
     \<lparr>tok_access = ''at'', tok_refresh = ''rt'', tok_expiry = 50, tok_id_token = Some (JStr ''idt'')\<rparr>"

theorem token_data_from_verified_claims_witness:
  "\<exists>td. extractTokenData (\<lambda>n. []) demo_jose (\<lambda>url. Body url) (\<lambda>b. Inr ''key'') 7 demo_provider demo_tokens
        = Ok td
     \<and> td_subject td = ''alice'' \<and> td_expiry td = 99
     \<and> td_roles td = [''r:'' \<mapsto> [''admin'', ''user'']]
     \<and> dom (td_roles td) = rm_prefix ` set (op_maps demo_provider)"
proof -
  have td: "extractTokenData (\<lambda>n. []) demo_jose (\<lambda>url. Body url) (\<lambda>b. Inr ''key'') 7
      demo_provider demo_tokens =
      Ok \<lparr>td_subject = ''alice'', td_expiry = 99, td_roles = [''r:'' \<mapsto> [''admin'', ''user'']]\<rparr>"
    by (simp add: extractTokenData_def doJsonRequest_def claims_def claimsUnsafe_def demo_jose_def
        demo_provider_def demo_tokens_def collect_roles_Cons mapping_roles_def convertSlice_def)
  from token_data_from_verified_claims [OF td]
  have "dom (td_roles \<lparr>td_subject = ''alice'', td_expiry = 99,
      td_roles = [''r:'' \<mapsto> [''admin'', ''user'']]\<rparr>) = rm_prefix ` set (op_maps demo_provider)" by blast
  with td show ?thesis by fastforce
qed

text \<open>
  Reading the token data panics exactly when the access token and the refresh token were
  read without an error and the provider's response carries no \<^verbatim>\<open>id_token\<close> string. A provider may
  leave the ID token out of the response to a refresh, so a refresh can crash the server.
\<close>

lemma token_data_panics_iff:
  "extractTokenData fmt j h d now op tok = Panic \<longleftrightarrow>
     (\<nexists>s. tok_id_token tok = Some (JStr s))
     \<and> (\<exists>jwks at rt. doJsonRequest h d (JWKsURI (op_cfg op)) = Ok jwks
          \<and> claims j now (tok_access tok) jwks = Ok at
          \<and> claimsUnsafe j (tok_refresh tok) = Ok rt)"
  by (auto simp: extractTokenData_def json_string_def res_bind_eq_Panic doJsonRequest_no_panic
      claims_no_panic claimsUnsafe_no_panic collect_roles_no_panic
      split: option.splits json.splits)

lemma convert_mapping_Ok_iff:
  "convert_mapping u a = Ok rm \<longleftrightarrow>
     rm_prefix rm = api_prefix a \<and> fromStrToConst (api_from a) = Some (rm_from rm)
     \<and> parseRolePath u (runes_of_string (api_path a)) = Ok (rm_path rm, [])"
proof -
  have "rest = []" if "parseRolePath u s = Ok (path, rest)" for s path rest
    using that parse_loop_sound [of u s "[]"] by (auto simp: parseRolePath_def)
  then show ?thesis
    by (cases rm) (fastforce simp: convert_mapping_def split: option.splits)
qed

lemma parseRolePath_nonempty:
  "parseRolePath u s = Ok (path, rest) \<Longrightarrow> path \<noteq> [] \<and> [] \<notin> set path"
  using parse_loop_sound [of u s "[]"] by (auto simp: parseRolePath_def)

text \<open>
  The role mappings of a resource are accepted exactly when each has a known \<^verbatim>\<open>from\<close> and a path
  that parses to its end; the provider's mappings are then theirs one by one, in order, with the
  prefix, the token kind and the path, which is not empty and has no empty identifier.
\<close>

lemma convert_mappings_result:
  "convert_mappings u oprm = Ok maps \<longleftrightarrow>
     list_all2 (\<lambda>a rm. rm_prefix rm = api_prefix a \<and> fromStrToConst (api_from a) = Some (rm_from rm)
       \<and> parseRolePath u (runes_of_string (api_path a)) = Ok (rm_path rm, [])
       \<and> rm_path rm \<noteq> [] \<and> [] \<notin> set (rm_path rm)) oprm maps"
proof -
  have "convert_mapping u a = Ok rm \<longleftrightarrow>
      rm_prefix rm = api_prefix a \<and> fromStrToConst (api_from a) = Some (rm_from rm)
      \<and> parseRolePath u (runes_of_string (api_path a)) = Ok (rm_path rm, [])
      \<and> rm_path rm \<noteq> [] \<and> [] \<notin> set (rm_path rm)" for a rm
    using parseRolePath_nonempty by (auto simp: convert_mapping_Ok_iff)
  then show ?thesis by (simp add: convert_mappings_def res_map_Ok_iff)
qed

text \<open>
  Fetching and converting a provider yields a provider named after the resource's namespace and
  name whose configuration is the document under the issuer's \<^verbatim>\<open>.well-known\<close> path. It fails
  without a panic when that document cannot be read, and a resource with an empty role path
  panics once the document was read and the mappings before it were fine.
\<close>

lemma new_provider_result:
  "(New_provider u http_get decode op = Ok p \<longleftrightarrow>
      op_name p = api_op_namespace op @ ''/'' @ api_op_name op
      \<and> doJsonRequest http_get decode (api_issuer op @ ''/.well-known/openid-configuration'')
          = Ok (op_cfg p)
      \<and> convert_mappings u (api_role_mappings op) = Ok (op_maps p))
   \<and> (New_provider u http_get decode op = Panic \<longleftrightarrow>
      (\<exists>cfg. doJsonRequest http_get decode (api_issuer op @ ''/.well-known/openid-configuration'')
          = Ok cfg)
      \<and> convert_mappings u (api_role_mappings op) = Panic)"
  by (cases p)
     (auto simp: New_provider_def convert_provider_def res_bind_eq_Panic doJsonRequest_no_panic)

end
