(* ===== verification/Access_Policy.thy ===== *)
theory Access_Policy
  imports Api_Access_Policy Oidc_Provider
begin

text \<open>
  Access policies as the server uses them (\<^verbatim>\<open>src/state/accesspolicy\<close>): the conversion from the
  resource and the credentials secret, the OAuth2 configuration of a request, and the store the
  controller writes and the server reads.
\<close>

section \<open>Data\<close>

definition NameKey :: string where "NameKey = ''accessPolicy''"
definition RouteKey :: string where "RouteKey = ''route''"

record header =
  hd_Name :: string
  hd_Value :: string
  hd_Roles :: "string list"

record route =
  rt_EnableAuthz :: bool
  rt_Roles :: "string list"
  rt_Headers :: "header list"

record oidc =
  oi_Provider :: openIdProvider
  oi_ClientId :: string
  oi_ClientSecret :: string
  oi_TokenSecret :: string
  oi_Callback :: url

record accessPolicy =
  pol_Name :: string
  pol_Oidc :: oidc
  pol_Default :: route
  pol_Routes :: "string \<rightharpoonup> route"
  pol_VirtualHosts :: "string list"

record oauth2Config =
  oc_ClientID :: string
  oc_ClientSecret :: string
  oc_Endpoint :: endpoint
  oc_RedirectURL :: string
  oc_Scopes :: "string list"

definition IsCallback :: "oidc \<Rightarrow> url \<Rightarrow> bool" where
  "IsCallback o' u \<longleftrightarrow> url_Path u = url_Path (oi_Callback o')"

definition OAuth2 :: "oidc \<Rightarrow> url \<Rightarrow> oauth2Config" where
  "OAuth2 o' u =
     \<lparr>oc_ClientID = oi_ClientId o', oc_ClientSecret = oi_ClientSecret o',
      oc_Endpoint = Endpoint (oi_Provider o'),
      oc_RedirectURL = url_String (ResolveReference u (oi_Callback o')),
      oc_Scopes = [''openid'']\<rparr>"

section \<open>Conversion\<close>

text \<open>The zero values of the provider and the route that a conversion starts from.\<close>

definition zero_provider :: openIdProvider where
  "zero_provider =
     \<lparr>op_name = [],
      op_cfg = \<lparr>AuthorizationEndpoint = [], TokenEndpoint = [], JWKsURI = []\<rparr>, op_maps = []\<rparr>"

definition zero_route :: route where
  "zero_route = \<lparr>rt_EnableAuthz = False, rt_Roles = [], rt_Headers = []\<rparr>"

text \<open>The \<^verbatim>\<open>Data\<close> of a Kubernetes secret.\<close>

type_synonym secret_data = "string \<rightharpoonup> string"

definition convert_header :: "apiRouteHeader \<Rightarrow> header" where
  "convert_header h = \<lparr>hd_Name = arh_Name h, hd_Value = arh_Value h, hd_Roles = arh_Roles h\<rparr>"

definition convert_route :: "apiRoute \<Rightarrow> route" where
  "convert_route r =
     \<lparr>rt_EnableAuthz = (\<not> ar_DisableEnforcement r), rt_Roles = ar_Roles r,
      rt_Headers = map convert_header (ar_Headers r)\<rparr>"

fun convert_routes :: "apiRoute list \<Rightarrow> route \<Rightarrow> (string \<rightharpoonup> route) \<Rightarrow> route \<times> (string \<rightharpoonup> route)" where
  "convert_routes [] def routes = (def, routes)"
| "convert_routes (r # rs) def routes =
     (if ar_Name r = [] then convert_routes rs (convert_route r) routes
      else convert_routes rs def (routes(ar_Name r \<mapsto> convert_route r)))"

definition convert_oidc :: "apiOIDC \<Rightarrow> secret_data option \<Rightarrow> (go_error, oidc) res" where
  "convert_oidc a secret =
     (case url_Parse (ao_CallbackPath a) of
        Inl err \<Rightarrow> Err (Foreign err)
      | Inr cb \<Rightarrow>
          (let cs = ao_CredentialsSecret a;
               result = (\<lambda>cid csec tsec.
                 Ok \<lparr>oi_Provider = zero_provider, oi_ClientId = cid, oi_ClientSecret = csec,
                     oi_TokenSecret = tsec, oi_Callback = cb\<rparr>)
           in (case secret of
                 None \<Rightarrow> result [] [] []
               | Some d \<Rightarrow>
                   (case (d (cs_ClientIDKey cs), d (cs_ClientSecretKey cs), d (cs_TokenSecretKey cs)) of
                      (Some cid, Some csec, Some tsec) \<Rightarrow> result cid csec tsec
                    | _ \<Rightarrow> Err (new_error ''failed extracting credentials'' [])))))"

definition convert_policy ::
  "apiAccessPolicy \<Rightarrow> string \<Rightarrow> secret_data option \<Rightarrow> (go_error, accessPolicy) res" where
  "convert_policy ap name secret =
     (case convert_routes (as_Routes (ap_Spec ap))
             (zero_route\<lparr>rt_EnableAuthz := True\<rparr>) Map.empty of
        (defRoute, routes) \<Rightarrow>
          res_bind (convert_oidc (as_OIDC (ap_Spec ap)) secret) (\<lambda>oidcCfg.
            Ok \<lparr>pol_Name = name, pol_Oidc = oidcCfg, pol_Default = defRoute,
                pol_Routes = routes, pol_VirtualHosts = st_VirtualHosts (ap_Status ap)\<rparr>))"

definition New_policy ::
  "apiAccessPolicy \<Rightarrow> secret_data option \<Rightarrow> (go_error, accessPolicy) res" where
  "New_policy ap secret = convert_policy ap (ap_Namespace ap @ ''/'' @ ap_Name ap) secret"

section \<open>The store\<close>

type_synonym policy_store = "string \<rightharpoonup> accessPolicy"

definition NewAccessPolicyStore :: policy_store where
  "NewAccessPolicyStore = Map.empty"

definition Get_policy :: "policy_store \<Rightarrow> string \<Rightarrow> accessPolicy option" where
  "Get_policy s name = s name"

definition Update_policy :: "accessPolicy \<Rightarrow> policy_store \<Rightarrow> policy_store" where
  "Update_policy pol s = s(pol_Name pol \<mapsto> pol)"

definition Delete_policy :: "string \<Rightarrow> policy_store \<Rightarrow> policy_store" where
  "Delete_policy name s = s(name := None)"

text \<open>The values sent on the channel, in the order the map is ranged over.\<close>

definition Stream_policies :: "policy_store \<Rightarrow> string list \<Rightarrow> accessPolicy list" where
  "Stream_policies s ks = List.map_filter s ks"

text \<open>
  The contract of a store with keyed values: what a lookup gives after a write or a deletion, and
  that only these change it.
\<close>

locale keyed_store =
  fixes empty_store :: 's
    and get :: "'s \<Rightarrow> 'k \<Rightarrow> 'v option"
    and put :: "'v \<Rightarrow> 's \<Rightarrow> 's"
    and del :: "'k \<Rightarrow> 's \<Rightarrow> 's"
    and key :: "'v \<Rightarrow> 'k"
  assumes get_empty: "get empty_store k = None"
    and get_put: "get (put v s) k = (if k = key v then Some v else get s k)"
    and get_del: "get (del k' s) k = (if k = k' then None else get s k)"
begin

definition run :: "('v + 'k) list \<Rightarrow> 's \<Rightarrow> 's" where
  "run ops s = fold (\<lambda>op s. case op of Inl v \<Rightarrow> put v s | Inr k \<Rightarrow> del k s) ops s"

fun about :: "'k \<Rightarrow> 'v + 'k \<Rightarrow> bool" where
  "about k (Inl v) \<longleftrightarrow> key v = k"
| "about k (Inr k') \<longleftrightarrow> k' = k"

lemma run_Nil [simp]: "run [] s = s"
  by (simp add: run_def)

lemma run_snoc: "run (ops @ [op]) s = (case op of Inl v \<Rightarrow> put v (run ops s) | Inr k \<Rightarrow> del k (run ops s))"
  by (simp add: run_def split: sum.split)

text \<open>A lookup gives what the last operation about the key left.\<close>

lemma get_run:
  "get (run ops s) k =
     (case find (about k) (rev ops) of
        None \<Rightarrow> get s k | Some (Inl v) \<Rightarrow> Some v | Some (Inr _) \<Rightarrow> None)"
proof (induction ops rule: rev_induct)
  case (snoc op ops)
  then show ?case by (cases op) (auto simp: run_snoc get_put get_del)
qed simp

lemma get_key: "(\<forall>k v. get s k = Some v \<longrightarrow> key v = k) \<Longrightarrow> get (run ops s) k = Some v \<Longrightarrow> key v = k"
  by (induction ops arbitrary: k v rule: rev_induct)
     (auto simp: run_snoc get_put get_del split: sum.splits if_splits)

lemma put_idem: "get (put v (put v s)) k = get (put v s) k"
  by (simp add: get_put)

lemma del_put_same: "get (del (key v) (put v s)) k = get (del (key v) s) k"
  by (simp add: get_put get_del)

end

interpretation policies:
  keyed_store NewAccessPolicyStore Get_policy Update_policy Delete_policy pol_Name
  by unfold_locales
     (simp_all add: NewAccessPolicyStore_def Get_policy_def Update_policy_def Delete_policy_def)

section \<open>Routes\<close>

lemma convert_routes_result:
  "convert_routes rs def routes =
     (case find (\<lambda>r. ar_Name r = []) (rev rs) of None \<Rightarrow> def | Some r \<Rightarrow> convert_route r,
      \<lambda>n. if n = [] then routes n else
          (case find (\<lambda>r. ar_Name r = n) (rev rs) of None \<Rightarrow> routes n | Some r \<Rightarrow> Some (convert_route r)))"
proof (induction rs arbitrary: def routes)
  case (Cons r rs)
  show ?case by (auto simp: Cons find_snoc fun_eq_iff split: option.splits)
qed (auto simp: fun_eq_iff)

lemma convert_oidc_Ok_iff:
  "(\<exists>oi. convert_oidc a secret = Ok oi) \<longleftrightarrow>
     callback_ok (ao_CallbackPath a)
     \<and> (\<forall>d. secret = Some d \<longrightarrow>
          {cs_ClientIDKey (ao_CredentialsSecret a), cs_ClientSecretKey (ao_CredentialsSecret a),
           cs_TokenSecretKey (ao_CredentialsSecret a)} \<subseteq> dom d)"
  by (cases secret)
     (auto simp: convert_oidc_def callback_ok_def Let_def split: sum.splits option.splits)

lemma convert_oidc_no_panic: "convert_oidc a secret \<noteq> Panic"
  by (auto simp: convert_oidc_def Let_def split: sum.splits option.splits)

section \<open>References\<close>

lemma join_Cons: "xs \<noteq> [] \<Longrightarrow> join sep (x # xs) = x @ sep @ join sep xs"
  by (cases xs) auto

lemma split_all_not_Nil [simp]: "split_all sep s \<noteq> []"
  by (subst split_all.simps) (auto split: prod.splits option.splits)

lemma join_split_all: "join [sep] (split_all sep s) = s"
proof (induction sep s rule: split_all.induct)
  case (1 sep s)
  show ?case
  proof (cases "cut sep s")
    case (Pair a ob)
    with 1 show ?thesis
      by (cases ob)
         (auto simp: split_all.simps [of sep s] join_Cons dest: cut_Some cut_None)
  qed
qed

definition no_dots :: "string \<Rightarrow> bool" where
  "no_dots s \<longleftrightarrow> ''.'' \<notin> set (split_all (CHR ''/'') s) \<and> ''..'' \<notin> set (split_all (CHR ''/'') s)"

lemma dot_segments_none:
  "''.'' \<notin> set es \<Longrightarrow> ''..'' \<notin> set es \<Longrightarrow> dot_segments dst es = dst @ es"
  by (induction es arbitrary: dst) auto

lemma resolvePath_absolute:
  assumes "no_dots (CHR ''/'' # s)"
  shows "resolvePath base (CHR ''/'' # s) = CHR ''/'' # s"
proof -
  let ?src = "split_all (CHR ''/'') (CHR ''/'' # s)"
  have "last ?src \<notin> {''.'', ''..''}"
    using assms by (metis empty_iff insert_iff last_in_set no_dots_def split_all_not_Nil)
  moreover have "dot_segments [] ?src = ?src"
    using assms by (simp add: no_dots_def dot_segments_none)
  ultimately show ?thesis
    by (simp add: resolvePath_def Let_def join_split_all)
qed

lemma unescape_EscapedPath: "unescape encodePath (EscapedPath u) = Inr (url_Path u)"
proof (cases "url_Path u = ''*''")
  case True
  have "unescape encodePath ''*'' = Inr ''*''" by code_simp
  with True show ?thesis by (simp add: EscapedPath_def)
qed (simp add: EscapedPath_def unescape_escape)

text \<open>A reference that has only a path, an absolute one.\<close>

definition absolute_path :: "url \<Rightarrow> bool" where
  "absolute_path u \<longleftrightarrow> url_Scheme u = [] \<and> url_Host u = [] \<and> url_User u = None \<and> url_Opaque u = []
     \<and> take 1 (EscapedPath u) = ''/'' \<and> no_dots (EscapedPath u)"

lemma ResolveReference_absolute:
  assumes "absolute_path cb"
  shows "url_Path (ResolveReference u cb) = url_Path cb"
    and "url_Scheme (ResolveReference u cb) = url_Scheme u"
    and "url_Host (ResolveReference u cb) = url_Host u"
    and "url_User (ResolveReference u cb) = url_User u"
    and "url_RawQuery (ResolveReference u cb) = url_RawQuery cb"
    and "url_Fragment (ResolveReference u cb) = url_Fragment cb"
proof -
  obtain s where s: "EscapedPath cb = CHR ''/'' # s"
    using assms by (cases "EscapedPath cb") (auto simp: absolute_path_def)
  then have r: "resolvePath (EscapedPath u) (EscapedPath cb) = EscapedPath cb"
    using assms resolvePath_absolute by (simp add: absolute_path_def)
  have p: "url_Path cb \<noteq> []"
    using unescape_EscapedPath [of cb] by (cases "unescape encodePath s") (auto simp: s)
  show "url_Path (ResolveReference u cb) = url_Path cb"
    "url_Scheme (ResolveReference u cb) = url_Scheme u"
    "url_Host (ResolveReference u cb) = url_Host u"
    "url_User (ResolveReference u cb) = url_User u"
    "url_RawQuery (ResolveReference u cb) = url_RawQuery cb"
    "url_Fragment (ResolveReference u cb) = url_Fragment cb"
    using assms p
    by (auto simp: ResolveReference_def Let_def absolute_path_def setPath_ignore_def setPath_def
        r unescape_EscapedPath)
qed

section \<open>Claims\<close>

text \<open>
  Converting a resource succeeds exactly when its callback path parses and, if a secret is
  given, the secret has the three keys the resource names; it never panics.
\<close>

lemma new_policy_succeeds_iff:
  "((\<exists>pol. New_policy ap secret = Ok pol) \<longleftrightarrow>
      callback_ok (ao_CallbackPath (as_OIDC (ap_Spec ap)))
      \<and> (case secret of None \<Rightarrow> True
           | Some d \<Rightarrow> {cs_ClientIDKey (ao_CredentialsSecret (as_OIDC (ap_Spec ap))),
               cs_ClientSecretKey (ao_CredentialsSecret (as_OIDC (ap_Spec ap))),
               cs_TokenSecretKey (ao_CredentialsSecret (as_OIDC (ap_Spec ap)))} \<subseteq> dom d))
   \<and> New_policy ap secret \<noteq> Panic"
  using convert_oidc_Ok_iff [of "as_OIDC (ap_Spec ap)" secret]
    convert_oidc_no_panic [of "as_OIDC (ap_Spec ap)" secret]
  by (auto simp: New_policy_def convert_policy_def res_bind_eq_Panic split: prod.splits option.splits)


definition demo_policy :: apiAccessPolicy where
  "demo_policy =
     \<lparr>ap_Namespace = ''ns'', ap_Name = ''web'',
      ap_Spec = \<lparr>as_Gateway = ''gw'',
        as_OIDC = \<lparr>ao_Provider = ''ns/idp'',
          ao_CredentialsSecret = \<lparr>cs_Name = ''s'', cs_ClientIDKey = ''i'', cs_ClientSecretKey = ''c'',
            cs_TokenSecretKey = ''t''\<rparr>,
          ao_CallbackPath = ''/oidc/callback''\<rparr>,
        as_Routes =
          [\<lparr>ar_Name = ''admin'', ar_Roles = [''a''], ar_Headers = [], ar_DisableEnforcement = False\<rparr>,
           \<lparr>ar_Name = [], ar_Roles = [''user''], ar_Headers = [], ar_DisableEnforcement = False\<rparr>,
           \<lparr>ar_Name = ''admin'', ar_Roles = [''root''], ar_Headers = [], ar_DisableEnforcement = False\<rparr>]\<rparr>,
      ap_Status = \<lparr>st_Ingress = \<lparr>ai_Selector = None\<rparr>, st_VirtualHosts = []\<rparr>\<rparr>"

definition demo_secret :: secret_data where
  "demo_secret = [''i'' \<mapsto> ''client'', ''c'' \<mapsto> ''secret'', ''t'' \<mapsto> ''key'']"

lemma demo_callback_parses:
  "url_Parse ''/oidc/callback'' = Inr (empty_url\<lparr>url_Path := ''/oidc/callback''\<rparr>)"
  by code_simp


text \<open>
  Where the callback is an absolute path without dot segments, the redirect URL registered
  with the provider is that path on the scheme, user and host of the request, whatever the
  request's own path and query; and when the browser comes back to it the server recognises the
  callback.
\<close>

lemma redirect_is_recognised_callback:
  assumes "absolute_path (oi_Callback o')"
  shows "IsCallback o' (ResolveReference u (oi_Callback o'))
    \<and> url_Scheme (ResolveReference u (oi_Callback o')) = url_Scheme u
    \<and> url_User (ResolveReference u (oi_Callback o')) = url_User u
    \<and> url_Host (ResolveReference u (oi_Callback o')) = url_Host u
    \<and> url_RawQuery (ResolveReference u (oi_Callback o')) = url_RawQuery (oi_Callback o')
    \<and> oc_RedirectURL (OAuth2 o' u) = url_String (ResolveReference u (oi_Callback o'))"
  using ResolveReference_absolute [OF assms] by (simp add: IsCallback_def OAuth2_def)

definition demo_oidc :: oidc where
  "demo_oidc =
     \<lparr>oi_Provider = zero_provider, oi_ClientId = ''client'', oi_ClientSecret = ''secret'',
      oi_TokenSecret = ''key'', oi_Callback = empty_url\<lparr>url_Path := ''/oidc/callback''\<rparr>\<rparr>"

lemma demo_absolute: "absolute_path (oi_Callback demo_oidc)"
  by code_simp

lemma redirect_is_recognised_callback_witness:
  "IsCallback demo_oidc (ResolveReference (empty_url\<lparr>url_Host := ''h'', url_Path := ''/x''\<rparr>)
      (oi_Callback demo_oidc))"
  using redirect_is_recognised_callback [OF demo_absolute] by blast

text \<open>
  A callback path with a dot segment is never recognised: the redirect URL has the path with
  the segments resolved, and the server compares it with the path as it was written.
\<close>

lemma dotted_callback_never_recognised:
  "url_Parse ''/a/../b'' = Inr (empty_url\<lparr>url_Path := ''/a/../b''\<rparr>)
   \<and> url_Path (ResolveReference u (empty_url\<lparr>url_Path := ''/a/../b''\<rparr>)) = ''/b''
   \<and> \<not> IsCallback (demo_oidc\<lparr>oi_Callback := empty_url\<lparr>url_Path := ''/a/../b''\<rparr>\<rparr>)
         (ResolveReference u (empty_url\<lparr>url_Path := ''/a/../b''\<rparr>))"
proof -
  have p: "url_Parse ''/a/../b'' = Inr (empty_url\<lparr>url_Path := ''/a/../b''\<rparr>)" by code_simp
  have e: "EscapedPath (empty_url\<lparr>url_Path := ''/a/../b''\<rparr>) = ''/a/../b''" by code_simp
  have "resolvePath b ''/a/../b'' = resolvePath [] ''/a/../b''" for b
    by (simp add: resolvePath_def)
  also have "resolvePath [] ''/a/../b'' = ''/b''" by code_simp
  finally have r: "resolvePath b ''/a/../b'' = ''/b''" for b .
  have "unescape encodePath ''/b'' = Inr ''/b''" by code_simp
  with e r have "url_Path (ResolveReference u (empty_url\<lparr>url_Path := ''/a/../b''\<rparr>)) = ''/b''"
    by (simp add: ResolveReference_def Let_def setPath_ignore_def setPath_def empty_url_def)
  with p show ?thesis by (simp add: IsCallback_def)
qed

text \<open>
  After any sequence of updates and deletions, looking up a name in the policy store gives
  the policy of the last update with that name, and nothing if a deletion of the name came later
  or there was no update; a policy is always found under its own name.
\<close>

lemma policy_store_last_write:
  "Get_policy (policies.run ops NewAccessPolicyStore) name =
     (case find (policies.about name) (rev ops) of
        Some (Inl pol) \<Rightarrow> Some pol | _ \<Rightarrow> None)"
  by (simp add: policies.get_run policies.get_empty split: option.splits sum.splits)

end
