(* ===== verification/Config.thy ===== *)
theory Config
  imports Go_Url Errors
begin

text \<open>
  The configuration (\<^verbatim>\<open>src/config\<close>): its fields, the defaulting of \<^verbatim>\<open>normalize.go\<close> and the address
  an instance advertises to its peers (\<^verbatim>\<open>address.go\<close>). \<^verbatim>\<open>os.Exit\<close> ends the process: the result is
  then \<open>Err\<close> with the exit status. \<^verbatim>\<open>Process\<close> has the reading of the file.
\<close>

type_synonym exit_status = nat

section \<open>Fields\<close>

record cfg_controller =
  IstioRootNamespace :: string
  EnvoyFilterNamePrefix :: string
  EnvoyFilterLabels :: "(string \<rightharpoonup> string) option"
  LeaderElection :: bool
  LeaderElectionNamespace :: string
  LeaderElectionName :: string

record cfg_service =
  Address :: string

record cfg_extAuthz =
  ClusterName :: string
  Timeout :: int

record cfg_sessions =
  CleaningInterval :: int
  CleaningGracePeriod :: int

definition NoneMode :: string where "NoneMode = ''none''"
definition StaticMode :: string where "StaticMode = ''static''"
definition DnsMode :: string where "DnsMode = ''dns''"

record cfg_peerAddress =
  Domain :: string
  Service :: string

record cfg_replication =
  Mode :: string
  StaticPeers :: "string list"
  PeerAddress :: cfg_peerAddress
  AdvertiseAddress :: string
  EstablishInterval :: int

record cfg_telemetry =
  TelemetryAddress :: string

record config =
  c_Controller :: cfg_controller
  c_Service :: cfg_service
  c_ExtAuthz :: cfg_extAuthz
  c_Sessions :: cfg_sessions
  c_Replication :: cfg_replication
  c_Telemetry :: cfg_telemetry

text \<open>Durations are nanoseconds.\<close>

definition Second :: int where "Second = 10 ^ 9"
definition Minute :: int where "Minute = 60 * Second"

section \<open>The advertised address\<close>

text \<open>\<^verbatim>\<open>net.SplitHostPort\<close>: the host and the port, or the reason of the error.\<close>

definition bracketed_host :: "string \<Rightarrow> string + string" where
  "bracketed_host hostport =
     (case (cut (CHR '']'') hostport, cut_last (CHR '':'') hostport) of
        ((inside, None), _) \<Rightarrow> Inl ''missing bracket in address''
      | ((inside, Some []), _) \<Rightarrow> Inl ''missing port in address''
      | ((inside, Some behind), last_colon) \<Rightarrow>
          (if map_option fst last_colon = Some (inside @ '']'') then Inr (drop 1 inside)
           else if hd behind = CHR '':'' then Inl ''too many colons in address''
           else Inl ''missing port in address''))"

definition SplitHostPort :: "string \<Rightarrow> string + (string \<times> string)" where
  "SplitHostPort hostport =
     (case cut_last (CHR '':'') hostport of
        None \<Rightarrow> Inl ''missing port in address''
      | Some (before, port) \<Rightarrow>
          (if take 1 hostport = ''['' then
             sum_bind (bracketed_host hostport) (\<lambda>host.
               if CHR ''['' \<in> set (drop 1 hostport) then Inl ''unexpected bracket in address''
               else if CHR '']'' \<in> set port then Inl ''unexpected bracket in address''
               else Inr (host, port))
           else if CHR '':'' \<in> set before then Inl ''too many colons in address''
           else if CHR ''['' \<in> set hostport \<or> CHR '']'' \<in> set hostport
             then Inl ''unexpected bracket in address''
           else Inr (before, port)))"

text \<open>
  Package \<^verbatim>\<open>net\<close> and the machine: parsing an IP address, its text and its kinds, and the addresses
  of the interfaces (or the error of asking for them). \<^verbatim>\<open>'ip\<close> is an address.
\<close>

record 'ip network =
  ParseIP :: "string \<Rightarrow> 'ip option"
  ip_String :: "'ip \<Rightarrow> string"
  IsUnspecified :: "'ip \<Rightarrow> bool"
  IsLoopback :: "'ip \<Rightarrow> bool"
  InterfaceAddrs :: "go_error + 'ip list"

definition advertiseAddress :: "'ip network \<Rightarrow> string \<Rightarrow> (go_error, string) res" where
  "advertiseAddress net bindAddr =
     (case SplitHostPort bindAddr of
        Inl err \<Rightarrow> Err (wrap_error (Foreign err) ''failed parsing bind address'' [])
      | Inr (host, port) \<Rightarrow>
          (let interfaces =
             (case InterfaceAddrs net of
                Inl err \<Rightarrow> Err err
              | Inr addrs \<Rightarrow>
                  (case find (\<lambda>ip. \<not> IsLoopback net ip) addrs of
                     Some ip \<Rightarrow> Ok (ip_String net ip @ '':'' @ port)
                   | None \<Rightarrow> Err (new_error ''system has no non-loopback addresses'' [])))
           in (case ParseIP net host of
                 Some ip \<Rightarrow>
                   (if \<not> IsUnspecified net ip then Ok (ip_String net ip @ '':'' @ port) else interfaces)
               | None \<Rightarrow> interfaces)))"

section \<open>Defaults\<close>

text \<open>\<open>ns\<close> is what reading the namespace file of the service account gives.\<close>

definition or_default :: "string \<Rightarrow> string \<Rightarrow> string" where
  "or_default d s = (if s = [] then d else s)"

definition dashed_prefix :: "string \<Rightarrow> string" where
  "dashed_prefix p =
     (if p = [] then ''ext-authz-'' else if \<not> HasSuffix p ''-'' then p @ ''-'' else p)"

definition normalize_controller ::
  "(go_error + string) \<Rightarrow> cfg_controller \<Rightarrow> (exit_status, cfg_controller) res" where
  "normalize_controller ns c =
     (let root = or_default ''istio-system'' (IstioRootNamespace c);
          prefix = dashed_prefix (EnvoyFilterNamePrefix c);
          labels = (case EnvoyFilterLabels c of
                      None \<Rightarrow> [''istio-oidc'' \<mapsto> ''ext-authz''] | Some ls \<Rightarrow> ls);
          name = or_default ''istio-oidc'' (LeaderElectionName c);
          result = (\<lambda>namespace.
            Ok \<lparr>IstioRootNamespace = root, EnvoyFilterNamePrefix = prefix,
                EnvoyFilterLabels = Some labels, LeaderElection = LeaderElection c,
                LeaderElectionNamespace = namespace, LeaderElectionName = name\<rparr>)
      in if LeaderElection c \<and> LeaderElectionNamespace c = [] then
           (case ns of Inl err \<Rightarrow> Err 1 | Inr n \<Rightarrow> result n)
         else result (LeaderElectionNamespace c))"

definition normalize_service :: "cfg_service \<Rightarrow> cfg_service" where
  "normalize_service s = (if Address s = [] then s\<lparr>Address := '':8080''\<rparr> else s)"

definition normalize_extAuthz :: "cfg_extAuthz \<Rightarrow> (exit_status, cfg_extAuthz) res" where
  "normalize_extAuthz ea =
     (if ClusterName ea = [] then Err 1
      else Ok (if Timeout ea = 0 then ea\<lparr>Timeout := Second\<rparr> else ea))"

definition normalize_sessions :: "cfg_sessions \<Rightarrow> cfg_sessions" where
  "normalize_sessions s =
     (let s1 = (if CleaningInterval s = 0 then s\<lparr>CleaningInterval := Minute\<rparr> else s)
      in if CleaningGracePeriod s1 = 0 then s1\<lparr>CleaningGracePeriod := Minute\<rparr> else s1)"

definition normalize_replication ::
  "'ip network \<Rightarrow> string \<Rightarrow> cfg_replication \<Rightarrow> (exit_status, cfg_replication) res" where
  "normalize_replication net bindAddr r =
     res_bind
       (if Mode r = [] then Ok (r\<lparr>Mode := NoneMode\<rparr>)
        else if Mode r \<in> {NoneMode, StaticMode, DnsMode} then Ok r
        else Err 1) (\<lambda>r1.
     res_bind
       (if AdvertiseAddress r1 = [] then
          (case advertiseAddress net bindAddr of
             Ok addr \<Rightarrow> Ok (r1\<lparr>AdvertiseAddress := addr\<rparr>) | Err err \<Rightarrow> Err 1 | Panic \<Rightarrow> Panic)
        else Ok r1) (\<lambda>r2.
     Ok (if EstablishInterval r2 = 0 then r2\<lparr>EstablishInterval := Minute\<rparr> else r2)))"

definition normalize_telemetry :: "cfg_telemetry \<Rightarrow> cfg_telemetry" where
  "normalize_telemetry t = (if TelemetryAddress t = [] then t\<lparr>TelemetryAddress := '':8081''\<rparr> else t)"

definition normalize :: "'ip network \<Rightarrow> (go_error + string) \<Rightarrow> config \<Rightarrow> (exit_status, config) res"
  where
  "normalize net ns c =
     res_bind (normalize_controller ns (c_Controller c)) (\<lambda>ctl.
     let svc = normalize_service (c_Service c) in
     res_bind (normalize_extAuthz (c_ExtAuthz c)) (\<lambda>ea.
     res_bind (normalize_replication net (Address svc) (c_Replication c)) (\<lambda>rep.
     Ok \<lparr>c_Controller = ctl, c_Service = svc, c_ExtAuthz = ea,
         c_Sessions = normalize_sessions (c_Sessions c), c_Replication = rep,
         c_Telemetry = normalize_telemetry (c_Telemetry c)\<rparr>)))"

section \<open>Facts\<close>

definition controller_filled :: "cfg_controller \<Rightarrow> bool" where
  "controller_filled c \<longleftrightarrow> IstioRootNamespace c \<noteq> [] \<and> HasSuffix (EnvoyFilterNamePrefix c) ''-''
     \<and> EnvoyFilterLabels c \<noteq> None \<and> LeaderElectionName c \<noteq> []"

lemma HasSuffix_append [simp]: "HasSuffix (s @ t) t"
  by (simp add: HasSuffix_def)

lemma HasSuffix_nonempty: "HasSuffix s ''-'' \<Longrightarrow> s \<noteq> []"
  by (auto simp: HasSuffix_def)

lemma or_default_filled [simp]: "d \<noteq> [] \<Longrightarrow> or_default d s \<noteq> []" "s \<noteq> [] \<Longrightarrow> or_default d s = s"
  by (simp_all add: or_default_def)

lemma dashed_prefix_suffix [simp]: "HasSuffix (dashed_prefix p) ''-''"
  by (simp add: dashed_prefix_def HasSuffix_def)

lemma dashed_prefix_id [simp]: "HasSuffix p ''-'' \<Longrightarrow> dashed_prefix p = p"
  by (auto simp: dashed_prefix_def dest: HasSuffix_nonempty)

lemma normalize_controller_filled: "normalize_controller ns c = Ok c' \<Longrightarrow> controller_filled c'"
  unfolding normalize_controller_def Let_def controller_filled_def
  by (simp split: if_split_asm sum.splits) auto

lemma normalize_controller_id: "controller_filled c \<Longrightarrow>
    \<not> (LeaderElection c \<and> LeaderElectionNamespace c = []) \<Longrightarrow> normalize_controller ns c = Ok c"
  unfolding normalize_controller_def Let_def controller_filled_def
  by (cases c) auto

lemma cut_last_append: "sep \<notin> set b \<Longrightarrow> cut_last sep (a @ sep # b) = Some (a, b)"
  by (simp add: cut_last_def cut_append)

lemma cut_last_Some: "cut_last sep s = Some (a, b) \<Longrightarrow> s = a @ sep # b \<and> sep \<notin> set b"
proof -
  assume "cut_last sep s = Some (a, b)"
  then have "cut sep (rev s) = (rev b, Some (rev a))"
    by (auto simp: cut_last_def split: prod.splits option.splits)
  then have "rev s = rev b @ sep # rev a \<and> sep \<notin> set (rev b)" by (rule cut_Some)
  then show ?thesis by (metis append_Cons append_Nil append_assoc rev_append rev_rev_ident rev.simps(2) set_rev)
qed

lemma advertiseAddress_Ok:
  assumes "advertiseAddress net bind = Ok addr"
  obtains host port ip where "SplitHostPort bind = Inr (host, port)"
    and "addr = ip_String net ip @ '':'' @ port"
    and "(ParseIP net host = Some ip \<and> \<not> IsUnspecified net ip)
         \<or> (\<not> IsLoopback net ip \<and> (\<exists>addrs. InterfaceAddrs net = Inr addrs \<and> ip \<in> set addrs))"
  using assms
  by (auto simp: advertiseAddress_def Let_def find_Some_iff
      split: sum.splits option.splits prod.splits if_splits; metis nth_mem)

lemma SplitHostPort_port: "SplitHostPort s = Inr (h, p) \<Longrightarrow> CHR '':'' \<notin> set p"
  by (auto simp: SplitHostPort_def sum_bind_eq_Inr dest!: cut_last_Some
      split: option.splits if_splits)

text \<open>An address without brackets splits exactly where the text before the port has no colon.\<close>

lemma SplitHostPort_plain:
  assumes "CHR '':'' \<notin> set p" and "set (h @ p) \<inter> {CHR ''['', CHR '']''} = {}"
  shows "SplitHostPort (h @ '':'' @ p) =
    (if CHR '':'' \<in> set h then Inl ''too many colons in address'' else Inr (h, p))"
proof -
  have "cut_last (CHR '':'') (h @ '':'' @ p) = Some (h, p)"
    using cut_last_append [OF assms(1)] by simp
  moreover have "take 1 (h @ '':'' @ p) \<noteq> ''[''"
    using assms(2) by (cases h) auto
  ultimately show ?thesis
    using assms(2) by (auto simp: SplitHostPort_def)
qed

text \<open>Defaulting each part fills it, and leaves a filled part alone.\<close>

definition replication_filled :: "cfg_replication \<Rightarrow> bool" where
  "replication_filled r \<longleftrightarrow> Mode r \<in> {NoneMode, StaticMode, DnsMode} \<and> AdvertiseAddress r \<noteq> []
     \<and> EstablishInterval r \<noteq> 0"

lemma durations_nonzero [simp]: "Second \<noteq> 0" "Minute \<noteq> 0"
  by (simp_all add: Second_def Minute_def)

lemma modes_nonempty: "m \<in> {NoneMode, StaticMode, DnsMode} \<Longrightarrow> m \<noteq> []"
  by (auto simp: NoneMode_def StaticMode_def DnsMode_def)

lemma normalize_replication_filled:
  assumes "normalize_replication net b r = Ok r'"
  shows "replication_filled r'"
proof -
  from assms obtain r1 r2 where
    1: "(if Mode r = [] then Ok (r\<lparr>Mode := NoneMode\<rparr>)
        else if Mode r \<in> {NoneMode, StaticMode, DnsMode} then Ok r else Err 1) = (Ok r1 :: (exit_status, _) res)"
    and 2: "(if AdvertiseAddress r1 = [] then
          (case advertiseAddress net b of
             Ok addr \<Rightarrow> Ok (r1\<lparr>AdvertiseAddress := addr\<rparr>) | Err err \<Rightarrow> Err 1 | Panic \<Rightarrow> Panic)
        else Ok r1) = (Ok r2 :: (exit_status, _) res)"
    and 3: "(if EstablishInterval r2 = 0 then r2\<lparr>EstablishInterval := Minute\<rparr> else r2) = r'"
    unfolding normalize_replication_def res_bind_eq_Ok res.inject by blast
  have "Mode r1 \<in> {NoneMode, StaticMode, DnsMode}" using 1 by (auto split: if_splits)
  moreover have "AdvertiseAddress r2 \<noteq> [] \<and> Mode r2 = Mode r1"
    using 2 by (auto split: if_splits res.splits elim: advertiseAddress_Ok)
  ultimately show ?thesis using 3 by (cases "EstablishInterval r2 = 0") (auto simp: replication_filled_def)
qed

lemma normalize_replication_id: "replication_filled r \<Longrightarrow> normalize_replication net b r = Ok r"
  using modes_nonempty [of "Mode r"] by (simp add: normalize_replication_def replication_filled_def)

lemma normalize_extAuthz_filled:
  "normalize_extAuthz e = Ok e' \<Longrightarrow> ClusterName e' \<noteq> [] \<and> Timeout e' \<noteq> 0"
  by (auto simp: normalize_extAuthz_def split: if_splits)

lemma normalize_extAuthz_id:
  "ClusterName e \<noteq> [] \<and> Timeout e \<noteq> 0 \<Longrightarrow> normalize_extAuthz e = Ok e"
  by (simp add: normalize_extAuthz_def)

lemma normalize_sessions_filled:
  "CleaningInterval (normalize_sessions s) \<noteq> 0 \<and> CleaningGracePeriod (normalize_sessions s) \<noteq> 0"
  by (simp add: normalize_sessions_def Let_def)

lemma normalize_simple_idem [simp]:
  "normalize_sessions (normalize_sessions s) = normalize_sessions s"
  "normalize_service (normalize_service v) = normalize_service v"
  "normalize_telemetry (normalize_telemetry t) = normalize_telemetry t"
  by (simp_all add: normalize_sessions_def normalize_service_def normalize_telemetry_def Let_def)

lemma normalize_controller_again:
  assumes "normalize_controller ns c = Ok c'" and "ns \<noteq> Inr []"
  shows "normalize_controller ns c' = Ok c'"
proof (rule normalize_controller_id)
  show "controller_filled c'" using assms(1) by (rule normalize_controller_filled)
  show "\<not> (LeaderElection c' \<and> LeaderElectionNamespace c' = [])"
    using assms by (cases ns) (auto simp: normalize_controller_def Let_def split: if_splits)
qed

lemma normalize_Ok:
  assumes "normalize net ns c = Ok c'"
  shows "normalize_controller ns (c_Controller c) = Ok (c_Controller c')"
    and "normalize_extAuthz (c_ExtAuthz c) = Ok (c_ExtAuthz c')"
    and "normalize_replication net (Address (normalize_service (c_Service c))) (c_Replication c)
      = Ok (c_Replication c')"
    and "c_Service c' = normalize_service (c_Service c)"
    and "c_Sessions c' = normalize_sessions (c_Sessions c)"
    and "c_Telemetry c' = normalize_telemetry (c_Telemetry c)"
  using assms by (auto simp: normalize_def Let_def)

section \<open>Claims\<close>

text \<open>
  A configuration that defaulting accepts has a cluster name, a known replication mode, and no
  empty address, prefix, name, interval or timeout left; the prefix of the filters ends in a dash.
  Defaulting it again changes nothing, unless the namespace file was read and was empty.
\<close>

lemma normalize_fills:
  assumes "normalize net ns c = Ok c'"
  shows "controller_filled (c_Controller c')
    \<and> ClusterName (c_ExtAuthz c') \<noteq> [] \<and> Timeout (c_ExtAuthz c') \<noteq> 0
    \<and> CleaningInterval (c_Sessions c') \<noteq> 0 \<and> CleaningGracePeriod (c_Sessions c') \<noteq> 0
    \<and> Mode (c_Replication c') \<in> {NoneMode, StaticMode, DnsMode}
    \<and> AdvertiseAddress (c_Replication c') \<noteq> [] \<and> EstablishInterval (c_Replication c') \<noteq> 0
    \<and> Address (c_Service c') \<noteq> [] \<and> TelemetryAddress (c_Telemetry c') \<noteq> []
    \<and> (ns = Inr [] \<or> normalize net ns c' = Ok c')"
proof -
  note parts = normalize_Ok [OF assms]
  have e: "ClusterName (c_ExtAuthz c') \<noteq> [] \<and> Timeout (c_ExtAuthz c') \<noteq> 0"
    using parts(2) by (rule normalize_extAuthz_filled)
  have r: "replication_filled (c_Replication c')"
    using parts(3) by (rule normalize_replication_filled)
  have "normalize net ns c' = Ok c'" if "ns \<noteq> Inr []"
  proof -
    have "normalize_service (c_Service c') = c_Service c'"
      "normalize_sessions (c_Sessions c') = c_Sessions c'"
      "normalize_telemetry (c_Telemetry c') = c_Telemetry c'"
      by (simp_all add: parts)
    then show ?thesis
      using normalize_controller_again [OF parts(1) that] normalize_extAuthz_id [OF e]
        normalize_replication_id [OF r, of net]
      by (simp add: normalize_def Let_def)
  qed
  moreover have "Address (c_Service c') \<noteq> [] \<and> TelemetryAddress (c_Telemetry c') \<noteq> []"
    using parts(4,6) by (simp add: normalize_service_def normalize_telemetry_def)
  ultimately show ?thesis
    using normalize_controller_filled [OF parts(1)] e r normalize_sessions_filled parts(5)
    by (auto simp: replication_filled_def)
qed

text \<open>A machine with one interface; addresses are their own text.\<close>

definition demo_network :: "string network" where
  "demo_network =
     \<lparr>ParseIP = (\<lambda>s. if s \<in> {''10.0.0.7'', ''2001:db8::1'', ''0.0.0.0''} then Some s else None),
      ip_String = (\<lambda>ip. ip), IsUnspecified = (\<lambda>ip. ip = ''0.0.0.0''),
      IsLoopback = (\<lambda>ip. ip = ''127.0.0.1''),
      InterfaceAddrs = Inr [''127.0.0.1'', ''10.0.0.7'']\<rparr>"

definition demo_config :: config where
  "demo_config =
     \<lparr>c_Controller = \<lparr>IstioRootNamespace = [], EnvoyFilterNamePrefix = ''p'', EnvoyFilterLabels = None,
        LeaderElection = False, LeaderElectionNamespace = [], LeaderElectionName = []\<rparr>,
      c_Service = \<lparr>Address = []\<rparr>, c_ExtAuthz = \<lparr>ClusterName = ''c'', Timeout = 0\<rparr>,
      c_Sessions = \<lparr>CleaningInterval = 0, CleaningGracePeriod = 0\<rparr>,
      c_Replication = \<lparr>Mode = [], StaticPeers = [], PeerAddress = \<lparr>Domain = [], Service = []\<rparr>,
        AdvertiseAddress = [], EstablishInterval = 0\<rparr>,
      c_Telemetry = \<lparr>TelemetryAddress = []\<rparr>\<rparr>"

lemmas config_eval =
  normalize_def normalize_controller_def normalize_service_def normalize_extAuthz_def
  normalize_sessions_def normalize_replication_def normalize_telemetry_def Let_def
  dashed_prefix_def HasSuffix_def or_default_def advertiseAddress_def SplitHostPort_def cut_last_def

lemma normalize_fills_witness:
  "\<exists>c'. normalize demo_network (Inr ''ns'') demo_config = Ok c'
     \<and> AdvertiseAddress (c_Replication c') = ''10.0.0.7:8080''
     \<and> normalize demo_network (Inr ''ns'') c' = Ok c'"
proof -
  obtain c' where c: "normalize demo_network (Inr ''ns'') demo_config = Ok c'"
    and a: "AdvertiseAddress (c_Replication c') = ''10.0.0.7:8080''"
    by (simp add: config_eval demo_network_def demo_config_def NoneMode_def)
  from normalize_fills [OF c] have "normalize demo_network (Inr ''ns'') c' = Ok c'" by simp
  with c a show ?thesis by blast
qed

text \<open>
  An advertised address is the text of an IP address, a colon and the port of the bind
  address; a peer can take it apart again exactly when that text has no colon. An IPv6 address is
  put in front of the port without brackets, and then no peer can use it.
\<close>

lemma advertised_address_splits_iff:
  assumes "advertiseAddress net bind = Ok addr"
  shows "\<exists>host port ip. SplitHostPort bind = Inr (host, port) \<and> addr = ip_String net ip @ '':'' @ port
    \<and> (set (ip_String net ip @ port) \<inter> {CHR ''['', CHR '']''} \<noteq> {}
       \<or> (SplitHostPort addr = Inr (ip_String net ip, port) \<longleftrightarrow> CHR '':'' \<notin> set (ip_String net ip)))"
proof -
  obtain host port ip where s: "SplitHostPort bind = Inr (host, port)"
    and a: "addr = ip_String net ip @ '':'' @ port"
    using assms by (rule advertiseAddress_Ok) blast
  show ?thesis
    using s a SplitHostPort_plain [OF SplitHostPort_port [OF s], of "ip_String net ip"]
    by (intro exI [of _ host] exI [of _ port] exI [of _ ip]) auto
qed

theorem advertised_address_splits_iff_witness:
  "advertiseAddress demo_network ''[2001:db8::1]:80'' = Ok ''2001:db8::1:80''
   \<and> SplitHostPort ''2001:db8::1:80'' \<noteq> Inr (''2001:db8::1'', ''80'')"
proof -
  have s: "SplitHostPort ''[2001:db8::1]:80'' = Inr (''2001:db8::1'', ''80'')" by code_simp
  then have a: "advertiseAddress demo_network ''[2001:db8::1]:80'' = Ok ''2001:db8::1:80''"
    by (simp add: advertiseAddress_def demo_network_def)
  from advertised_address_splits_iff [OF a] obtain ip where
    "''2001:db8::1:80'' = ip_String demo_network ip @ '':'' @ ''80''"
    and "set (ip_String demo_network ip @ ''80'') \<inter> {CHR ''['', CHR '']''} \<noteq> {}
       \<or> (SplitHostPort ''2001:db8::1:80'' = Inr (ip_String demo_network ip, ''80'') \<longleftrightarrow>
          CHR '':'' \<notin> set (ip_String demo_network ip))"
    using s by auto
  then have "ip_String demo_network ip = ''2001:db8::1''"
    and "SplitHostPort ''2001:db8::1:80'' = Inr (''2001:db8::1'', ''80'') \<longleftrightarrow>
          CHR '':'' \<notin> set ''2001:db8::1''"
    by (auto simp: demo_network_def)
  with a show ?thesis by simp
qed

end
