(* ===== verification/Kube.thy ===== *)
theory Kube
  imports Access_Policy Config
begin

text \<open>
  What the controllers (\<^verbatim>\<open>src/controller\<close>) share: the Kubernetes objects they read and write, the
  client of the API server, the calls a reconciler makes and how they are sequenced. The API server
  is not part of the repository: the client is a record of functions over an abstract cluster state,
  and every theorem holds for any such client unless it names a law.
\<close>

section \<open>Objects\<close>

record named =
  nn_Namespace :: string
  nn_Name :: string

text \<open>A map of labels, where \<open>None\<close> is the nil map: \<^verbatim>\<open>reflect.DeepEqual\<close> tells nil from empty.\<close>

type_synonym labels = "string \<rightharpoonup> string"

text \<open>
  The resource of \<^verbatim>\<open>src/api/accesspolicy.go\<close> with the parts of its metadata that the controllers
  use. A deletion timestamp is zero for an object that is not being deleted.
\<close>

record policy_object =
  po_Policy :: apiAccessPolicy
  po_Finalizers :: "string list"
  po_DeletionTimestamp :: time

record gw_server =
  sv_Hosts :: "string list"
  sv_Port :: "32 word option"

record gateway =
  gw_Namespace :: string
  gw_Name :: string
  gw_Selector :: labels
  gw_Servers :: "gw_server list"

record secret =
  sc_Namespace :: string
  sc_Name :: string
  sc_Data :: "secret_data option"

text \<open>The nested values of a patch, and the patches of an EnvoyFilter.\<close>

datatype pvalue = PBool bool | PString string | PStruct "(string \<times> pvalue) list"

datatype apply_to = INVALID | HTTP_FILTER | VIRTUAL_HOST | HTTP_ROUTE | CLUSTER
datatype operation = INVALID_OPERATION | MERGE | INSERT_BEFORE
datatype patch_context = ANY | GATEWAY

record cluster_match =
  cm_Service :: string
  cm_PortNumber :: "32 word"
  cm_Subset :: string

datatype object_match =
    ListenerMatch string string
  | RouteConfigurationMatch string "string option"
  | ClusterMatch cluster_match

record config_match =
  ma_Context :: patch_context
  ma_ObjectTypes :: "object_match option"

record patch_op =
  pa_Operation :: operation
  pa_Value :: "pvalue option"

record config_patch =
  cp_ApplyTo :: apply_to
  cp_Match :: "config_match option"
  cp_Patch :: "patch_op option"

record envoy_filter =
  ef_Namespace :: string
  ef_Name :: string
  ef_GenerateName :: string
  ef_Labels :: "labels option"
  ef_CreationTimestamp :: time
  ef_WorkloadSelector :: "labels option option"
  ef_ConfigPatches :: "config_patch list"

text \<open>\<^verbatim>\<open>GetWorkloadSelector().GetLabels()\<close>, nil-safe as generated.\<close>

definition filter_selector :: "envoy_filter \<Rightarrow> labels option" where
  "filter_selector ef = Option.bind (ef_WorkloadSelector ef) (\<lambda>ls. ls)"

definition policy_selector :: "apiAccessPolicy \<Rightarrow> labels option" where
  "policy_selector ap = GetSelector (GetIngress (Some (ap_Status ap)))"

definition policy_key :: "apiAccessPolicy \<Rightarrow> named" where
  "policy_key ap = \<lparr>nn_Namespace = ap_Namespace ap, nn_Name = ap_Name ap\<rparr>"

definition filter_key :: "envoy_filter \<Rightarrow> named" where
  "filter_key ef = \<lparr>nn_Namespace = ef_Namespace ef, nn_Name = ef_Name ef\<rparr>"

section \<open>The client\<close>

datatype 'a got = Found 'a | NotFound | Failed go_error

text \<open>
  Reads answer from the cluster state; writes also change it. A write answers with the object as the
  server has it, which the client puts in the place of the object that was sent.
\<close>

record 'c kube =
  GetPolicy :: "'c \<Rightarrow> named \<Rightarrow> policy_object got"
  ListPolicies :: "'c \<Rightarrow> string option \<Rightarrow> go_error + policy_object list"
  UpdatePolicy :: "policy_object \<Rightarrow> 'c \<Rightarrow> 'c \<times> (go_error + policy_object)"
  UpdatePolicyStatus :: "policy_object \<Rightarrow> 'c \<Rightarrow> 'c \<times> (go_error + policy_object)"
  GetGateway :: "'c \<Rightarrow> named \<Rightarrow> gateway got"
  GetProvider :: "'c \<Rightarrow> named \<Rightarrow> apiOpenIDProvider got"
  GetSecret :: "'c \<Rightarrow> named \<Rightarrow> secret got"
  UpdateSecret :: "secret \<Rightarrow> 'c \<Rightarrow> 'c \<times> (go_error + secret)"
  GetFilter :: "'c \<Rightarrow> named \<Rightarrow> envoy_filter got"
  ListFilters :: "'c \<Rightarrow> string \<Rightarrow> labels option \<Rightarrow> go_error + envoy_filter list"
  CreateFilter :: "envoy_filter \<Rightarrow> 'c \<Rightarrow> 'c \<times> (go_error + envoy_filter)"
  UpdateFilter :: "envoy_filter \<Rightarrow> 'c \<Rightarrow> 'c \<times> (go_error + envoy_filter)"
  DeleteFilter :: "envoy_filter \<Rightarrow> 'c \<Rightarrow> 'c \<times> (go_error + envoy_filter)"

text \<open>
  A law of the API server that the leader relies on. An update is refused when the object has changed
  since it was read (its resource version differs), so the answer to an update that is not refused
  has the fields that were sent; only the status is not written with the resource itself.
\<close>

definition update_law :: "'c kube \<Rightarrow> bool" where
  "update_law K \<longleftrightarrow>
     (\<forall>c c' p p'. UpdatePolicy K p c = (c', Inr p') \<longrightarrow>
        po_Finalizers p' = po_Finalizers p \<and> po_DeletionTimestamp p' = po_DeletionTimestamp p
        \<and> policy_key (po_Policy p') = policy_key (po_Policy p)
        \<and> ap_Spec (po_Policy p') = ap_Spec (po_Policy p))
     \<and> (\<forall>c c' p p'. UpdatePolicyStatus K p c = (c', Inr p') \<longrightarrow> p' = p)"

section \<open>Calls\<close>

text \<open>
  What a reconciler does to the world: the writes it sends and the events it records, in order, and
  its changes of the policy store of the auth server.
\<close>

datatype event_object = OnPolicy named | OnSecret named | OnProvider named

datatype call =
    Event event_object string string string
  | WritePolicy policy_object
  | WriteStatus policy_object
  | WriteSecret secret
  | NewFilter envoy_filter
  | WriteFilter envoy_filter
  | RemoveFilter envoy_filter

record 'c world =
  w_cluster :: 'c
  w_calls :: "call list"
  w_policies :: policy_store

type_synonym ('c, 'a) act = "'c world \<Rightarrow> 'c world \<times> (go_error, 'a) res"

definition act_return :: "'a \<Rightarrow> ('c, 'a) act" where
  "act_return x w = (w, Ok x)"

definition act_fail :: "go_error \<Rightarrow> ('c, 'a) act" where
  "act_fail e w = (w, Err e)"

definition act_bind :: "('c, 'a) act \<Rightarrow> ('a \<Rightarrow> ('c, 'b) act) \<Rightarrow> ('c, 'b) act" where
  "act_bind m f w =
     (case m w of (w', Ok x) \<Rightarrow> f x w' | (w', Err e) \<Rightarrow> (w', Err e) | (w', Panic) \<Rightarrow> (w', Panic))"

definition record_calls :: "call list \<Rightarrow> ('c, unit) act" where
  "record_calls cs w = (w\<lparr>w_calls := w_calls w @ cs\<rparr>, Ok ())"

text \<open>A write: the call is recorded, and an error is wrapped with the message of its place.\<close>

definition send ::
  "('a \<Rightarrow> 'c \<Rightarrow> 'c \<times> (go_error + 'a)) \<Rightarrow> ('a \<Rightarrow> call) \<Rightarrow> (go_error \<Rightarrow> go_error) \<Rightarrow> 'a \<Rightarrow> ('c, 'a) act"
  where
  "send write mk_call on_err x w =
     (case write x (w_cluster w) of
        (c', r) \<Rightarrow>
          (w\<lparr>w_cluster := c', w_calls := w_calls w @ [mk_call x]\<rparr>,
           case r of Inl e \<Rightarrow> Err (on_err e) | Inr x' \<Rightarrow> Ok x'))"

definition failed :: "string \<Rightarrow> go_error \<Rightarrow> go_error" where
  "failed msg e = wrap_error e msg []"

section \<open>Facts\<close>

lemma act_bind_Ok_iff:
  "act_bind m f w = (w', Ok y) \<longleftrightarrow> (\<exists>w1 x. m w = (w1, Ok x) \<and> f x w1 = (w', Ok y))"
  by (cases "m w"; cases "snd (m w)") (auto simp: act_bind_def)

lemma act_bind_Panic_iff:
  "act_bind m f w = (w', Panic) \<longleftrightarrow>
     m w = (w', Panic) \<or> (\<exists>w1 x. m w = (w1, Ok x) \<and> f x w1 = (w', Panic))"
  by (cases "m w"; cases "snd (m w)") (auto simp: act_bind_def)

lemma act_bind_Ok: "m w = (w1, Ok x) \<Longrightarrow> act_bind m f w = f x w1"
  by (simp add: act_bind_def)

lemma act_return_bind [simp]: "act_bind (act_return x) f = f x"
  by (simp add: fun_eq_iff act_bind_def act_return_def)

lemma act_bind_return [simp]: "act_bind m act_return = m"
  by (auto simp: fun_eq_iff act_bind_def act_return_def split: prod.splits res.splits)

lemma act_return_iff [simp]: "act_return x w = (w', r) \<longleftrightarrow> w' = w \<and> r = Ok x"
  by (auto simp: act_return_def)

lemma act_fail_iff [simp]: "act_fail e w = (w', r) \<longleftrightarrow> w' = w \<and> r = Err e"
  by (auto simp: act_fail_def)

lemma record_calls_iff [simp]:
  "record_calls cs w = (w', r) \<longleftrightarrow> w' = w\<lparr>w_calls := w_calls w @ cs\<rparr> \<and> r = Ok ()"
  by (auto simp: record_calls_def)

lemma send_Ok_iff:
  "send write mk_call on_err x w = (w', Ok x') \<longleftrightarrow>
     (\<exists>c'. write x (w_cluster w) = (c', Inr x')
        \<and> w' = w\<lparr>w_cluster := c', w_calls := w_calls w @ [mk_call x]\<rparr>)"
  by (auto simp: send_def split: prod.splits sum.splits)

lemma send_not_Panic [simp]: "send write mk_call on_err x w \<noteq> (w', Panic)"
  by (auto simp: send_def split: prod.splits sum.splits)

text \<open>The calls and the policy store after a run, told from those before it.\<close>

definition adds :: "'c world \<Rightarrow> 'c world \<Rightarrow> call list \<Rightarrow> bool" where
  "adds w w' cs \<longleftrightarrow> w_calls w' = w_calls w @ cs \<and> w_policies w' = w_policies w"

lemma adds_trans: "adds w w1 cs \<Longrightarrow> adds w1 w2 ds \<Longrightarrow> adds w w2 (cs @ ds)"
  by (simp add: adds_def)

lemma adds_refl: "adds w w []"
  by (simp add: adds_def)

lemma send_adds: "send write mk_call on_err x w = (w', r) \<Longrightarrow> adds w w' [mk_call x]"
  by (auto simp: adds_def send_def split: prod.splits)

lemma record_calls_adds: "record_calls cs w = (w', r) \<Longrightarrow> adds w w' cs"
  by (auto simp: adds_def record_calls_def)

lemma send_calls: "w_calls (fst (send write mk_call on_err x w)) = w_calls w @ [mk_call x]"
  by (auto simp: send_def split: prod.splits)

lemma send_policies [simp]: "w_policies (fst (send write mk_call on_err x w)) = w_policies w"
  by (auto simp: send_def split: prod.splits)

section \<open>The cluster during a run\<close>

text \<open>
  What a call makes of the cluster; recording an event leaves it alone. \<open>seen K c cs\<close> are the states of the
  cluster between the calls \<open>cs\<close> that start in \<open>c\<close>, and \<open>runs\<close> says that a run made just these calls.
\<close>

fun call_effect :: "'c kube \<Rightarrow> call \<Rightarrow> 'c \<Rightarrow> 'c" where
  "call_effect K (Event obj etype reason msg) c = c"
| "call_effect K (WritePolicy p) c = fst (UpdatePolicy K p c)"
| "call_effect K (WriteStatus p) c = fst (UpdatePolicyStatus K p c)"
| "call_effect K (WriteSecret sc) c = fst (UpdateSecret K sc c)"
| "call_effect K (NewFilter ef) c = fst (CreateFilter K ef c)"
| "call_effect K (WriteFilter ef) c = fst (UpdateFilter K ef c)"
| "call_effect K (RemoveFilter ef) c = fst (DeleteFilter K ef c)"

definition seen :: "'c kube \<Rightarrow> 'c \<Rightarrow> call list \<Rightarrow> 'c set" where
  "seen K c cs = {fold (call_effect K) done_calls c |done_calls rest. cs = done_calls @ rest}"

definition runs :: "'c kube \<Rightarrow> 'c world \<Rightarrow> 'c world \<Rightarrow> call list \<Rightarrow> bool" where
  "runs K w w' cs \<longleftrightarrow> adds w w' cs \<and> w_cluster w' = fold (call_effect K) cs (w_cluster w)"

lemma runs_trans: "runs K w w1 cs \<Longrightarrow> runs K w1 w2 ds \<Longrightarrow> runs K w w2 (cs @ ds)"
  by (auto simp: runs_def intro: adds_trans)

lemma runs_refl: "runs K w w []"
  by (simp add: runs_def adds_refl)

lemma runs_adds: "runs K w w' cs \<Longrightarrow> adds w w' cs"
  by (simp add: runs_def)

lemma send_runs:
  assumes "send write mk_call on_err x w = (w', r)" and "\<And>c. call_effect K (mk_call x) c = fst (write x c)"
  shows "runs K w w' [mk_call x]"
  using send_adds [OF assms(1)] assms by (auto simp: runs_def send_def split: prod.splits)

lemma record_calls_runs:
  "record_calls cs w = (w', r) \<Longrightarrow> \<forall>ev \<in> set cs. \<exists>obj t m n. ev = Event obj t m n \<Longrightarrow> runs K w w' cs"
proof -
  assume "\<forall>ev \<in> set cs. \<exists>obj t m n. ev = Event obj t m n"
  then have "fold (call_effect K) cs c = c" for c by (induction cs) auto
  moreover assume "record_calls cs w = (w', r)"
  ultimately show ?thesis by (auto simp: runs_def adds_def)
qed

lemma runs_seen: "runs K w w1 cs \<Longrightarrow> w_cluster w1 \<in> seen K (w_cluster w) (cs @ ds)"
  by (auto simp: runs_def seen_def)

lemma seen_later: "runs K w w1 cs \<Longrightarrow> c \<in> seen K (w_cluster w1) ds \<Longrightarrow> c \<in> seen K (w_cluster w) (cs @ ds)"
  unfolding seen_def runs_def by (clarsimp, metis append.assoc comp_apply fold_append)

lemma seen_sooner: "c \<in> seen K c0 cs \<Longrightarrow> c \<in> seen K c0 (cs @ ds)"
  by (auto simp: seen_def)

section \<open>An example\<close>

text \<open>
  An API server whose objects never change and that accepts every write, for concrete runs. Its
  secret has the given data, its filters and policies are the given lists.
\<close>

definition demo_gateway :: gateway where
  "demo_gateway =
     \<lparr>gw_Namespace = ''ns'', gw_Name = ''gw'', gw_Selector = [''istio'' \<mapsto> ''gw''],
      gw_Servers = [\<lparr>sv_Hosts = [''a.io'', ''b.io''], sv_Port = Some 443\<rparr>]\<rparr>"

definition demo_object :: policy_object where
  "demo_object =
     \<lparr>po_Policy = demo_policy, po_Finalizers = [], po_DeletionTimestamp = zero_time\<rparr>"

definition demo_op :: apiOpenIDProvider where
  "demo_op =
     \<lparr>api_op_namespace = ''ns'', api_op_name = ''idp'', api_issuer = ''https://idp'',
      api_role_mappings = []\<rparr>"

definition demo_kube ::
  "policy_object list \<Rightarrow> secret_data option \<Rightarrow> envoy_filter list \<Rightarrow> unit kube" where
  "demo_kube ps data efs =
     \<lparr>GetPolicy = \<lambda>c k. case find (\<lambda>p. policy_key (po_Policy p) = k) ps of
          None \<Rightarrow> NotFound | Some p \<Rightarrow> Found p,
      ListPolicies = \<lambda>c ns. Inr (filter (\<lambda>p. ns = None \<or> ns = Some (ap_Namespace (po_Policy p))) ps),
      UpdatePolicy = \<lambda>p c. (c, Inr p), UpdatePolicyStatus = \<lambda>p c. (c, Inr p),
      GetGateway = \<lambda>c k. if k = \<lparr>nn_Namespace = ''ns'', nn_Name = ''gw''\<rparr> then Found demo_gateway else NotFound,
      GetProvider = \<lambda>c k. if k = \<lparr>nn_Namespace = ''ns'', nn_Name = ''idp''\<rparr> then Found demo_op else NotFound,
      GetSecret = \<lambda>c k. if k = \<lparr>nn_Namespace = ''ns'', nn_Name = ''s''\<rparr>
          then Found \<lparr>sc_Namespace = ''ns'', sc_Name = ''s'', sc_Data = data\<rparr> else NotFound,
      UpdateSecret = \<lambda>x c. (c, Inr x),
      GetFilter = \<lambda>c k. case find (\<lambda>ef. filter_key ef = k) efs of None \<Rightarrow> NotFound | Some ef \<Rightarrow> Found ef,
      ListFilters = \<lambda>c ns ls. Inr (filter (\<lambda>ef. ef_Namespace ef = ns \<and> ef_Labels ef = ls) efs),
      CreateFilter = \<lambda>x c. (c, Inr x), UpdateFilter = \<lambda>x c. (c, Inr x),
      DeleteFilter = \<lambda>x c. (c, Inr x)\<rparr>"

definition demo_controller :: cfg_controller where
  "demo_controller =
     \<lparr>IstioRootNamespace = ''istio-system'', EnvoyFilterNamePrefix = ''ext-authz-'',
      EnvoyFilterLabels = Some [''istio-oidc'' \<mapsto> ''ext-authz''], LeaderElection = False,
      LeaderElectionNamespace = [], LeaderElectionName = ''istio-oidc''\<rparr>"

definition demo_world :: "unit world" where
  "demo_world = \<lparr>w_cluster = (), w_calls = [], w_policies = NewAccessPolicyStore\<rparr>"

lemma demo_update_law: "update_law (demo_kube ps data efs)"
  by (simp add: update_law_def demo_kube_def)

end
