(* ===== verification/Controller_Watch.thy ===== *)
theory Controller_Watch
  imports Kube
begin

text \<open>
  What makes the controllers run: the predicates on events (\<^verbatim>\<open>src/controller/predicate\<close>), the mappers
  from a changed object to the resources to reconcile (\<^verbatim>\<open>mappers.go\<close> of both controllers) and the
  registration of the watches (\<^verbatim>\<open>register.go\<close>). The predicates of the controller runtime and its
  manager are parameters.
\<close>

section \<open>Events\<close>

datatype kobject =
    PolicyObject apiAccessPolicy
  | ProviderObject apiOpenIDProvider
  | GatewayObject gateway
  | SecretObject secret
  | FilterObject envoy_filter

record map_object =
  mo_Namespace :: string
  mo_Name :: string
  mo_Labels :: labels
  mo_Object :: kobject

datatype event =
    CreateEvent map_object
  | DeleteEvent map_object
  | UpdateEvent map_object map_object
  | GenericEvent map_object

text \<open>The object that an event is about: for an update, the new one.\<close>

fun subject :: "event \<Rightarrow> map_object" where
  "subject (CreateEvent x) = x"
| "subject (DeleteEvent x) = x"
| "subject (UpdateEvent old new) = new"
| "subject (GenericEvent x) = x"

section \<open>Predicates\<close>

text \<open>The loop over the wanted labels, visited in the order \<open>ks\<close>.\<close>

fun check_loop :: "labels \<Rightarrow> labels \<Rightarrow> string list \<Rightarrow> bool" where
  "check_loop wanted labels [] = True"
| "check_loop wanted labels (k # ks) =
     (if labels k = None \<or> labels k \<noteq> wanted k then False else check_loop wanted labels ks)"

definition HasLabels_check :: "labels \<Rightarrow> string list \<Rightarrow> labels \<Rightarrow> bool" where
  "HasLabels_check wanted ks labels = check_loop wanted labels ks"

definition HasLabels_Create :: "labels \<Rightarrow> string list \<Rightarrow> map_object \<Rightarrow> bool" where
  "HasLabels_Create wanted ks x = HasLabels_check wanted ks (mo_Labels x)"

definition HasLabels_Delete :: "labels \<Rightarrow> string list \<Rightarrow> map_object \<Rightarrow> bool" where
  "HasLabels_Delete wanted ks x = HasLabels_check wanted ks (mo_Labels x)"

definition HasLabels_Update :: "labels \<Rightarrow> string list \<Rightarrow> map_object \<Rightarrow> map_object \<Rightarrow> bool" where
  "HasLabels_Update wanted ks old new = HasLabels_check wanted ks (mo_Labels new)"

definition HasLabels_Generic :: "labels \<Rightarrow> string list \<Rightarrow> map_object \<Rightarrow> bool" where
  "HasLabels_Generic wanted ks x = HasLabels_check wanted ks (mo_Labels x)"

definition IsNamed_Create :: "string \<Rightarrow> map_object \<Rightarrow> bool" where
  "IsNamed_Create name x \<longleftrightarrow> mo_Name x = name"

definition IsNamed_Delete :: "string \<Rightarrow> map_object \<Rightarrow> bool" where
  "IsNamed_Delete name x \<longleftrightarrow> mo_Name x = name"

definition IsNamed_Update :: "string \<Rightarrow> map_object \<Rightarrow> map_object \<Rightarrow> bool" where
  "IsNamed_Update name old new \<longleftrightarrow> mo_Name new = name"

definition IsNamed_Generic :: "string \<Rightarrow> map_object \<Rightarrow> bool" where
  "IsNamed_Generic name x \<longleftrightarrow> mo_Name x = name"

definition InNamespace_Create :: "string \<Rightarrow> map_object \<Rightarrow> bool" where
  "InNamespace_Create ns x \<longleftrightarrow> mo_Namespace x = ns"

definition InNamespace_Delete :: "string \<Rightarrow> map_object \<Rightarrow> bool" where
  "InNamespace_Delete ns x \<longleftrightarrow> mo_Namespace x = ns"

definition InNamespace_Update :: "string \<Rightarrow> map_object \<Rightarrow> map_object \<Rightarrow> bool" where
  "InNamespace_Update ns old new \<longleftrightarrow> mo_Namespace new = ns"

definition InNamespace_Generic :: "string \<Rightarrow> map_object \<Rightarrow> bool" where
  "InNamespace_Generic ns x \<longleftrightarrow> mo_Namespace x = ns"

text \<open>
  The interface of a predicate, with the contract of those of the program: each looks at the object
  that the event is about and at nothing else.
\<close>

locale object_predicate =
  fixes holds :: "map_object \<Rightarrow> bool"
    and on_create :: "map_object \<Rightarrow> bool"
    and on_delete :: "map_object \<Rightarrow> bool"
    and on_update :: "map_object \<Rightarrow> map_object \<Rightarrow> bool"
    and on_generic :: "map_object \<Rightarrow> bool"
  assumes create_holds: "on_create x \<longleftrightarrow> holds x"
    and delete_holds: "on_delete x \<longleftrightarrow> holds x"
    and update_holds: "on_update old x \<longleftrightarrow> holds x"
    and generic_holds: "on_generic x \<longleftrightarrow> holds x"
begin

fun admits :: "event \<Rightarrow> bool" where
  "admits (CreateEvent x) = on_create x"
| "admits (DeleteEvent x) = on_delete x"
| "admits (UpdateEvent old new) = on_update old new"
| "admits (GenericEvent x) = on_generic x"

lemma admits_iff: "admits ev \<longleftrightarrow> holds (subject ev)"
  by (cases ev) (simp_all add: create_holds delete_holds update_holds generic_holds)

text \<open>The update that takes an object out of sight is dropped itself.\<close>

lemma leaving_is_dropped: "\<not> holds new \<Longrightarrow> \<not> admits (UpdateEvent old new)"
  by (simp add: admits_iff)

end

interpretation has_labels:
  object_predicate "\<lambda>x. HasLabels_check wanted ks (mo_Labels x)" "HasLabels_Create wanted ks"
    "HasLabels_Delete wanted ks" "HasLabels_Update wanted ks" "HasLabels_Generic wanted ks"
  for wanted ks
  by unfold_locales
     (simp_all add: HasLabels_Create_def HasLabels_Delete_def HasLabels_Update_def
       HasLabels_Generic_def)

interpretation is_named:
  object_predicate "\<lambda>x. mo_Name x = name" "IsNamed_Create name" "IsNamed_Delete name"
    "IsNamed_Update name" "IsNamed_Generic name" for name
  by unfold_locales
     (simp_all add: IsNamed_Create_def IsNamed_Delete_def IsNamed_Update_def IsNamed_Generic_def)

interpretation in_namespace:
  object_predicate "\<lambda>x. mo_Namespace x = ns" "InNamespace_Create ns" "InNamespace_Delete ns"
    "InNamespace_Update ns" "InNamespace_Generic ns" for ns
  by unfold_locales
     (simp_all add: InNamespace_Create_def InNamespace_Delete_def InNamespace_Update_def
       InNamespace_Generic_def)

lemma check_loop_iff:
  "check_loop wanted labels ks \<longleftrightarrow> (\<forall>k \<in> set ks. \<exists>v. labels k = Some v \<and> wanted k = Some v)"
proof (induction ks)
  case (Cons k ks)
  then show ?case by (cases "labels k"; cases "wanted k") auto
qed simp

text \<open>The wanted labels are found, in whatever order they are visited.\<close>

lemma HasLabels_check_iff:
  "ranges wanted ks \<Longrightarrow> HasLabels_check wanted ks labels \<longleftrightarrow> wanted \<subseteq>\<^sub>m labels"
  by (fastforce simp: HasLabels_check_def check_loop_iff ranges_set map_le_def dom_def)

section \<open>Mappers\<close>

type_synonym 'c mapper = "'c \<Rightarrow> map_object \<Rightarrow> named list"

text \<open>\<^verbatim>\<open>Map\<close> of the policy controller; a failed list is logged and maps to nothing.\<close>

definition Map_policies ::
  "'c kube \<Rightarrow> bool \<Rightarrow> (map_object \<Rightarrow> apiAccessPolicy \<Rightarrow> bool) \<Rightarrow> 'c mapper" where
  "Map_policies K namespaced isRelated c obj =
     (case ListPolicies K c (if namespaced then Some (mo_Namespace obj) else None) of
        Inl err \<Rightarrow> []
      | Inr aps \<Rightarrow>
          map (\<lambda>p. policy_key (po_Policy p)) (filter (\<lambda>p. isRelated obj (po_Policy p)) aps))"

definition gwIsRelated :: "map_object \<Rightarrow> apiAccessPolicy \<Rightarrow> bool" where
  "gwIsRelated obj ap \<longleftrightarrow> as_Gateway (ap_Spec ap) = mo_Name obj"

definition opIsRelated :: "map_object \<Rightarrow> apiAccessPolicy \<Rightarrow> bool" where
  "opIsRelated obj ap \<longleftrightarrow> ao_Provider (as_OIDC (ap_Spec ap)) = mo_Name obj"

definition secretIsRelated :: "map_object \<Rightarrow> apiAccessPolicy \<Rightarrow> bool" where
  "secretIsRelated obj ap \<longleftrightarrow> cs_Name (ao_CredentialsSecret (as_OIDC (ap_Spec ap))) = mo_Name obj"

text \<open>
  \<^verbatim>\<open>efIsRelated\<close> asserts that the object is an EnvoyFilter. Its watch is on these only, so the
  assertion cannot fail; other objects are unrelated here.
\<close>

definition efIsRelated :: "map_object \<Rightarrow> apiAccessPolicy \<Rightarrow> bool" where
  "efIsRelated obj ap \<longleftrightarrow>
     (case mo_Object obj of FilterObject ef \<Rightarrow> policy_selector ap = filter_selector ef | _ \<Rightarrow> False)"

definition newGatewayMapper :: "'c kube \<Rightarrow> 'c mapper" where
  "newGatewayMapper K = Map_policies K True gwIsRelated"

definition newOpenIdProviderMapper :: "'c kube \<Rightarrow> 'c mapper" where
  "newOpenIdProviderMapper K = Map_policies K True opIsRelated"

definition newSecretMapper :: "'c kube \<Rightarrow> 'c mapper" where
  "newSecretMapper K = Map_policies K True secretIsRelated"

definition newEnvoyFilterMapper :: "'c kube \<Rightarrow> 'c mapper" where
  "newEnvoyFilterMapper K = Map_policies K False efIsRelated"

text \<open>\<^verbatim>\<open>Map\<close> of the filter controller, with the same remark about its assertion.\<close>

definition Map_filters :: "'c kube \<Rightarrow> cfg_controller \<Rightarrow> 'c mapper" where
  "Map_filters K cfg c obj =
     (case mo_Object obj of
        PolicyObject ap \<Rightarrow>
          (case ListFilters K c (IstioRootNamespace cfg) (EnvoyFilterLabels cfg) of
             Inl err \<Rightarrow> []
           | Inr efs \<Rightarrow> map filter_key (filter (\<lambda>ef. policy_selector ap = filter_selector ef) efs))
      | _ \<Rightarrow> [])"

section \<open>Registration\<close>

datatype source = PolicyKind | ProviderKind | GatewayKind | SecretKind | FilterKind

datatype scheme = CoreScheme | NetworkingScheme | ApiScheme

text \<open>
  \<^verbatim>\<open>src/api/info.go\<close>: the group and version of the resources, and the kinds that \<^verbatim>\<open>api.AddToScheme\<close> makes
  known. The other two schemes are libraries; of them, the kinds that the controllers use.
\<close>

definition GroupVersion :: "string \<times> string" where
  "GroupVersion = (''krsdev.app'', ''v1'')"

definition api_kinds :: "string list" where
  "api_kinds = [''OpenIDProvider'', ''OpenIDProviderList'', ''AccessPolicy'', ''AccessPolicyList'']"

fun scheme_kinds :: "scheme \<Rightarrow> string list" where
  "scheme_kinds CoreScheme = [''Secret'']"
| "scheme_kinds NetworkingScheme = [''Gateway'', ''EnvoyFilter'', ''EnvoyFilterList'']"
| "scheme_kinds ApiScheme = api_kinds"

fun kind_of :: "source \<Rightarrow> string" where
  "kind_of PolicyKind = ''AccessPolicy''"
| "kind_of ProviderKind = ''OpenIDProvider''"
| "kind_of GatewayKind = ''Gateway''"
| "kind_of SecretKind = ''Secret''"
| "kind_of FilterKind = ''EnvoyFilter''"

text \<open>Predicates of the controller runtime are named, those of the program are given.\<close>

datatype watch_predicate =
    ResourceVersionChanged
  | GenerationChanged
  | InNamespace string
  | HasLabels labels

datatype 'c handler = EnqueueRequestForObject | EnqueueRequestsFromMapFunc "'c mapper"

record 'c watch =
  wt_Source :: source
  wt_Handler :: "'c handler"
  wt_Predicates :: "watch_predicate list"

record 'c controller =
  ct_Name :: string
  ct_Watches :: "'c watch list"
  ct_NeedLeaderElection :: bool

text \<open>Which of the calls of the manager fail; the controllers that were added are the result.\<close>

record 'c manager =
  mg_AddToScheme :: "scheme \<Rightarrow> go_error option"
  mg_NewUnmanaged :: "string \<Rightarrow> go_error option"
  mg_Watch :: "string \<Rightarrow> 'c watch \<Rightarrow> go_error option"
  mg_Add :: "'c controller \<Rightarrow> go_error option"

definition or_err :: "go_error option \<Rightarrow> 'a \<Rightarrow> (go_error, 'a) res" where
  "or_err e x = (case e of None \<Rightarrow> Ok x | Some err \<Rightarrow> Err err)"

definition New_unmanaged :: "'c manager \<Rightarrow> string \<Rightarrow> (go_error, 'c controller) res" where
  "New_unmanaged m name =
     or_err (mg_NewUnmanaged m name)
       \<lparr>ct_Name = name, ct_Watches = [], ct_NeedLeaderElection = True\<rparr>"

definition Watch :: "'c manager \<Rightarrow> 'c watch \<Rightarrow> 'c controller \<Rightarrow> (go_error, 'c controller) res" where
  "Watch m w c = or_err (mg_Watch m (ct_Name c) w) (c\<lparr>ct_Watches := ct_Watches c @ [w]\<rparr>)"

text \<open>\<^verbatim>\<open>EnvoyFilterLabels\<close> may be the nil map; ranging over it is ranging over an empty map.\<close>

definition label_map :: "labels option \<Rightarrow> labels" where
  "label_map ls = (case ls of None \<Rightarrow> Map.empty | Some m \<Rightarrow> m)"

definition own_filters :: "cfg_controller \<Rightarrow> watch_predicate list" where
  "own_filters cfg =
     [GenerationChanged, InNamespace (IstioRootNamespace cfg), HasLabels (label_map (EnvoyFilterLabels cfg))]"

definition registerLeader ::
  "'c manager \<Rightarrow> 'c kube \<Rightarrow> cfg_controller \<Rightarrow> (go_error, 'c controller) res" where
  "registerLeader m K cfg =
     res_bind (New_unmanaged m ''accesspolicy-leader'') (\<lambda>c1.
     res_bind (Watch m \<lparr>wt_Source = PolicyKind, wt_Handler = EnqueueRequestForObject,
         wt_Predicates = [ResourceVersionChanged]\<rparr> c1) (\<lambda>c2.
     res_bind (Watch m \<lparr>wt_Source = GatewayKind,
         wt_Handler = EnqueueRequestsFromMapFunc (newGatewayMapper K),
         wt_Predicates = [GenerationChanged]\<rparr> c2) (\<lambda>c3.
     res_bind (Watch m \<lparr>wt_Source = SecretKind,
         wt_Handler = EnqueueRequestsFromMapFunc (newSecretMapper K),
         wt_Predicates = [ResourceVersionChanged]\<rparr> c3) (\<lambda>c4.
     res_bind (Watch m \<lparr>wt_Source = FilterKind,
         wt_Handler = EnqueueRequestsFromMapFunc (newEnvoyFilterMapper K),
         wt_Predicates = own_filters cfg\<rparr> c4) (\<lambda>c5.
     or_err (mg_Add m c5) c5)))))"

definition registerWorker :: "'c manager \<Rightarrow> 'c kube \<Rightarrow> (go_error, 'c controller) res" where
  "registerWorker m K =
     res_bind (New_unmanaged m ''accesspolicy-worker'') (\<lambda>c1.
     res_bind (Watch m \<lparr>wt_Source = PolicyKind, wt_Handler = EnqueueRequestForObject,
         wt_Predicates = [ResourceVersionChanged]\<rparr> c1) (\<lambda>c2.
     res_bind (Watch m \<lparr>wt_Source = ProviderKind,
         wt_Handler = EnqueueRequestsFromMapFunc (newOpenIdProviderMapper K),
         wt_Predicates = [GenerationChanged]\<rparr> c2) (\<lambda>c3.
     res_bind (Watch m \<lparr>wt_Source = SecretKind,
         wt_Handler = EnqueueRequestsFromMapFunc (newSecretMapper K),
         wt_Predicates = [ResourceVersionChanged]\<rparr> c3) (\<lambda>c4.
     let c5 = c4\<lparr>ct_NeedLeaderElection := False\<rparr> in
     or_err (mg_Add m c5) c5))))"

definition Register_policies ::
  "'c manager \<Rightarrow> 'c kube \<Rightarrow> cfg_controller \<Rightarrow> (go_error, 'c controller list) res" where
  "Register_policies m K cfg =
     wrap_res ''failed making AccessPolicy controller'' []
       (res_bind (or_err (mg_AddToScheme m CoreScheme) ()) (\<lambda>_.
        res_bind (or_err (mg_AddToScheme m NetworkingScheme) ()) (\<lambda>_.
        res_bind (or_err (mg_AddToScheme m ApiScheme) ()) (\<lambda>_.
        res_bind (registerLeader m K cfg) (\<lambda>leader.
        res_bind (registerWorker m K) (\<lambda>worker. Ok [leader, worker]))))))"

definition register_filters ::
  "'c manager \<Rightarrow> 'c kube \<Rightarrow> cfg_controller \<Rightarrow> (go_error, 'c controller) res" where
  "register_filters m K cfg =
     res_bind (New_unmanaged m ''envoyfilter'') (\<lambda>c1.
     res_bind (Watch m \<lparr>wt_Source = FilterKind, wt_Handler = EnqueueRequestForObject,
         wt_Predicates = own_filters cfg\<rparr> c1) (\<lambda>c2.
     res_bind (Watch m \<lparr>wt_Source = PolicyKind,
         wt_Handler = EnqueueRequestsFromMapFunc (Map_filters K cfg),
         wt_Predicates = [ResourceVersionChanged]\<rparr> c2) (\<lambda>c3.
     or_err (mg_Add m c3) c3)))"

definition Register_filters ::
  "'c manager \<Rightarrow> 'c kube \<Rightarrow> cfg_controller \<Rightarrow> (go_error, 'c controller list) res" where
  "Register_filters m K cfg =
     wrap_res ''failed making EnvoyFilter controller'' []
       (res_bind (or_err (mg_AddToScheme m NetworkingScheme) ()) (\<lambda>_.
        res_bind (register_filters m K cfg) (\<lambda>c. Ok [c])))"

definition Register :: "'c manager \<Rightarrow> 'c kube \<Rightarrow> cfg_controller \<Rightarrow> (go_error, 'c controller list) res"
  where
  "Register m K cfg =
     res_bind (Register_policies m K cfg) (\<lambda>cs.
     res_bind (Register_filters m K cfg) (\<lambda>cs'. Ok (cs @ cs')))"

section \<open>Facts\<close>

lemma or_err_Ok_iff [simp]: "or_err e x = Ok y \<longleftrightarrow> e = None \<and> y = x"
  by (cases e) (auto simp: or_err_def)

lemma Map_policies_set:
  "set (Map_policies K namespaced isRelated c obj) =
     {policy_key (po_Policy p) | p ps.
        ListPolicies K c (if namespaced then Some (mo_Namespace obj) else None) = Inr ps
        \<and> p \<in> set ps \<and> isRelated obj (po_Policy p)}"
  by (cases "ListPolicies K c (if namespaced then Some (mo_Namespace obj) else None)")
     (auto simp: Map_policies_def)

text \<open>
  When the registration succeeds there are three controllers; only the worker runs on every
  instance, the others on the elected leader.
\<close>

lemma Register_controllers:
  "Register m K cfg = Ok cs \<Longrightarrow>
     map (\<lambda>c. (ct_Name c, ct_NeedLeaderElection c)) cs =
       [(''accesspolicy-leader'', True), (''accesspolicy-worker'', False), (''envoyfilter'', True)]"
  by (auto simp: Register_def Register_policies_def Register_filters_def registerLeader_def
      registerWorker_def register_filters_def New_unmanaged_def Watch_def Let_def)

text \<open>When the registration succeeds, every kind that a controller watches was made known to the manager.\<close>

lemma Register_watches_known_kinds:
  assumes "Register m K cfg = Ok cs" and "c \<in> set cs" and "w \<in> set (ct_Watches c)"
  shows "\<exists>s. mg_AddToScheme m s = None \<and> kind_of (wt_Source w) \<in> set (scheme_kinds s)"
proof -
  have "mg_AddToScheme m CoreScheme = None" "mg_AddToScheme m NetworkingScheme = None"
    "mg_AddToScheme m ApiScheme = None"
    using assms(1) by (auto simp: Register_def Register_policies_def Register_filters_def)
  moreover have "\<exists>s. kind_of (wt_Source w) \<in> set (scheme_kinds s)"
    by (cases "wt_Source w") (auto simp: api_kinds_def intro: exI [of _ CoreScheme] exI [of _ NetworkingScheme]
        exI [of _ ApiScheme])
  then obtain s where "kind_of (wt_Source w) \<in> set (scheme_kinds s)" by blast
  ultimately show ?thesis by (cases s) auto
qed

end
