(* ===== verification/Policy_Leader.thy ===== *)
theory Policy_Leader
  imports Kube
begin

text \<open>
  The controller that keeps an AccessPolicy in shape (\<^verbatim>\<open>src/controller/accesspolicy\<close>: \<^verbatim>\<open>leader.go\<close>,
  \<^verbatim>\<open>gateway.go\<close>, \<^verbatim>\<open>helpers.go\<close>, \<^verbatim>\<open>envoyfilter.go\<close>). It runs on one instance: it adds the finalizer,
  fills in the defaults, copies the gateway's selector and hosts to the status, makes the token
  secret and creates an EnvoyFilter for the gateway. The source of random bytes and the order of the
  loop over the gateway's selector are parameters.
\<close>

section \<open>Helpers\<close>

fun contains :: "string list \<Rightarrow> string \<Rightarrow> bool" where
  "contains [] target = False"
| "contains (x # xs) target = (if x = target then True else contains xs target)"

fun remove_loop :: "string list \<Rightarrow> string \<Rightarrow> string list \<Rightarrow> string list" where
  "remove_loop [] target kept = kept"
| "remove_loop (x # xs) target kept =
     remove_loop xs target (if x \<noteq> target then kept @ [x] else kept)"

definition remove :: "string list \<Rightarrow> string \<Rightarrow> string list" where
  "remove xs target = remove_loop xs target []"

lemma contains_iff [simp]: "contains xs target \<longleftrightarrow> target \<in> set xs"
  by (induction xs) auto

lemma remove_loop_filter: "remove_loop xs target kept = kept @ filter (\<lambda>x. x \<noteq> target) xs"
  by (induction xs arbitrary: kept) auto

lemma remove_filter [simp]: "remove xs target = filter (\<lambda>x. x \<noteq> target) xs"
  by (simp add: remove_def remove_loop_filter)

section \<open>The gateway\<close>

definition selector :: "gateway \<Rightarrow> string list \<Rightarrow> labels" where
  "selector gw ks =
     fold (\<lambda>k s. case gw_Selector gw k of None \<Rightarrow> s | Some v \<Rightarrow> s(k \<mapsto> v)) ks Map.empty"

text \<open>A port is a pointer; a host of a server without a port dereferences nil.\<close>

fun server_hosts :: "gw_server \<Rightarrow> string list \<Rightarrow> string list \<Rightarrow> (go_error, string list) res" where
  "server_hosts srv [] vhosts = Ok vhosts"
| "server_hosts srv (host # hosts) vhosts =
     (case sv_Port srv of
        None \<Rightarrow> Panic
      | Some port \<Rightarrow>
          server_hosts srv hosts (vhosts @ [host @ '':'' @ decimal (unat port)]))"

fun gateway_hosts :: "gw_server list \<Rightarrow> string list \<Rightarrow> (go_error, string list) res" where
  "gateway_hosts [] vhosts = Ok vhosts"
| "gateway_hosts (srv # srvs) vhosts =
     res_bind (server_hosts srv (sv_Hosts srv) vhosts) (gateway_hosts srvs)"

definition virtualHosts :: "gateway \<Rightarrow> (go_error, string list) res" where
  "virtualHosts gw = gateway_hosts (gw_Servers gw) []"

lemma selector_copies:
  assumes "ranges (gw_Selector gw) ks"
  shows "selector gw ks = gw_Selector gw"
proof -
  have "fold (\<lambda>k s. case gw_Selector gw k of None \<Rightarrow> s | Some v \<Rightarrow> s(k \<mapsto> v)) ks s x =
      (if x \<in> set ks \<and> gw_Selector gw x \<noteq> None then gw_Selector gw x else s x)" for s x
    by (induction ks arbitrary: s) (auto split: option.splits)
  then have "selector gw ks x = gw_Selector gw x" for x
    using ranges_set [OF assms] by (auto simp: selector_def dom_def)
  then show ?thesis by (simp add: fun_eq_iff)
qed

definition hosts_of :: "gw_server \<Rightarrow> string list" where
  "hosts_of srv =
     (case sv_Port srv of
        None \<Rightarrow> [] | Some port \<Rightarrow> map (\<lambda>h. h @ '':'' @ decimal (unat port)) (sv_Hosts srv))"

definition portless :: "gw_server \<Rightarrow> bool" where
  "portless srv \<longleftrightarrow> sv_Port srv = None \<and> sv_Hosts srv \<noteq> []"

lemma server_hosts_result:
  "server_hosts srv hs vhosts =
     (case sv_Port srv of
        None \<Rightarrow> if hs = [] then Ok vhosts else Panic
      | Some port \<Rightarrow> Ok (vhosts @ map (\<lambda>h. h @ '':'' @ decimal (unat port)) hs))"
  by (induction hs arbitrary: vhosts) (auto split: option.splits)

lemma gateway_hosts_result:
  "gateway_hosts srvs vhosts =
     (if \<exists>srv \<in> set srvs. portless srv then Panic else Ok (vhosts @ concat (map hosts_of srvs)))"
  by (induction srvs arbitrary: vhosts)
     (auto simp: server_hosts_result portless_def hosts_of_def split: option.splits)

text \<open>All hosts of all servers with their ports, in order; a host without a port panics.\<close>

lemma virtualHosts_result:
  "virtualHosts gw =
     (if \<exists>srv \<in> set (gw_Servers gw). portless srv then Panic
      else Ok (concat (map hosts_of (gw_Servers gw))))"
  by (simp add: virtualHosts_def gateway_hosts_result)

section \<open>The steps\<close>

record leader_env =
  le_Config :: cfg_controller
  le_rand :: "nat \<Rightarrow> go_error + string"
  le_range_labels :: "labels \<Rightarrow> string list"

definition finalizer :: string where
  "finalizer = ''finalizer.istio-oidc''"

text \<open>\<^verbatim>\<open>sha512.Size\<close>\<close>

definition sha512_Size :: nat where "sha512_Size = 64"

definition policy_event :: "apiAccessPolicy \<Rightarrow> string \<Rightarrow> string \<Rightarrow> string \<Rightarrow> call" where
  "policy_event ap = Event (OnPolicy (policy_key ap))"

definition secret_event :: "secret \<Rightarrow> string \<Rightarrow> string \<Rightarrow> string \<Rightarrow> call" where
  "secret_event sc = Event (OnSecret \<lparr>nn_Namespace = sc_Namespace sc, nn_Name = sc_Name sc\<rparr>)"

definition reconcileSpec :: "'c kube \<Rightarrow> policy_object \<Rightarrow> ('c, policy_object) act" where
  "reconcileSpec K p =
     act_bind (record_calls
         (map (\<lambda>err. policy_event (po_Policy p) ''Warning'' ''Validation'' (Error err))
           (Validate (po_Policy p)))) (\<lambda>_.
     send (UpdatePolicy K) WritePolicy (failed ''failed updating AccessPolicy spec'')
       (p\<lparr>po_Policy := Normalize (po_Policy p)\<rparr>))"

definition gateway_key :: "apiAccessPolicy \<Rightarrow> named" where
  "gateway_key ap = \<lparr>nn_Namespace = ap_Namespace ap, nn_Name = as_Gateway (ap_Spec ap)\<rparr>"

definition reconcileStatus :: "'c kube \<Rightarrow> leader_env \<Rightarrow> policy_object \<Rightarrow> ('c, policy_object) act"
  where
  "reconcileStatus K e p w =
     (case GetGateway K (w_cluster w) (gateway_key (po_Policy p)) of
        Found gw \<Rightarrow>
          (let sel = selector gw (le_range_labels e (gw_Selector gw))
           in (case virtualHosts gw of
                 Ok vhosts \<Rightarrow>
                   send (UpdatePolicyStatus K) WriteStatus (failed ''failed updating AccessPolicy status'')
                     (p\<lparr>po_Policy := (po_Policy p)\<lparr>ap_Status :=
                        \<lparr>st_Ingress = \<lparr>ai_Selector = Some sel\<rparr>, st_VirtualHosts = vhosts\<rparr>\<rparr>\<rparr>) w
               | Err err \<Rightarrow> (w, Err err)
               | Panic \<Rightarrow> (w, Panic)))
      | _ \<Rightarrow>
          act_bind (record_calls
              [policy_event (po_Policy p) ''Warning'' ''MissingGateway'' ''Failed getting gateway''])
            (\<lambda>_. act_return p) w)"

definition secret_key :: "apiAccessPolicy \<Rightarrow> named" where
  "secret_key ap =
     \<lparr>nn_Namespace = ap_Namespace ap, nn_Name = cs_Name (ao_CredentialsSecret (as_OIDC (ap_Spec ap)))\<rparr>"

text \<open>An event on the policy and one on the secret.\<close>

definition both_events ::
  "apiAccessPolicy \<Rightarrow> secret \<Rightarrow> string \<Rightarrow> string \<Rightarrow> string \<Rightarrow> string \<Rightarrow> call list" where
  "both_events ap sc etype reason msg1 msg2 =
     [policy_event ap etype reason msg1, secret_event sc etype reason msg2]"

text \<open>Reading a key of a nil map is reading a missing key; writing one panics.\<close>

definition secret_value :: "secret \<Rightarrow> string \<Rightarrow> string" where
  "secret_value sc k = (case sc_Data sc of None \<Rightarrow> [] | Some d \<Rightarrow> lookup0 [] d k)"

definition write_secret :: "'c kube \<Rightarrow> secret \<Rightarrow> ('c, unit) act" where
  "write_secret K sc =
     act_bind (send (UpdateSecret K) WriteSecret (failed ''failed updating AccessPolicy status'') sc)
       (\<lambda>_. act_return ())"

text \<open>The token secret is made anew unless it has the right length; then the secret is written.\<close>

definition update_secret :: "'c kube \<Rightarrow> leader_env \<Rightarrow> apiAccessPolicy \<Rightarrow> secret \<Rightarrow> ('c, unit) act"
  where
  "update_secret K e ap sc =
     (let key = cs_TokenSecretKey (ao_CredentialsSecret (as_OIDC (ap_Spec ap)))
      in if length (secret_value sc key) \<noteq> sha512_Size then
           (case sc_Data sc of
              None \<Rightarrow> (\<lambda>w. (w, Panic))
            | Some d \<Rightarrow>
                (case le_rand e sha512_Size of
                   Inl err \<Rightarrow> act_fail (failed ''failed creating token secret'' err)
                 | Inr bytes \<Rightarrow>
                     act_bind (record_calls (both_events ap sc ''Normal'' ''GeneratedTokenSecret''
                         ''Generated new token secret'' ''Generated new token secret'')) (\<lambda>_.
                     write_secret K (sc\<lparr>sc_Data := Some (d(key \<mapsto> bytes))\<rparr>))))
         else write_secret K sc)"

definition reconcileSecret :: "'c kube \<Rightarrow> leader_env \<Rightarrow> apiAccessPolicy \<Rightarrow> ('c, unit) act" where
  "reconcileSecret K e ap w =
     (case GetSecret K (w_cluster w) (secret_key ap) of
        Found sc \<Rightarrow>
          (let ref = ao_CredentialsSecret (as_OIDC (ap_Spec ap));
               missing_id = (if length (secret_value sc (cs_ClientIDKey ref)) = 0 then
                   both_events ap sc ''Warning'' ''MissingClientID''
                     ''Credentials secret is missing client ID'' ''Missing client ID'' else []);
               missing_secret = (if length (secret_value sc (cs_ClientSecretKey ref)) = 0 then
                   both_events ap sc ''Warning'' ''MissingClientSecret''
                     ''Credentials secret is missing client secret'' ''Missing client secret'' else [])
           in act_bind (record_calls (missing_id @ missing_secret)) (\<lambda>_. update_secret K e ap sc) w)
      | _ \<Rightarrow>
          record_calls [policy_event ap ''Warning'' ''MissingSecret'' ''Failed getting secret''] w)"

text \<open>\<^verbatim>\<open>envoyfilter.go\<close>: a filter with the selector of the policy's status, still without patches.\<close>

definition newEnvoyFilter :: "cfg_controller \<Rightarrow> apiAccessPolicy \<Rightarrow> envoy_filter" where
  "newEnvoyFilter cfg ap =
     \<lparr>ef_Namespace = IstioRootNamespace cfg, ef_Name = [],
      ef_GenerateName = EnvoyFilterNamePrefix cfg, ef_Labels = EnvoyFilterLabels cfg,
      ef_CreationTimestamp = zero_time,
      ef_WorkloadSelector = Some (ai_Selector (st_Ingress (ap_Status ap))),
      ef_ConfigPatches = []\<rparr>"

text \<open>\<^verbatim>\<open>len\<close> of the selector is zero for the nil map and for the empty one.\<close>

definition no_selector :: "apiAccessPolicy \<Rightarrow> bool" where
  "no_selector ap \<longleftrightarrow>
     (case policy_selector ap of None \<Rightarrow> True | Some s \<Rightarrow> s = Map.empty)"

definition reconcileEnvoyFilter :: "'c kube \<Rightarrow> leader_env \<Rightarrow> apiAccessPolicy \<Rightarrow> ('c, unit) act" where
  "reconcileEnvoyFilter K e ap w =
     (if no_selector ap then (w, Ok ())
      else
        (case ListFilters K (w_cluster w) (IstioRootNamespace (le_Config e))
                (EnvoyFilterLabels (le_Config e)) of
           Inl err \<Rightarrow> (w, Err (failed ''failed listing EnvoyFilters'' err))
         | Inr items \<Rightarrow>
             (let efs = filter (\<lambda>ef. filter_selector ef = ai_Selector (st_Ingress (ap_Status ap))) items
              in if length efs = 0 then
                   act_bind (send (CreateFilter K) NewFilter (failed ''failed creating EnvoyFilter'')
                       (newEnvoyFilter (le_Config e) ap)) (\<lambda>_. act_return ()) w
                 else (w, Ok ()))))"

text \<open>The body for a policy that is not being deleted; each step gets what the last one wrote.\<close>

definition reconcile_live :: "'c kube \<Rightarrow> leader_env \<Rightarrow> policy_object \<Rightarrow> ('c, policy_object) act" where
  "reconcile_live K e p =
     act_bind (reconcileSpec K p) (\<lambda>p1.
     act_bind (reconcileStatus K e p1) (\<lambda>p2.
     act_bind (reconcileSecret K e (po_Policy p2)) (\<lambda>_.
     act_bind (reconcileEnvoyFilter K e (po_Policy p2)) (\<lambda>_.
     act_return p2))))"

definition Reconcile_leader :: "'c kube \<Rightarrow> leader_env \<Rightarrow> named \<Rightarrow> ('c, unit) act" where
  "Reconcile_leader K e req w =
     (case GetPolicy K (w_cluster w) req of
        NotFound \<Rightarrow> (w, Ok ())
      | Failed err \<Rightarrow> (w, Err (failed ''failed getting AccessPolicy'' err))
      | Found p \<Rightarrow>
          act_bind
            (if po_DeletionTimestamp p = zero_time \<and> \<not> contains (po_Finalizers p) finalizer then
               send (UpdatePolicy K) WritePolicy (failed ''failed adding AccessPolicy finalizer'')
                 (p\<lparr>po_Finalizers := po_Finalizers p @ [finalizer]\<rparr>)
             else act_return p) (\<lambda>p1.
          act_bind
            (if po_DeletionTimestamp p1 = zero_time then reconcile_live K e p1 else act_return p1) (\<lambda>p2.
          if po_DeletionTimestamp p2 \<noteq> zero_time \<and> contains (po_Finalizers p2) finalizer then
            act_bind
              (send (UpdatePolicy K) WritePolicy (failed ''failed removing AccessPolicy finalizer'')
                (p2\<lparr>po_Finalizers := remove (po_Finalizers p2) finalizer\<rparr>))
              (\<lambda>_. act_return ())
          else act_return ())) w)"

section \<open>What a step did\<close>

text \<open>
  The laws the leader relies on: those of the API server's updates, that the loop over a gateway's
  selector visits its keys, and that the random source fills the bytes it is given.
\<close>

definition leader_laws :: "'c kube \<Rightarrow> leader_env \<Rightarrow> bool" where
  "leader_laws K e \<longleftrightarrow>
     update_law K
     \<and> (\<forall>c k gw. GetGateway K c k = Found gw \<longrightarrow>
          ranges (gw_Selector gw) (le_range_labels e (gw_Selector gw)))
     \<and> (\<forall>n bs. le_rand e n = Inr bs \<longrightarrow> length bs = n)"

text \<open>The same resource with the same spec, not being deleted.\<close>

definition same_spec :: "policy_object \<Rightarrow> policy_object \<Rightarrow> bool" where
  "same_spec p q \<longleftrightarrow>
     policy_key (po_Policy q) = policy_key (po_Policy p) \<and> ap_Spec (po_Policy q) = ap_Spec (po_Policy p)
     \<and> po_Finalizers q = po_Finalizers p \<and> po_DeletionTimestamp q = po_DeletionTimestamp p"

lemma update_same_spec:
  "leader_laws K e \<Longrightarrow> UpdatePolicy K p c = (c', Inr q) \<Longrightarrow> same_spec p q"
  by (auto simp: leader_laws_def update_law_def same_spec_def)

lemma update_status_same:
  "leader_laws K e \<Longrightarrow> UpdatePolicyStatus K p c = (c', Inr q) \<Longrightarrow> q = p"
  by (auto simp: leader_laws_def update_law_def)

lemma same_spec_keys:
  assumes "same_spec p q"
  shows "gateway_key (po_Policy q) = gateway_key (po_Policy p)"
    and "secret_key (po_Policy q) = secret_key (po_Policy p)"
  using assms by (auto simp: same_spec_def gateway_key_def secret_key_def policy_key_def)

lemma reconcileSpec_Ok:
  assumes "leader_laws K e" and "reconcileSpec K p w = (w', Ok q)"
  shows "\<exists>cs. runs K w w' cs \<and> same_spec (p\<lparr>po_Policy := Normalize (po_Policy p)\<rparr>) q
    \<and> WritePolicy (p\<lparr>po_Policy := Normalize (po_Policy p)\<rparr>) \<in> set cs"
proof -
  obtain w1 where w1: "record_calls (map (\<lambda>err. policy_event (po_Policy p) ''Warning'' ''Validation''
        (Error err)) (Validate (po_Policy p))) w = (w1, Ok ())"
    and s: "send (UpdatePolicy K) WritePolicy (failed ''failed updating AccessPolicy spec'')
        (p\<lparr>po_Policy := Normalize (po_Policy p)\<rparr>) w1 = (w', Ok q)"
    using assms(2) by (auto simp: reconcileSpec_def act_bind_Ok_iff)
  have "same_spec (p\<lparr>po_Policy := Normalize (po_Policy p)\<rparr>) q"
    using s update_same_spec [OF assms(1)] by (auto simp: send_Ok_iff)
  moreover have "runs K w w1 (map (\<lambda>err. policy_event (po_Policy p) ''Warning'' ''Validation'' (Error err))
      (Validate (po_Policy p)))"
    by (rule record_calls_runs [OF w1]) (auto simp: policy_event_def)
  ultimately show ?thesis
    using runs_trans [OF _ send_runs [OF s, of K]] by (intro exI conjI) auto
qed

definition with_status :: "policy_object \<Rightarrow> gateway \<Rightarrow> policy_object" where
  "with_status p gw =
     p\<lparr>po_Policy := (po_Policy p)\<lparr>ap_Status :=
        \<lparr>st_Ingress = \<lparr>ai_Selector = Some (gw_Selector gw)\<rparr>,
         st_VirtualHosts = concat (map hosts_of (gw_Servers gw))\<rparr>\<rparr>\<rparr>"

definition missing_gateway :: "apiAccessPolicy \<Rightarrow> call" where
  "missing_gateway ap = policy_event ap ''Warning'' ''MissingGateway'' ''Failed getting gateway''"

definition missing_secret :: "apiAccessPolicy \<Rightarrow> call" where
  "missing_secret ap = policy_event ap ''Warning'' ''MissingSecret'' ''Failed getting secret''"

lemma same_spec_with_status: "same_spec p (with_status p gw)"
  by (simp add: same_spec_def with_status_def policy_key_def)

lemma reconcileStatus_Ok:
  assumes "leader_laws K e" and "reconcileStatus K e p w = (w', Ok q)"
  shows "(\<exists>gw. GetGateway K (w_cluster w) (gateway_key (po_Policy p)) = Found gw
        \<and> q = with_status p gw \<and> runs K w w' [WriteStatus q])
    \<or> (\<forall>gw. GetGateway K (w_cluster w) (gateway_key (po_Policy p)) \<noteq> Found gw)
      \<and> q = p \<and> runs K w w' [missing_gateway (po_Policy p)]"
proof (cases "GetGateway K (w_cluster w) (gateway_key (po_Policy p))")
  case (Found gw)
  then have "selector gw (le_range_labels e (gw_Selector gw)) = gw_Selector gw"
    using assms(1) by (intro selector_copies) (auto simp: leader_laws_def)
  with Found assms(2)
  have s: "send (UpdatePolicyStatus K) WriteStatus (failed ''failed updating AccessPolicy status'')
      (with_status p gw) w = (w', Ok q)"
    by (auto simp: reconcileStatus_def Let_def virtualHosts_result with_status_def split: if_splits)
  then have "q = with_status p gw"
    using update_status_same [OF assms(1)] by (auto simp: send_Ok_iff)
  with s Found show ?thesis using send_runs [OF s, of K] by simp
qed (use assms(2) in \<open>auto simp: reconcileStatus_def act_bind_Ok_iff runs_def adds_def missing_gateway_def
      policy_event_def\<close>)

definition token_key :: "apiAccessPolicy \<Rightarrow> string" where
  "token_key ap = cs_TokenSecretKey (ao_CredentialsSecret (as_OIDC (ap_Spec ap)))"

lemma write_secret_runs: "write_secret K sc w = (w', r) \<Longrightarrow> runs K w w' [WriteSecret sc]"
  using send_runs [of "UpdateSecret K" WriteSecret "failed ''failed updating AccessPolicy status''" sc w _ _ K]
  by (auto simp: write_secret_def act_bind_def split: prod.splits res.splits)

text \<open>
  A secret with a token secret for \<open>ap\<close> that was made from \<open>sc\<close>: the same one if it had a token secret of the
  right length, and else with a new one under the key for it and nothing else changed.
\<close>

definition with_token_secret :: "apiAccessPolicy \<Rightarrow> secret \<Rightarrow> secret \<Rightarrow> bool" where
  "with_token_secret ap sc sc' \<longleftrightarrow>
     length (secret_value sc' (token_key ap)) = 64
     \<and> (if length (secret_value sc (token_key ap)) = 64 then sc' = sc
        else \<exists>d bytes. sc_Data sc = Some d \<and> sc' = sc\<lparr>sc_Data := Some (d(token_key ap \<mapsto> bytes))\<rparr>)"

lemma both_events_are_events: "ev \<in> set (both_events ap sc t m x y) \<Longrightarrow> \<exists>obj t m n. ev = Event obj t m n"
  by (auto simp: both_events_def policy_event_def secret_event_def)

lemma update_secret_Ok:
  assumes "leader_laws K e" and "update_secret K e ap sc w = (w', Ok ())"
  shows "\<exists>cs sc'. runs K w w' cs \<and> WriteSecret sc' \<in> set cs \<and> with_token_secret ap sc sc'"
proof (cases "length (secret_value sc (token_key ap)) = 64")
  case True
  with assms(2) have "write_secret K sc w = (w', Ok ())"
    by (simp add: update_secret_def sha512_Size_def token_key_def Let_def)
  from write_secret_runs [OF this] True show ?thesis
    by (intro exI [of _ "[WriteSecret sc]"] exI [of _ sc]) (simp add: with_token_secret_def)
next
  case False
  with assms(2) obtain d bytes w1 where d: "sc_Data sc = Some d" "le_rand e 64 = Inr bytes"
    and w1: "record_calls (both_events ap sc ''Normal'' ''GeneratedTokenSecret''
        ''Generated new token secret'' ''Generated new token secret'') w = (w1, Ok ())"
    and s: "write_secret K (sc\<lparr>sc_Data := Some (d(token_key ap \<mapsto> bytes))\<rparr>) w1 = (w', Ok ())"
    by (auto simp: update_secret_def sha512_Size_def token_key_def Let_def act_bind_Ok_iff
        split: option.splits sum.splits)
  have "length bytes = 64" using assms(1) d by (auto simp: leader_laws_def)
  then have "with_token_secret ap sc (sc\<lparr>sc_Data := Some (d(token_key ap \<mapsto> bytes))\<rparr>)"
    using d(1) False by (auto simp: with_token_secret_def secret_value_def)
  moreover have "runs K w w1 (both_events ap sc ''Normal'' ''GeneratedTokenSecret''
      ''Generated new token secret'' ''Generated new token secret'')"
    by (rule record_calls_runs [OF w1]) (blast dest: both_events_are_events)
  ultimately show ?thesis
    using runs_trans [OF _ write_secret_runs [OF s]] by (intro exI conjI) auto
qed

lemma reconcileSecret_Ok:
  assumes "leader_laws K e" and "reconcileSecret K e ap w = (w', Ok ())"
  shows "\<exists>cs. runs K w w' cs
    \<and> (case GetSecret K (w_cluster w) (secret_key ap) of
         Found sc \<Rightarrow> \<exists>sc'. WriteSecret sc' \<in> set cs \<and> with_token_secret ap sc sc'
       | _ \<Rightarrow> missing_secret ap \<in> set cs)"
proof (cases "GetSecret K (w_cluster w) (secret_key ap)")
  case (Found sc)
  define es where "es =
    (if length (secret_value sc (cs_ClientIDKey (ao_CredentialsSecret (as_OIDC (ap_Spec ap))))) = 0 then
       both_events ap sc ''Warning'' ''MissingClientID''
         ''Credentials secret is missing client ID'' ''Missing client ID'' else [])
    @ (if length (secret_value sc (cs_ClientSecretKey (ao_CredentialsSecret (as_OIDC (ap_Spec ap))))) = 0 then
       both_events ap sc ''Warning'' ''MissingClientSecret''
         ''Credentials secret is missing client secret'' ''Missing client secret'' else [])"
  obtain w1 x where w1: "record_calls es w = (w1, Ok x)" and u: "update_secret K e ap sc w1 = (w', Ok ())"
    using assms(2) unfolding reconcileSecret_def es_def by (simp only: Found got.case Let_def act_bind_Ok_iff) blast
  have "runs K w w1 es"
    by (rule record_calls_runs [OF w1]) (auto simp: es_def dest: both_events_are_events split: if_splits)
  from runs_trans [OF this] update_secret_Ok [OF assms(1) u] Found show ?thesis by fastforce
qed (use assms(2) in \<open>auto simp: reconcileSecret_def runs_def adds_def missing_secret_def policy_event_def\<close>)

lemma reconcileEnvoyFilter_Ok:
  assumes "reconcileEnvoyFilter K e ap w = (w', Ok ())"
  shows "\<exists>cs. runs K w w' cs \<and> (no_selector ap \<or>
    (\<exists>items. ListFilters K (w_cluster w) (IstioRootNamespace (le_Config e)) (EnvoyFilterLabels (le_Config e))
        = Inr items
      \<and> ((\<exists>ef \<in> set items. filter_selector ef = policy_selector ap)
         \<or> NewFilter (newEnvoyFilter (le_Config e) ap) \<in> set cs)))"
proof (cases "no_selector ap")
  case True
  with assms show ?thesis by (auto simp: reconcileEnvoyFilter_def intro: runs_refl)
next
  case False
  have sel: "ai_Selector (st_Ingress (ap_Status ap)) = policy_selector ap"
    by (simp add: policy_selector_def GetSelector_def GetIngress_def)
  obtain items where items: "ListFilters K (w_cluster w) (IstioRootNamespace (le_Config e))
      (EnvoyFilterLabels (le_Config e)) = Inr items"
    using assms False by (auto simp: reconcileEnvoyFilter_def split: sum.splits)
  show ?thesis
  proof (cases "\<exists>ef \<in> set items. filter_selector ef = policy_selector ap")
    case True
    then have "filter (\<lambda>ef. filter_selector ef = policy_selector ap) items \<noteq> []"
      by (auto simp: filter_empty_conv)
    with assms False items have "w' = w" by (auto simp: reconcileEnvoyFilter_def sel)
    with True items show ?thesis by (auto intro: runs_refl)
  next
    case none: False
    then have "filter (\<lambda>ef. filter_selector ef = policy_selector ap) items = []"
      by (auto simp: filter_empty_conv)
    with assms False items obtain ef where
      "send (CreateFilter K) NewFilter (failed ''failed creating EnvoyFilter'')
        (newEnvoyFilter (le_Config e) ap) w = (w', Ok ef)"
      by (auto simp: reconcileEnvoyFilter_def sel act_bind_Ok_iff)
    from send_runs [OF this, of K] items show ?thesis by fastforce
  qed
qed

text \<open>
  A live policy as a run leaves it, with the calls \<open>cs\<close> that the run made from the cluster \<open>c0\<close>. The gateway, the
  secret and the filters are looked up in a state the cluster was in during the run: the gateway and
  the secret are the ones the spec names, in the namespace of the policy.
\<close>

definition in_shape ::
  "'c kube \<Rightarrow> leader_env \<Rightarrow> 'c \<Rightarrow> apiAccessPolicy \<Rightarrow> call list \<Rightarrow> apiAccessPolicy \<Rightarrow> bool" where
  "in_shape K e c0 ap cs ap2 \<longleftrightarrow>
     (\<exists>c \<in> seen K c0 cs.
        case GetGateway K c \<lparr>nn_Namespace = ap_Namespace ap, nn_Name = as_Gateway (ap_Spec ap)\<rparr> of
          Found gw \<Rightarrow>
            ap_Status ap2 = \<lparr>st_Ingress = \<lparr>ai_Selector = Some (gw_Selector gw)\<rparr>,
              st_VirtualHosts = concat (map hosts_of (gw_Servers gw))\<rparr>
            \<and> (\<exists>p2. WriteStatus p2 \<in> set cs \<and> po_Policy p2 = ap2)
        | _ \<Rightarrow> missing_gateway ap2 \<in> set cs)
     \<and> (\<exists>c \<in> seen K c0 cs.
          case GetSecret K c \<lparr>nn_Namespace = ap_Namespace ap,
              nn_Name = cs_Name (ao_CredentialsSecret (as_OIDC (ap_Spec ap)))\<rparr> of
            Found sc \<Rightarrow> \<exists>sc'. WriteSecret sc' \<in> set cs \<and> with_token_secret ap2 sc sc'
          | _ \<Rightarrow> missing_secret ap2 \<in> set cs)
     \<and> (no_selector ap2
        \<or> (\<exists>c \<in> seen K c0 cs. \<exists>items.
            ListFilters K c (IstioRootNamespace (le_Config e)) (EnvoyFilterLabels (le_Config e)) = Inr items
            \<and> ((\<exists>ef \<in> set items. filter_selector ef = policy_selector ap2)
               \<or> NewFilter (newEnvoyFilter (le_Config e) ap2) \<in> set cs)))"

lemma in_shape_later:
  assumes shape: "in_shape K e (w_cluster w1) ap ds ap2" and run: "runs K w w1 cs"
  shows "in_shape K e (w_cluster w) ap (cs @ ds) ap2"
proof -
  note later = seen_later [OF run]
  have got: "\<exists>c \<in> seen K (w_cluster w) (cs @ ds). case get c of Found x \<Rightarrow> F' x | _ \<Rightarrow> M'"
    if some: "\<exists>c \<in> seen K (w_cluster w1) ds. case get c of Found x \<Rightarrow> F x | _ \<Rightarrow> M"
      and step: "\<And>x. F x \<Longrightarrow> F' x" and missing: "M \<Longrightarrow> M'"
    for get :: "'a \<Rightarrow> 'x got" and F F' M M'
  proof -
    obtain c where c: "c \<in> seen K (w_cluster w1) ds" "case get c of Found x \<Rightarrow> F x | _ \<Rightarrow> M"
      using some by blast
    from c(2) step missing have "case get c of Found x \<Rightarrow> F' x | _ \<Rightarrow> M'" by (cases "get c") auto
    with later [OF c(1)] show ?thesis by blast
  qed
  show ?thesis
    unfolding in_shape_def
  proof (intro conjI)
    show "\<exists>c \<in> seen K (w_cluster w) (cs @ ds).
        case GetGateway K c \<lparr>nn_Namespace = ap_Namespace ap, nn_Name = as_Gateway (ap_Spec ap)\<rparr> of
          Found gw \<Rightarrow>
            ap_Status ap2 = \<lparr>st_Ingress = \<lparr>ai_Selector = Some (gw_Selector gw)\<rparr>,
              st_VirtualHosts = concat (map hosts_of (gw_Servers gw))\<rparr>
            \<and> (\<exists>p2. WriteStatus p2 \<in> set (cs @ ds) \<and> po_Policy p2 = ap2)
        | _ \<Rightarrow> missing_gateway ap2 \<in> set (cs @ ds)"
      by (rule got [OF shape [unfolded in_shape_def, THEN conjunct1]]) auto
    show "\<exists>c \<in> seen K (w_cluster w) (cs @ ds). case GetSecret K c \<lparr>nn_Namespace = ap_Namespace ap,
              nn_Name = cs_Name (ao_CredentialsSecret (as_OIDC (ap_Spec ap)))\<rparr> of
            Found sc \<Rightarrow> \<exists>sc'. WriteSecret sc' \<in> set (cs @ ds) \<and> with_token_secret ap2 sc sc'
          | _ \<Rightarrow> missing_secret ap2 \<in> set (cs @ ds)"
      by (rule got [OF shape [unfolded in_shape_def, THEN conjunct2, THEN conjunct1]]) auto
    show "no_selector ap2 \<or> (\<exists>c \<in> seen K (w_cluster w) (cs @ ds). \<exists>items.
        ListFilters K c (IstioRootNamespace (le_Config e)) (EnvoyFilterLabels (le_Config e)) = Inr items
        \<and> ((\<exists>ef \<in> set items. filter_selector ef = policy_selector ap2)
           \<or> NewFilter (newEnvoyFilter (le_Config e) ap2) \<in> set (cs @ ds)))"
      using shape [unfolded in_shape_def, THEN conjunct2, THEN conjunct2] later
      by (fastforce simp del: fold_append)
  qed
qed

abbreviation normalized :: "policy_object \<Rightarrow> policy_object" where
  "normalized q \<equiv> q\<lparr>po_Policy := Normalize (po_Policy q)\<rparr>"

lemma normalized_gateway_key:
  "same_spec (normalized q) r \<Longrightarrow> gateway_key (po_Policy r) = gateway_key (po_Policy q)"
  by (simp add: same_spec_def gateway_key_def policy_key_def Normalize_def Normalize_spec_def)

lemma normalized_secret_key:
  "same_spec (normalized q) r \<Longrightarrow> secret_key (po_Policy r) = secret_key (po_Policy q)"
  by (simp add: same_spec_def secret_key_def policy_key_def Normalize_def Normalize_spec_def
      Normalize_oidc_def Normalize_secret_def)

lemma reconcile_live_Ok:
  assumes "leader_laws K e" and "reconcile_live K e q w = (w', Ok p2)"
  shows "\<exists>cs. runs K w w' cs \<and> WritePolicy (normalized q) \<in> set cs \<and> same_spec (normalized q) p2
    \<and> in_shape K e (w_cluster w) (po_Policy q) cs (po_Policy p2)"
proof -
  obtain r w1 w2 w3 where s1: "reconcileSpec K q w = (w1, Ok r)"
    and s2: "reconcileStatus K e r w1 = (w2, Ok p2)"
    and s3: "reconcileSecret K e (po_Policy p2) w2 = (w3, Ok ())"
    and s4: "reconcileEnvoyFilter K e (po_Policy p2) w3 = (w', Ok ())"
    using assms(2) by (auto simp: reconcile_live_def act_bind_Ok_iff)
  obtain cs1 where cs1: "runs K w w1 cs1" "same_spec (normalized q) r" "WritePolicy (normalized q) \<in> set cs1"
    using reconcileSpec_Ok [OF assms(1) s1] by blast
  obtain cs2 where cs2: "runs K w1 w2 cs2" "same_spec r p2"
    "case GetGateway K (w_cluster w1) (gateway_key (po_Policy q)) of
       Found gw \<Rightarrow> ap_Status (po_Policy p2) = \<lparr>st_Ingress = \<lparr>ai_Selector = Some (gw_Selector gw)\<rparr>,
           st_VirtualHosts = concat (map hosts_of (gw_Servers gw))\<rparr> \<and> WriteStatus p2 \<in> set cs2
     | _ \<Rightarrow> missing_gateway (po_Policy p2) \<in> set cs2"
    using reconcileStatus_Ok [OF assms(1) s2] same_spec_with_status [of r]
      normalized_gateway_key [OF cs1(2)]
    by (auto simp: with_status_def same_spec_def split: got.splits)
  have keys: "same_spec (normalized q) p2" using cs1(2) cs2(2) by (simp add: same_spec_def)
  obtain cs3 where cs3: "runs K w2 w3 cs3"
    "case GetSecret K (w_cluster w2) (secret_key (po_Policy q)) of
       Found sc \<Rightarrow> \<exists>sc'. WriteSecret sc' \<in> set cs3 \<and> with_token_secret (po_Policy p2) sc sc'
     | _ \<Rightarrow> missing_secret (po_Policy p2) \<in> set cs3"
    using reconcileSecret_Ok [OF assms(1) s3] normalized_secret_key [OF keys] by auto
  obtain cs4 where cs4: "runs K w3 w' cs4" "no_selector (po_Policy p2)
       \<or> (\<exists>items. ListFilters K (w_cluster w3) (IstioRootNamespace (le_Config e))
             (EnvoyFilterLabels (le_Config e)) = Inr items
           \<and> ((\<exists>ef \<in> set items. filter_selector ef = policy_selector (po_Policy p2))
              \<or> NewFilter (newEnvoyFilter (le_Config e) (po_Policy p2)) \<in> set cs4))"
    using reconcileEnvoyFilter_Ok [OF s4] by blast
  let ?cs = "cs1 @ cs2 @ cs3 @ cs4"
  note r2 = runs_trans [OF cs1(1) cs2(1)]
  note r3 = runs_trans [OF r2 cs3(1)]
  have at: "w_cluster w1 \<in> seen K (w_cluster w) ?cs" "w_cluster w2 \<in> seen K (w_cluster w) ?cs"
    "w_cluster w3 \<in> seen K (w_cluster w) ?cs"
    using runs_seen [OF cs1(1), of "cs2 @ cs3 @ cs4"] runs_seen [OF r2, of "cs3 @ cs4"]
      runs_seen [OF r3, of cs4] by simp_all
  have "in_shape K e (w_cluster w) (po_Policy q) ?cs (po_Policy p2)"
    unfolding in_shape_def
  proof (intro conjI)
    show "\<exists>c \<in> seen K (w_cluster w) ?cs. case GetGateway K c \<lparr>nn_Namespace = ap_Namespace (po_Policy q),
          nn_Name = as_Gateway (ap_Spec (po_Policy q))\<rparr> of
        Found gw \<Rightarrow> ap_Status (po_Policy p2) = \<lparr>st_Ingress = \<lparr>ai_Selector = Some (gw_Selector gw)\<rparr>,
            st_VirtualHosts = concat (map hosts_of (gw_Servers gw))\<rparr>
          \<and> (\<exists>p. WriteStatus p \<in> set ?cs \<and> po_Policy p = po_Policy p2)
      | _ \<Rightarrow> missing_gateway (po_Policy p2) \<in> set ?cs"
      using cs2(3) by (intro bexI [OF _ at(1)]) (auto simp: gateway_key_def split: got.splits)
    show "\<exists>c \<in> seen K (w_cluster w) ?cs. case GetSecret K c \<lparr>nn_Namespace = ap_Namespace (po_Policy q),
          nn_Name = cs_Name (ao_CredentialsSecret (as_OIDC (ap_Spec (po_Policy q))))\<rparr> of
        Found sc \<Rightarrow> \<exists>sc'. WriteSecret sc' \<in> set ?cs \<and> with_token_secret (po_Policy p2) sc sc'
      | _ \<Rightarrow> missing_secret (po_Policy p2) \<in> set ?cs"
      using cs3(2) by (intro bexI [OF _ at(2)]) (auto simp: secret_key_def split: got.splits)
    show "no_selector (po_Policy p2) \<or> (\<exists>c \<in> seen K (w_cluster w) ?cs. \<exists>items.
        ListFilters K c (IstioRootNamespace (le_Config e)) (EnvoyFilterLabels (le_Config e)) = Inr items
        \<and> ((\<exists>ef \<in> set items. filter_selector ef = policy_selector (po_Policy p2))
           \<or> NewFilter (newEnvoyFilter (le_Config e) (po_Policy p2)) \<in> set ?cs))"
      using cs4(2) at(3) by auto
  qed
  then show ?thesis
    using runs_trans [OF r3 cs4(1)] cs1(3) keys by (intro exI [of _ ?cs]) auto
qed

lemma add_finalizer_Ok:
  assumes "leader_laws K e" and "po_DeletionTimestamp p = zero_time"
    and "(if po_DeletionTimestamp p = zero_time \<and> \<not> contains (po_Finalizers p) finalizer then
        send (UpdatePolicy K) WritePolicy (failed ''failed adding AccessPolicy finalizer'')
          (p\<lparr>po_Finalizers := po_Finalizers p @ [finalizer]\<rparr>) else act_return p) w = (w', Ok q)"
  shows "\<exists>cs. runs K w w' cs \<and> po_DeletionTimestamp q = zero_time \<and> finalizer \<in> set (po_Finalizers q)
    \<and> ap_Spec (po_Policy q) = ap_Spec (po_Policy p) \<and> policy_key (po_Policy q) = policy_key (po_Policy p)"
proof (cases "finalizer \<in> set (po_Finalizers p)")
  case True
  with assms(2,3) show ?thesis by (auto intro: runs_refl)
next
  case False
  with assms(2,3) have s: "send (UpdatePolicy K) WritePolicy
      (failed ''failed adding AccessPolicy finalizer'')
      (p\<lparr>po_Finalizers := po_Finalizers p @ [finalizer]\<rparr>) w = (w', Ok q)" by simp
  then have "same_spec (p\<lparr>po_Finalizers := po_Finalizers p @ [finalizer]\<rparr>) q"
    using update_same_spec [OF assms(1)] by (auto simp: send_Ok_iff)
  with assms(2) send_runs [OF s, of K] show ?thesis by (auto simp: same_spec_def)
qed

lemma Reconcile_leader_found:
  assumes "GetPolicy K (w_cluster w) req = Found p" and "Reconcile_leader K e req w = (w', Ok ())"
  shows "\<exists>q w1. (if po_DeletionTimestamp p = zero_time \<and> \<not> contains (po_Finalizers p) finalizer then
        send (UpdatePolicy K) WritePolicy (failed ''failed adding AccessPolicy finalizer'')
          (p\<lparr>po_Finalizers := po_Finalizers p @ [finalizer]\<rparr>) else act_return p) w = (w1, Ok q)
    \<and> act_bind (if po_DeletionTimestamp q = zero_time then reconcile_live K e q else act_return q)
        (\<lambda>p2. if po_DeletionTimestamp p2 \<noteq> zero_time \<and> contains (po_Finalizers p2) finalizer then
            act_bind
              (send (UpdatePolicy K) WritePolicy (failed ''failed removing AccessPolicy finalizer'')
                (p2\<lparr>po_Finalizers := remove (po_Finalizers p2) finalizer\<rparr>))
              (\<lambda>_. act_return ())
          else act_return ()) w1 = (w', Ok ())"
  using assms unfolding Reconcile_leader_def by (simp only: got.case act_bind_Ok_iff) blast

section \<open>Panics\<close>

lemma snd_bind_Panic:
  "snd (act_bind m f w) = Panic \<longleftrightarrow>
     snd (m w) = Panic \<or> (\<exists>w1 x. m w = (w1, Ok x) \<and> snd (f x w1) = Panic)"
  using act_bind_Panic_iff [of m f w] by (metis prod.collapse snd_conv)

lemma snd_send: "snd (send write_it mk_call on_err x v) \<noteq> Panic"
  by (metis prod.collapse send_not_Panic)

lemma snd_record_calls: "snd (record_calls cs w) \<noteq> Panic"
  by (simp add: record_calls_def)

lemma snd_act_return: "snd (act_return x w) \<noteq> Panic"
  by (simp add: act_return_def)

lemmas never_panics = snd_bind_Panic snd_send snd_record_calls snd_act_return

lemma reconcileSpec_no_panic: "snd (reconcileSpec K p w) \<noteq> Panic"
  by (simp add: reconcileSpec_def never_panics)

lemma reconcileEnvoyFilter_no_panic: "snd (reconcileEnvoyFilter K e ap w) \<noteq> Panic"
  by (simp add: reconcileEnvoyFilter_def Let_def never_panics split: sum.splits)

text \<open>A gateway server with a host and without a port, and a secret with no data at all.\<close>

definition portless_gateway :: "'c kube \<Rightarrow> 'c \<Rightarrow> apiAccessPolicy \<Rightarrow> bool" where
  "portless_gateway K c ap \<longleftrightarrow>
     (\<exists>gw. GetGateway K c \<lparr>nn_Namespace = ap_Namespace ap, nn_Name = as_Gateway (ap_Spec ap)\<rparr> = Found gw
        \<and> (\<exists>srv \<in> set (gw_Servers gw). sv_Port srv = None \<and> sv_Hosts srv \<noteq> []))"

definition dataless_secret :: "'c kube \<Rightarrow> 'c \<Rightarrow> apiAccessPolicy \<Rightarrow> bool" where
  "dataless_secret K c ap \<longleftrightarrow>
     (\<exists>sc. GetSecret K c \<lparr>nn_Namespace = ap_Namespace ap,
          nn_Name = cs_Name (ao_CredentialsSecret (as_OIDC (ap_Spec ap)))\<rparr> = Found sc
        \<and> sc_Data sc = None)"

lemma reconcileStatus_Panic:
  "snd (reconcileStatus K e p w) = Panic \<longleftrightarrow> portless_gateway K (w_cluster w) (po_Policy p)"
  by (auto simp: reconcileStatus_def portless_gateway_def gateway_key_def virtualHosts_result portless_def
      Let_def never_panics split: got.splits)

lemma reconcileSecret_Panic:
  "snd (reconcileSecret K e ap w) = Panic \<longleftrightarrow> dataless_secret K (w_cluster w) ap"
proof -
  have "snd (write_secret K sc v) \<noteq> Panic" for sc and v :: "'a world"
    by (simp add: write_secret_def never_panics)
  then have "snd (update_secret K e ap sc v) = Panic \<longleftrightarrow> sc_Data sc = None" for sc v
    by (auto simp: update_secret_def Let_def sha512_Size_def secret_value_def never_panics act_fail_def
        split: option.splits sum.splits)
  then show ?thesis
    by (auto simp: reconcileSecret_def dataless_secret_def secret_key_def never_panics Let_def
        snd_record_calls [unfolded record_calls_def] split: got.splits)
qed

text \<open>The state of the cluster and the policy after the first write, and after the step for the status.\<close>

definition with_finalizer :: "'c kube \<Rightarrow> 'c \<Rightarrow> policy_object \<Rightarrow> 'c \<Rightarrow> policy_object \<Rightarrow> bool" where
  "with_finalizer K c p c1 q \<longleftrightarrow>
     (if finalizer \<in> set (po_Finalizers p) then c1 = c \<and> q = p
      else UpdatePolicy K (p\<lparr>po_Finalizers := po_Finalizers p @ [finalizer]\<rparr>) c = (c1, Inr q))"

definition status_left :: "'c kube \<Rightarrow> leader_env \<Rightarrow> 'c \<Rightarrow> policy_object \<Rightarrow> 'c \<Rightarrow> policy_object \<Rightarrow> bool" where
  "status_left K e c r c1 s \<longleftrightarrow>
     (case GetGateway K c \<lparr>nn_Namespace = ap_Namespace (po_Policy r),
          nn_Name = as_Gateway (ap_Spec (po_Policy r))\<rparr> of
        Found gw \<Rightarrow>
          UpdatePolicyStatus K (r\<lparr>po_Policy := (po_Policy r)\<lparr>ap_Status :=
             \<lparr>st_Ingress = \<lparr>ai_Selector = Some (selector gw (le_range_labels e (gw_Selector gw)))\<rparr>,
              st_VirtualHosts = concat (map hosts_of (gw_Servers gw))\<rparr>\<rparr>\<rparr>) c = (c1, Inr s)
      | _ \<Rightarrow> c1 = c \<and> s = r)"

lemma reconcileSpec_reaches:
  "(\<exists>w1. reconcileSpec K q w = (w1, Ok r) \<and> w_cluster w1 = c) \<longleftrightarrow>
     UpdatePolicy K (normalized q) (w_cluster w) = (c, Inr r)"
  by (auto simp: reconcileSpec_def act_bind_Ok_iff send_Ok_iff)

lemma reconcileStatus_reaches:
  "(\<exists>w1. reconcileStatus K e r w = (w1, Ok s) \<and> w_cluster w1 = c) \<longleftrightarrow>
     \<not> portless_gateway K (w_cluster w) (po_Policy r) \<and> status_left K e (w_cluster w) r c s"
  by (auto simp: reconcileStatus_def portless_gateway_def status_left_def gateway_key_def
      virtualHosts_result portless_def Let_def act_bind_Ok_iff send_Ok_iff split: got.splits)

text \<open>What holds after some successful run of a step, told by where the step can get to.\<close>

lemma reaches_ex:
  assumes "\<And>x c. (\<exists>w1. m = (w1, Ok x) \<and> w_cluster w1 = c) \<longleftrightarrow> R c x"
  shows "(\<exists>w1 x. m = (w1, Ok x) \<and> P (w_cluster w1) x) \<longleftrightarrow> (\<exists>c x. R c x \<and> P c x)"
  unfolding assms [symmetric] by blast

lemma reconcile_live_Panic:
  "snd (reconcile_live K e q w) = Panic \<longleftrightarrow>
     (\<exists>c2 r. UpdatePolicy K (normalized q) (w_cluster w) = (c2, Inr r)
        \<and> (portless_gateway K c2 (po_Policy r)
           \<or> (\<exists>c3 s. status_left K e c2 r c3 s \<and> dataless_secret K c3 (po_Policy s))))"
proof -
  have status: "(\<exists>w2 s. reconcileStatus K e r w1 = (w2, Ok s) \<and> dataless_secret K (w_cluster w2) (po_Policy s))
      \<longleftrightarrow> \<not> portless_gateway K (w_cluster w1) (po_Policy r)
        \<and> (\<exists>c3 s. status_left K e (w_cluster w1) r c3 s \<and> dataless_secret K c3 (po_Policy s))" for r w1
    using reaches_ex [OF reconcileStatus_reaches, of K e r w1 "\<lambda>c s. dataless_secret K c (po_Policy s)"] by blast
  have "snd (reconcile_live K e q w) = Panic \<longleftrightarrow>
      (\<exists>w1 r. reconcileSpec K q w = (w1, Ok r)
         \<and> (portless_gateway K (w_cluster w1) (po_Policy r)
            \<or> (\<exists>w2 s. reconcileStatus K e r w1 = (w2, Ok s) \<and> dataless_secret K (w_cluster w2) (po_Policy s))))"
    by (simp add: reconcile_live_def snd_bind_Panic reconcileSpec_no_panic reconcileStatus_Panic
        reconcileSecret_Panic reconcileEnvoyFilter_no_panic snd_act_return)
  also have "\<dots> \<longleftrightarrow>
      (\<exists>w1 r. reconcileSpec K q w = (w1, Ok r)
         \<and> (portless_gateway K (w_cluster w1) (po_Policy r)
            \<or> (\<exists>c3 s. status_left K e (w_cluster w1) r c3 s \<and> dataless_secret K c3 (po_Policy s))))"
    by (simp only: status) blast
  finally show ?thesis
    using reaches_ex [OF reconcileSpec_reaches, of K q w "\<lambda>c2 r. portless_gateway K c2 (po_Policy r)
      \<or> (\<exists>c3 s. status_left K e c2 r c3 s \<and> dataless_secret K c3 (po_Policy s))"] by blast
qed

section \<open>Claims\<close>


definition demo_leader :: leader_env where
  "demo_leader =
     \<lparr>le_Config = demo_controller, le_rand = \<lambda>n. Inr (replicate n CHR ''r''),
      le_range_labels = \<lambda>m. [''istio'']\<rparr>"

lemma demo_leader_laws: "leader_laws (demo_kube ps data efs) demo_leader"
  unfolding leader_laws_def
proof (intro conjI allI impI)
  fix c k gw
  assume "GetGateway (demo_kube ps data efs) c k = Found gw"
  then show "ranges (gw_Selector gw) (le_range_labels demo_leader (gw_Selector gw))"
    by (auto simp: demo_leader_def demo_kube_def demo_gateway_def ranges_def split: if_splits)
qed (auto simp: demo_update_law demo_leader_def)

lemmas leader_eval =
  Reconcile_leader_def reconcile_live_def reconcileSpec_def reconcileStatus_def reconcileSecret_def
  update_secret_def reconcileEnvoyFilter_def write_secret_def act_bind_def act_return_def send_def
  record_calls_def gateway_key_def secret_key_def policy_key_def virtualHosts_result portless_def
  secret_value_def sha512_Size_def both_events_def Normalize_def Normalize_spec_def
  Normalize_oidc_def Normalize_secret_def Let_def

lemmas demo_objects =
  demo_leader_def demo_kube_def demo_world_def demo_object_def demo_policy_def demo_secret_def
  demo_gateway_def

lemma demo_leader_run:
  "snd (Reconcile_leader (demo_kube [demo_object] (Some demo_secret) []) demo_leader
     (policy_key demo_policy) demo_world) = Ok ()"
  by (simp add: leader_eval demo_objects)


text \<open>
  C30: A policy that is being deleted is only released: when it has the finalizer, the one call is the
  update that takes the finalizer off and keeps the other finalizers and everything else, and the
  result is an error exactly when this update fails; without the finalizer nothing is done. It never
  panics.
\<close>

theorem leader_releases_deleted:
  assumes "GetPolicy K (w_cluster w) req = Found p" and "po_DeletionTimestamp p \<noteq> zero_time"
    and "Reconcile_leader K e req w = (w', r)"
    and "released = p\<lparr>po_Finalizers := filter (\<lambda>f. f \<noteq> finalizer) (po_Finalizers p)\<rparr>"
  shows "adds w w' (if finalizer \<in> set (po_Finalizers p) then [WritePolicy released] else [])
    \<and> r \<noteq> Panic
    \<and> (r = Ok () \<longleftrightarrow> finalizer \<notin> set (po_Finalizers p)
         \<or> (\<exists>q. snd (UpdatePolicy K released (w_cluster w)) = Inr q))"
proof (cases "finalizer \<in> set (po_Finalizers p)")
  case True
  with assms have run: "act_bind
      (send (UpdatePolicy K) WritePolicy (failed ''failed removing AccessPolicy finalizer'') released)
      (\<lambda>_. act_return ()) w = (w', r)"
    by (simp add: Reconcile_leader_def)
  obtain w1 s where s: "send (UpdatePolicy K) WritePolicy
      (failed ''failed removing AccessPolicy finalizer'') released w = (w1, s)" by fastforce
  have "w' = w1 \<and> r \<noteq> Panic \<and> (r = Ok () \<longleftrightarrow> (\<exists>q. s = Ok q))"
    using run s by (cases s) (auto simp: act_bind_def)
  moreover have "(\<exists>q. s = Ok q) \<longleftrightarrow> (\<exists>q. snd (UpdatePolicy K released (w_cluster w)) = Inr q)"
    using s by (auto simp: send_def split: prod.splits sum.splits)
  ultimately show ?thesis using send_adds [OF s] True by simp
next
  case False
  with assms show ?thesis by (auto simp: Reconcile_leader_def adds_refl)
qed

theorem leader_releases_deleted_witness:
  "\<exists>w'. Reconcile_leader (demo_kube [demo_object\<lparr>po_Finalizers := [''other'', finalizer],
         po_DeletionTimestamp := 1\<rparr>] None []) demo_leader (policy_key demo_policy) demo_world = (w', Ok ())
     \<and> w_calls w' =
         [WritePolicy (demo_object\<lparr>po_Finalizers := [''other''], po_DeletionTimestamp := 1\<rparr>)]"
proof -
  let ?p = "demo_object\<lparr>po_Finalizers := [''other'', finalizer], po_DeletionTimestamp := 1\<rparr>"
  let ?K = "demo_kube [?p] None []"
  have get: "GetPolicy ?K (w_cluster demo_world) (policy_key demo_policy) = Found ?p"
    by (simp add: demo_kube_def demo_object_def)
  have up: "snd (UpdatePolicy (demo_kube ps data efs) q c) = Inr q" for ps data efs q c
    by (simp add: demo_kube_def)
  obtain w' r where run: "Reconcile_leader ?K demo_leader (policy_key demo_policy) demo_world = (w', r)"
    by fastforce
  from leader_releases_deleted [OF get _ run refl] show ?thesis
    using run by (auto simp: adds_def demo_world_def up finalizer_def)
qed

text \<open>
  C26: When the leader panics: exactly for a policy that is there and is not being deleted, whose writes up to
  the panic the API server accepts, when the gateway it names then has a server with a host and without a
  port, or when the status was written (or the gateway is not there) and the secret it names is there and has no
  data at all, a nil map that the new token secret is written to. No other step panics, whatever the
  cluster holds.
\<close>

theorem leader_panics_iff:
  "snd (Reconcile_leader K e req w) = Panic \<longleftrightarrow>
     (\<exists>p c1 q c2 r. GetPolicy K (w_cluster w) req = Found p \<and> po_DeletionTimestamp p = zero_time
        \<and> with_finalizer K (w_cluster w) p c1 q \<and> po_DeletionTimestamp q = zero_time
        \<and> UpdatePolicy K (q\<lparr>po_Policy := Normalize (po_Policy q)\<rparr>) c1 = (c2, Inr r)
        \<and> (portless_gateway K c2 (po_Policy r)
           \<or> (\<exists>c3 s. status_left K e c2 r c3 s \<and> dataless_secret K c3 (po_Policy s))))"
proof (cases "GetPolicy K (w_cluster w) req")
  case (Found p)
  define m where "m = (if po_DeletionTimestamp p = zero_time \<and> \<not> contains (po_Finalizers p) finalizer then
      send (UpdatePolicy K) WritePolicy (failed ''failed adding AccessPolicy finalizer'')
        (p\<lparr>po_Finalizers := po_Finalizers p @ [finalizer]\<rparr>) else act_return p)"
  have m: "snd (m w) \<noteq> Panic" by (simp add: m_def never_panics)
  have reaches: "(\<exists>w1. m w = (w1, Ok q) \<and> w_cluster w1 = c1)
      \<longleftrightarrow> po_DeletionTimestamp p \<noteq> zero_time \<and> c1 = w_cluster w \<and> q = p
        \<or> po_DeletionTimestamp p = zero_time \<and> with_finalizer K (w_cluster w) p c1 q" for q c1
    by (auto simp: m_def with_finalizer_def send_Ok_iff)
  define live where "live = (\<lambda>c1 q. \<exists>c2 r. UpdatePolicy K (normalized q) c1 = (c2, Inr r)
      \<and> (portless_gateway K c2 (po_Policy r)
         \<or> (\<exists>c3 s. status_left K e c2 r c3 s \<and> dataless_secret K c3 (po_Policy s))))"
  have "snd (Reconcile_leader K e req w) = Panic \<longleftrightarrow>
      (\<exists>w1 q. m w = (w1, Ok q) \<and> po_DeletionTimestamp q = zero_time \<and> snd (reconcile_live K e q w1) = Panic)"
    unfolding Reconcile_leader_def Found got.case m_def [symmetric]
    by (auto simp: snd_bind_Panic m snd_send snd_act_return)
  also have "\<dots> \<longleftrightarrow>
      (\<exists>w1 q. m w = (w1, Ok q) \<and> po_DeletionTimestamp q = zero_time \<and> live (w_cluster w1) q)"
    by (simp add: reconcile_live_Panic live_def)
  also have "\<dots> \<longleftrightarrow> (\<exists>c1 q. (po_DeletionTimestamp p \<noteq> zero_time \<and> c1 = w_cluster w \<and> q = p
        \<or> po_DeletionTimestamp p = zero_time \<and> with_finalizer K (w_cluster w) p c1 q)
      \<and> po_DeletionTimestamp q = zero_time \<and> live c1 q)"
    by (rule reaches_ex [OF reaches])
  also have "\<dots> \<longleftrightarrow> (\<exists>c1 q. po_DeletionTimestamp p = zero_time \<and> with_finalizer K (w_cluster w) p c1 q
      \<and> po_DeletionTimestamp q = zero_time \<and> live c1 q)"
    by blast
  finally show ?thesis
    using Found by (simp add: live_def)
qed (simp_all add: Reconcile_leader_def)

end
