(* ===== verification/Policy_Worker.thy ===== *)
theory Policy_Worker
  imports Policy_Leader
begin

text \<open>
  The controller that hands the policies to the auth server (\<^verbatim>\<open>src/controller/accesspolicy/worker.go\<close>).
  It runs on every instance: for a policy it reads the provider and the credentials, converts all
  three and stores the result. The HTTP client, the JSON decoder and the Unicode tables that the
  conversion of a provider needs are parameters.
\<close>

record 'b worker_env =
  we_unicode :: unicode_tables
  we_http_get :: "string \<Rightarrow> 'b http_outcome"
  we_decode :: "'b \<Rightarrow> go_error + openIdConfiguration"

section \<open>The reconciler\<close>

text \<open>The provider a policy names: without a namespace, one in the namespace of the policy.\<close>

definition provider_key :: "apiAccessPolicy \<Rightarrow> named option" where
  "provider_key ap =
     (case FindSubmatch provider_re (ao_Provider (as_OIDC (ap_Spec ap))) of
        None \<Rightarrow> None
      | Some parts \<Rightarrow>
          (let ns = lookup0 [] parts 1
           in Some \<lparr>nn_Namespace = (if ns = [] then ap_Namespace ap else ns),
                    nn_Name = lookup0 [] parts 2\<rparr>))"

definition data_map :: "secret \<Rightarrow> secret_data" where
  "data_map sc = (case sc_Data sc of None \<Rightarrow> Map.empty | Some d \<Rightarrow> d)"

definition warn :: "call \<Rightarrow> ('c, unit) act" where
  "warn ev = record_calls [ev]"

definition provider_event :: "apiOpenIDProvider \<Rightarrow> string \<Rightarrow> string \<Rightarrow> string \<Rightarrow> call" where
  "provider_event op =
     Event (OnProvider \<lparr>nn_Namespace = api_op_namespace op, nn_Name = api_op_name op\<rparr>)"

definition reconcileAuth :: "'c kube \<Rightarrow> 'b worker_env \<Rightarrow> apiAccessPolicy \<Rightarrow> ('c, unit) act" where
  "reconcileAuth K e ap w =
     (case provider_key ap of
        None \<Rightarrow>
          warn (policy_event ap ''Warning'' ''InvalidProvider''
            ''OpenID provider is not a valid identifier'') w
      | Some key \<Rightarrow>
     (case GetProvider K (w_cluster w) key of
        Found op \<Rightarrow>
     (case GetSecret K (w_cluster w) (secret_key ap) of
        Found cred \<Rightarrow>
     (case New_policy ap (Some (data_map cred)) of
        Err err \<Rightarrow> warn (policy_event ap ''Warning'' ''Invalid'' ''Invalid AccessPolicy'') w
      | Panic \<Rightarrow> (w, Panic)
      | Ok newAp \<Rightarrow>
     (case New_provider (we_unicode e) (we_http_get e) (we_decode e) op of
        Err err \<Rightarrow> warn (provider_event op ''Warning'' ''Invalid'' ''Invalid OpenIDProvider'') w
      | Panic \<Rightarrow> (w, Panic)
      | Ok newOp \<Rightarrow>
          (w\<lparr>w_policies := Update_policy
               (newAp\<lparr>pol_Oidc := (pol_Oidc newAp)\<lparr>oi_Provider := newOp\<rparr>\<rparr>) (w_policies w)\<rparr>, Ok ())))
      | _ \<Rightarrow>
          warn (policy_event ap ''Warning'' ''MissingCredentials'' ''Failed getting credentials secret'') w)
      | _ \<Rightarrow>
          warn (policy_event ap ''Warning'' ''MissingProvider'' ''Failed getting OpenID provider'') w))"

definition deleteAuth :: "apiAccessPolicy \<Rightarrow> ('c, unit) act" where
  "deleteAuth ap w = (w\<lparr>w_policies := Delete_policy (ap_Name ap) (w_policies w)\<rparr>, Ok ())"

definition Reconcile_worker :: "'c kube \<Rightarrow> 'b worker_env \<Rightarrow> named \<Rightarrow> ('c, unit) act" where
  "Reconcile_worker K e req w =
     (case GetPolicy K (w_cluster w) req of
        NotFound \<Rightarrow> (w, Ok ())
      | Failed err \<Rightarrow> (w, Err (failed ''failed getting AccessPolicy'' err))
      | Found p \<Rightarrow>
          (if po_DeletionTimestamp p = zero_time then reconcileAuth K e (po_Policy p) w
           else deleteAuth (po_Policy p) w))"

text \<open>
  Runs of the worker: reconciliations of any requests, between which the cluster changes in any way.
\<close>

inductive worker_runs :: "'c kube \<Rightarrow> 'b worker_env \<Rightarrow> 'c world \<Rightarrow> 'c world \<Rightarrow> bool"
  for K :: "'c kube" and e :: "'b worker_env" where
  refl: "worker_runs K e w w"
| reconcile: "worker_runs K e w w' \<Longrightarrow> worker_runs K e w (fst (Reconcile_worker K e req w'))"
| change: "worker_runs K e w w' \<Longrightarrow> worker_runs K e w (w'\<lparr>w_cluster := c\<rparr>)"

section \<open>Facts\<close>

lemma provider_key_cut:
  "provider_key ap =
     (case cut (CHR ''/'') (ao_Provider (as_OIDC (ap_Spec ap))) of
        (a, None) \<Rightarrow>
          if name_part a then Some \<lparr>nn_Namespace = ap_Namespace ap, nn_Name = a\<rparr> else None
      | (a, Some b) \<Rightarrow>
          if namespace_part a \<and> name_part b then Some \<lparr>nn_Namespace = a, nn_Name = b\<rparr> else None)"
  by (auto simp: provider_key_def provider_match Let_def namespace_part_def
      split: prod.splits option.splits)

lemma New_policy_Name: "New_policy ap s = Ok pol \<Longrightarrow> pol_Name pol = ap_Namespace ap @ ''/'' @ ap_Name ap"
  by (auto simp: New_policy_def convert_policy_def split: prod.splits)

lemma New_policy_not_Panic [simp]: "New_policy ap s \<noteq> Panic"
  using new_policy_succeeds_iff by blast

text \<open>The secret that the spec of a policy names for its credentials, in the namespace of the policy.\<close>

abbreviation named_secret :: "apiAccessPolicy \<Rightarrow> named" where
  "named_secret ap \<equiv>
     \<lparr>nn_Namespace = ap_Namespace ap, nn_Name = cs_Name (ao_CredentialsSecret (as_OIDC (ap_Spec ap)))\<rparr>"

text \<open>Everything that a policy needs, as the cluster has it at one moment.\<close>

definition converted ::
  "'c kube \<Rightarrow> 'b worker_env \<Rightarrow> 'c \<Rightarrow> apiAccessPolicy \<Rightarrow> accessPolicy \<Rightarrow> bool" where
  "converted K e c ap pol \<longleftrightarrow>
     (\<exists>key op sc newAp newOp. provider_key ap = Some key \<and> GetProvider K c key = Found op
        \<and> GetSecret K c (named_secret ap) = Found sc
        \<and> New_policy ap (Some (data_map sc)) = Ok newAp
        \<and> New_provider (we_unicode e) (we_http_get e) (we_decode e) op = Ok newOp
        \<and> pol = newAp\<lparr>pol_Oidc := (pol_Oidc newAp)\<lparr>oi_Provider := newOp\<rparr>\<rparr>)"

lemma converted_Name: "converted K e c ap pol \<Longrightarrow> pol_Name pol = ap_Namespace ap @ ''/'' @ ap_Name ap"
  by (auto simp: converted_def dest: New_policy_Name)

lemma warn_iff [simp]: "warn ev w = (w', r) \<longleftrightarrow> w' = w\<lparr>w_calls := w_calls w @ [ev]\<rparr> \<and> r = Ok ()"
  by (simp add: warn_def)

lemma reconcileAuth_cases:
  assumes "reconcileAuth K e ap w = (w', r)"
  shows "(\<exists>pol. converted K e (w_cluster w) ap pol \<and> r = Ok ()
        \<and> w' = w\<lparr>w_policies := Update_policy pol (w_policies w)\<rparr>)
    \<or> (\<nexists>pol. converted K e (w_cluster w) ap pol)
      \<and> (r = Panic \<and> w' = w \<or> r = Ok () \<and> (\<exists>ev. adds w w' [ev]))"
  using assms
  by (auto simp: reconcileAuth_def converted_def secret_key_def adds_def split: option.splits got.splits res.splits)

lemma converted_unique: "converted K e c ap pol \<Longrightarrow> converted K e c ap pol' \<Longrightarrow> pol' = pol"
  by (auto simp: converted_def)

lemma Update_policy_lookup:
  "Get_policy (Update_policy pol s) = (Get_policy s)(pol_Name pol \<mapsto> pol)"
  by (simp add: Get_policy_def Update_policy_def fun_eq_iff)

text \<open>
  \<open>pol\<close> is the conversion of the object \<open>p\<close>, which a reader of the cluster \<open>c\<close> finds there and which is not
  being deleted.
\<close>

definition converted_from ::
  "'c kube \<Rightarrow> 'b worker_env \<Rightarrow> 'c \<Rightarrow> policy_object \<Rightarrow> accessPolicy \<Rightarrow> bool" where
  "converted_from K e c p pol \<longleftrightarrow>
     (\<exists>req. GetPolicy K c req = Found p) \<and> po_DeletionTimestamp p = zero_time
     \<and> converted K e c (po_Policy p) pol"

text \<open>What a reconciliation does to the policies; it leaves the cluster alone.\<close>

lemma Reconcile_worker_policies:
  "w_policies (fst (Reconcile_worker K e req w)) \<in>
     {w_policies w}
     \<union> {Update_policy pol (w_policies w) | pol p. converted_from K e (w_cluster w) p pol}
     \<union> {Delete_policy (ap_Name (po_Policy p)) (w_policies w) | p.
          GetPolicy K (w_cluster w) req = Found p}"
proof (cases "GetPolicy K (w_cluster w) req")
  case (Found p)
  show ?thesis
  proof (cases "po_DeletionTimestamp p = zero_time")
    case True
    obtain w' r where "reconcileAuth K e (po_Policy p) w = (w', r)" by fastforce
    with reconcileAuth_cases [OF this] Found True show ?thesis
      by (fastforce simp: Reconcile_worker_def adds_def converted_from_def)
  next
    case False
    with Found show ?thesis by (auto simp: Reconcile_worker_def deleteAuth_def)
  qed
qed (simp_all add: Reconcile_worker_def)

lemma Reconcile_worker_cluster [simp]: "w_cluster (fst (Reconcile_worker K e req w)) = w_cluster w"
  by (auto simp: Reconcile_worker_def reconcileAuth_def deleteAuth_def warn_def record_calls_def
      split: got.splits option.splits res.splits)

text \<open>
  A policy store that has, under their own names, conversions of policies only that one of the clusters
  \<open>C\<close> had.
\<close>

definition policies_converted :: "'c kube \<Rightarrow> 'b worker_env \<Rightarrow> 'c set \<Rightarrow> policy_store \<Rightarrow> bool" where
  "policies_converted K e C s \<longleftrightarrow>
     (\<forall>name pol. Get_policy s name = Some pol \<longrightarrow>
        (\<exists>c \<in> C. \<exists>p. converted_from K e c p pol
           \<and> name = ap_Namespace (po_Policy p) @ ''/'' @ ap_Name (po_Policy p)))"

lemma policies_converted_New: "policies_converted K e C NewAccessPolicyStore"
  by (simp add: policies_converted_def Get_policy_def NewAccessPolicyStore_def)

lemma policies_converted_mono: "policies_converted K e C s \<Longrightarrow> C \<subseteq> D \<Longrightarrow> policies_converted K e D s"
  unfolding policies_converted_def by blast

lemma policies_converted_Update:
  assumes "policies_converted K e C s" and "converted_from K e c p new" and "c \<in> C"
  shows "policies_converted K e C (Update_policy new s)"
proof -
  have "pol_Name new = ap_Namespace (po_Policy p) @ ''/'' @ ap_Name (po_Policy p)"
    using assms(2) converted_Name by (auto simp: converted_from_def)
  with assms show ?thesis
    by (fastforce simp: policies_converted_def Update_policy_lookup split: if_splits)
qed

lemma policies_converted_Delete: "policies_converted K e C s \<Longrightarrow> policies_converted K e C (Delete_policy k s)"
  by (auto simp: policies_converted_def Get_policy_def Delete_policy_def)

lemma Reconcile_worker_converted:
  assumes "policies_converted K e C (w_policies w)" and "w_cluster w \<in> C"
  shows "policies_converted K e C (w_policies (fst (Reconcile_worker K e req w)))"
  using Reconcile_worker_policies [of K e req w] assms
  by (auto intro: policies_converted_Update policies_converted_Delete)

text \<open>The conversion of a provider that can be read panics, as the parser of its role paths may.\<close>

definition provider_panics :: "'c kube \<Rightarrow> 'b worker_env \<Rightarrow> 'c \<Rightarrow> apiAccessPolicy \<Rightarrow> bool" where
  "provider_panics K e c ap \<longleftrightarrow>
     (\<exists>key op sc newAp. provider_key ap = Some key \<and> GetProvider K c key = Found op
        \<and> GetSecret K c (named_secret ap) = Found sc \<and> New_policy ap (Some (data_map sc)) = Ok newAp
        \<and> New_provider (we_unicode e) (we_http_get e) (we_decode e) op = Panic)"

text \<open>The warning for a policy that is not converted: it names the first thing that is wrong.\<close>

inductive warns :: "'c kube \<Rightarrow> 'b worker_env \<Rightarrow> 'c \<Rightarrow> apiAccessPolicy \<Rightarrow> call \<Rightarrow> bool" for K e c ap where
  invalid_provider: "provider_key ap = None \<Longrightarrow>
    warns K e c ap (Event (OnPolicy (policy_key ap)) ''Warning'' ''InvalidProvider'' msg)"
| missing_provider: "provider_key ap = Some key \<Longrightarrow> (\<And>op. GetProvider K c key \<noteq> Found op) \<Longrightarrow>
    warns K e c ap (Event (OnPolicy (policy_key ap)) ''Warning'' ''MissingProvider'' msg)"
| missing_credentials: "provider_key ap = Some key \<Longrightarrow> GetProvider K c key = Found op \<Longrightarrow>
    (\<And>sc. GetSecret K c (named_secret ap) \<noteq> Found sc) \<Longrightarrow>
    warns K e c ap (Event (OnPolicy (policy_key ap)) ''Warning'' ''MissingCredentials'' msg)"
| bad_policy: "provider_key ap = Some key \<Longrightarrow> GetProvider K c key = Found op \<Longrightarrow>
    GetSecret K c (named_secret ap) = Found sc \<Longrightarrow> New_policy ap (Some (data_map sc)) = Err err \<Longrightarrow>
    warns K e c ap (Event (OnPolicy (policy_key ap)) ''Warning'' ''Invalid'' msg)"
| bad_provider: "provider_key ap = Some key \<Longrightarrow> GetProvider K c key = Found op \<Longrightarrow>
    GetSecret K c (named_secret ap) = Found sc \<Longrightarrow> New_policy ap (Some (data_map sc)) = Ok pol \<Longrightarrow>
    New_provider (we_unicode e) (we_http_get e) (we_decode e) op = Err err \<Longrightarrow>
    warns K e c ap (Event (OnProvider \<lparr>nn_Namespace = api_op_namespace op, nn_Name = api_op_name op\<rparr>)
      ''Warning'' ''Invalid'' msg)"

lemma records_warning:
  "warns K e c ap ev \<Longrightarrow> \<exists>ev'. warns K e c ap ev' \<and> w\<lparr>w_calls := w_calls w @ [ev]\<rparr> = w\<lparr>w_calls := w_calls w @ [ev']\<rparr>"
  by blast

lemma reconcileAuth_fails:
  assumes "reconcileAuth K e ap w = (w', r)" and "\<nexists>pol. converted K e (w_cluster w) ap pol"
  shows "if provider_panics K e (w_cluster w) ap then r = Panic \<and> w' = w
    else r = Ok () \<and> (\<exists>ev. warns K e (w_cluster w) ap ev \<and> w' = w\<lparr>w_calls := w_calls w @ [ev]\<rparr>)"
  using assms
  by (auto simp: reconcileAuth_def converted_def secret_key_def provider_panics_def policy_event_def provider_event_def
      intro!: records_warning intro: warns.intros split: option.splits got.splits res.splits)

section \<open>Claims\<close>

text \<open>
  C23: For a live policy the worker stores the conversion of the policy, its provider and its
  credentials under the namespace and name of the policy, and changes no other policy, exactly when
  all three can be read and converted. Otherwise the stored policies stay as they are, an older
  version of this one included, and one warning is recorded that names what is missing or invalid; only
  when the conversion of the provider panics, the worker does.
\<close>

theorem worker_stores_conversion:
  assumes "GetPolicy K (w_cluster w) req = Found p" and "po_DeletionTimestamp p = zero_time"
    and "Reconcile_worker K e req w = (w', r)"
  shows "(\<forall>pol. converted K e (w_cluster w) (po_Policy p) pol \<longrightarrow>
        r = Ok () \<and> w_calls w' = w_calls w
        \<and> Get_policy (w_policies w') =
            (Get_policy (w_policies w))(ap_Namespace (po_Policy p) @ ''/'' @ ap_Name (po_Policy p) \<mapsto> pol))
    \<and> ((\<nexists>pol. converted K e (w_cluster w) (po_Policy p) pol) \<longrightarrow>
        w_policies w' = w_policies w
        \<and> (if provider_panics K e (w_cluster w) (po_Policy p) then r = Panic \<and> w_calls w' = w_calls w
           else r = Ok () \<and> (\<exists>ev. warns K e (w_cluster w) (po_Policy p) ev \<and> w_calls w' = w_calls w @ [ev])))"
proof -
  have run: "reconcileAuth K e (po_Policy p) w = (w', r)"
    using assms by (simp add: Reconcile_worker_def)
  have "w_policies w' = w_policies w
      \<and> (if provider_panics K e (w_cluster w) (po_Policy p) then r = Panic \<and> w_calls w' = w_calls w
         else r = Ok () \<and> (\<exists>ev. warns K e (w_cluster w) (po_Policy p) ev \<and> w_calls w' = w_calls w @ [ev]))"
    if "\<nexists>pol. converted K e (w_cluster w) (po_Policy p) pol"
    using reconcileAuth_fails [OF run that] by (auto split: if_splits)
  with reconcileAuth_cases [OF run] show ?thesis
    by (auto simp: Update_policy_lookup converted_Name dest: converted_unique)
qed

definition demo_worker :: "unit worker_env" where
  "demo_worker =
     \<lparr>we_unicode = ascii_tables, we_http_get = \<lambda>u. Body (),
      we_decode = \<lambda>b. Inr \<lparr>AuthorizationEndpoint = ''a'', TokenEndpoint = ''t'', JWKsURI = ''j''\<rparr>\<rparr>"

lemma demo_provider_key: "provider_key demo_policy = Some \<lparr>nn_Namespace = ''ns'', nn_Name = ''idp''\<rparr>"
  unfolding provider_key_cut by code_simp

lemma demo_converted:
  "\<exists>pol. converted (demo_kube ps (Some demo_secret) efs) demo_worker c demo_policy pol"
proof -
  obtain newAp where "New_policy demo_policy (Some demo_secret) = Ok newAp"
    by (simp add: New_policy_def convert_policy_def convert_oidc_def demo_callback_parses
        demo_policy_def demo_secret_def)
  moreover have "named_secret demo_policy = \<lparr>nn_Namespace = ''ns'', nn_Name = ''s''\<rparr>"
    by (simp add: demo_policy_def)
  ultimately show ?thesis
    by (auto simp: converted_def demo_provider_key demo_kube_def demo_op_def data_map_def
        New_provider_def convert_provider_def doJsonRequest_def demo_worker_def convert_mappings_def)
qed

theorem worker_stores_conversion_witness:
  "\<exists>w' pol. Reconcile_worker (demo_kube [demo_object] (Some demo_secret) []) demo_worker
       (policy_key demo_policy) demo_world = (w', Ok ())
     \<and> Get_policy (w_policies w') ''ns/web'' = Some pol"
proof -
  let ?K = "demo_kube [demo_object] (Some demo_secret) []"
  obtain pol where pol: "converted ?K demo_worker (w_cluster demo_world) demo_policy pol"
    using demo_converted by blast
  have get: "GetPolicy ?K (w_cluster demo_world) (policy_key demo_policy) = Found demo_object"
    by (simp add: demo_kube_def demo_object_def)
  obtain w' r where run: "Reconcile_worker ?K demo_worker (policy_key demo_policy) demo_world = (w', r)"
    by fastforce
  show ?thesis
    using worker_stores_conversion [OF get _ run] pol run
    by (auto simp: demo_object_def demo_policy_def)
qed

text \<open>
  C25: Whatever the worker does and however the cluster changes, a policy of the auth server that is
  stored under a namespace and a name stays in force: it is updated, but it never goes away, because a
  deletion removes the bare name of the resource, and names of resources have no slash. The auth
  server goes on with the policies of resources that were deleted.
\<close>

theorem deleted_policy_stays_in_force:
  assumes "worker_runs K e w w'"
    and "\<forall>c k p. GetPolicy K c k = Found p \<longrightarrow> CHR ''/'' \<notin> set (ap_Name (po_Policy p))"
    and "Get_policy (w_policies w) (ns @ ''/'' @ n) \<noteq> None"
  shows "Get_policy (w_policies w') (ns @ ''/'' @ n) \<noteq> None"
  using assms(1,3)
proof (induction rule: worker_runs.induct)
  case (reconcile w w' req)
  have "ap_Name (po_Policy p) \<noteq> ns @ ''/'' @ n" if "GetPolicy K (w_cluster w') req = Found p" for p
    using assms(2) that by (metis append_Cons in_set_conv_decomp)
  with reconcile Reconcile_worker_policies [of K e req w'] show ?case
    by (auto simp: Get_policy_def Update_policy_def Delete_policy_def)
qed auto

theorem deleted_policy_stays_in_force_witness:
  "\<forall>pol. Get_policy (w_policies (fst (Reconcile_worker
        (demo_kube [demo_object\<lparr>po_DeletionTimestamp := 1\<rparr>] None []) demo_worker
        (policy_key demo_policy)
        (demo_world\<lparr>w_policies := [''ns/web'' \<mapsto> pol]\<rparr>)))) ''ns/web'' \<noteq> None"
proof
  fix pol
  define K where "K = demo_kube [demo_object\<lparr>po_DeletionTimestamp := 1\<rparr>] None []"
  define w where "w = demo_world\<lparr>w_policies := [''ns/web'' \<mapsto> pol]\<rparr>"
  have "worker_runs K demo_worker w (fst (Reconcile_worker K demo_worker (policy_key demo_policy) w))"
    by (intro worker_runs.intros)
  moreover have "\<forall>c k p. GetPolicy K c k = Found p \<longrightarrow> CHR ''/'' \<notin> set (ap_Name (po_Policy p))"
    by (auto simp: K_def demo_kube_def demo_object_def demo_policy_def split: if_splits)
  ultimately have "Get_policy (w_policies (fst (Reconcile_worker K demo_worker
      (policy_key demo_policy) w))) (''ns'' @ ''/'' @ ''web'') \<noteq> None"
    by (rule deleted_policy_stays_in_force) (simp add: w_def Get_policy_def)
  then show "Get_policy (w_policies (fst (Reconcile_worker
        (demo_kube [demo_object\<lparr>po_DeletionTimestamp := 1\<rparr>] None []) demo_worker
        (policy_key demo_policy)
        (demo_world\<lparr>w_policies := [''ns/web'' \<mapsto> pol]\<rparr>)))) ''ns/web'' \<noteq> None"
    by (simp add: K_def w_def)
qed

text \<open>
  The worker panics, and with it the auth server of the same process, exactly for a live policy
  that can be converted and whose provider has a readable configuration document and a role mapping,
  before any invalid one, whose path panics the parser.
\<close>

lemma worker_panics_iff:
  "snd (Reconcile_worker K e req w) = Panic \<longleftrightarrow>
     (\<exists>p key op sc newAp cfg. GetPolicy K (w_cluster w) req = Found p
        \<and> po_DeletionTimestamp p = zero_time
        \<and> provider_key (po_Policy p) = Some key \<and> GetProvider K (w_cluster w) key = Found op
        \<and> GetSecret K (w_cluster w) (secret_key (po_Policy p)) = Found sc
        \<and> New_policy (po_Policy p) (Some (data_map sc)) = Ok newAp
        \<and> doJsonRequest (we_http_get e) (we_decode e)
            (api_issuer op @ ''/.well-known/openid-configuration'') = Ok cfg
        \<and> convert_mappings (we_unicode e) (api_role_mappings op) = Panic)"
proof -
  have "New_provider (we_unicode e) (we_http_get e) (we_decode e) op = Panic \<longleftrightarrow>
      (\<exists>cfg. doJsonRequest (we_http_get e) (we_decode e)
          (api_issuer op @ ''/.well-known/openid-configuration'') = Ok cfg)
      \<and> convert_mappings (we_unicode e) (api_role_mappings op) = Panic" for op
    using new_provider_result by blast
  moreover have "snd (Reconcile_worker K e req w) = Panic \<longleftrightarrow>
     (\<exists>p key op sc newAp. GetPolicy K (w_cluster w) req = Found p
        \<and> po_DeletionTimestamp p = zero_time
        \<and> provider_key (po_Policy p) = Some key \<and> GetProvider K (w_cluster w) key = Found op
        \<and> GetSecret K (w_cluster w) (secret_key (po_Policy p)) = Found sc
        \<and> New_policy (po_Policy p) (Some (data_map sc)) = Ok newAp
        \<and> New_provider (we_unicode e) (we_http_get e) (we_decode e) op = Panic)"
    by (auto simp: Reconcile_worker_def reconcileAuth_def deleteAuth_def warn_def record_calls_def
        split: got.splits option.splits res.splits)
  ultimately show ?thesis by simp
qed

end
