(* ===== verification/Go_Duration.thy ===== *)
theory Go_Duration
  imports Go_Strings
begin

text \<open>
  How the program prints a timeout: \<^verbatim>\<open>fmt.Sprintf("%.fs", d.Seconds())\<close>. \<^verbatim>\<open>Seconds\<close> computes with
  64-bit floats, so it is modelled with their rounding: a non-negative float is a pair \<open>(m, e)\<close> that
  stands for \<open>m / 2 ^ e\<close>, and each operation rounds to 53 bits, ties to even.
\<close>

section \<open>Rounding\<close>

text \<open>The quotient rounded to the nearest integer, ties to the even one.\<close>

definition round_div :: "nat \<Rightarrow> nat \<Rightarrow> nat" where
  "round_div a b =
     (let q = a div b; r = a mod b
      in if 2 * r < b \<or> (2 * r = b \<and> even q) then q else q + 1)"

fun bit_length :: "nat \<Rightarrow> nat" where
  "bit_length n = (if n = 0 then 0 else Suc (bit_length (n div 2)))"

declare bit_length.simps [simp del]

text \<open>The nearest integer multiple of a power of two with at most 53 significant bits.\<close>

definition to_53_bits :: "nat \<Rightarrow> nat" where
  "to_53_bits t =
     (let k = bit_length t - 53 in if k = 0 then t else round_div t (2 ^ k) * 2 ^ k)"

text \<open>Scaling up until the quotient by \<open>10 ^ 9\<close> has 53 bits before the point.\<close>

function scale_up :: "nat \<Rightarrow> nat \<Rightarrow> nat \<times> nat" where
  "scale_up n e = (if n = 0 \<or> 2 ^ 52 * 10 ^ 9 \<le> n then (n, e) else scale_up (2 * n) (Suc e))"
  by pat_completeness auto

termination by (relation "measure (\<lambda>(n, e). 2 ^ 52 * 10 ^ 9 - n)") auto

declare scale_up.simps [simp del]

text \<open>\<^verbatim>\<open>float64(nsec) / 1e9\<close> for a number of nanoseconds below a second.\<close>

definition nanos :: "nat \<Rightarrow> nat \<times> nat" where
  "nanos n = (case scale_up n 0 of (n', e) \<Rightarrow> (round_div n' (10 ^ 9), e))"

text \<open>\<^verbatim>\<open>Seconds\<close> of a non-negative duration: \<^verbatim>\<open>float64(sec) + float64(nsec)/1e9\<close>.\<close>

definition Seconds :: "nat \<Rightarrow> nat \<times> nat" where
  "Seconds d =
     (case nanos (d mod 10 ^ 9) of (m, e) \<Rightarrow> (to_53_bits (d div 10 ^ 9 * 2 ^ e + m), e))"

text \<open>
  \<^verbatim>\<open>%.f\<close> rounds the float to an integer, ties to even. A negative duration prints as the positive one
  behind a minus sign: every rounding is symmetric, and the sign of a small value is kept (\<^verbatim>\<open>-0\<close>).
\<close>

definition timeout_text :: "int \<Rightarrow> string" where
  "timeout_text d =
     (if d < 0 then ''-'' else []) @
     (case Seconds (nat \<bar>d\<bar>) of (t, e) \<Rightarrow> decimal (round_div t (2 ^ e))) @ ''s''"

section \<open>Facts\<close>

lemma round_div_multiple: "0 < b \<Longrightarrow> round_div (k * b) b = k"
  by (simp add: round_div_def)

lemma round_div_by_1 [simp]: "round_div a (Suc 0) = a"
  by (simp add: round_div_def)

lemma round_div_le:
  assumes "0 < b" and "a \<le> k * b"
  shows "round_div a b \<le> k"
proof (cases "a = k * b")
  case True
  with assms show ?thesis by (simp add: round_div_multiple)
next
  case False
  with assms have "a div b < k" by (simp add: less_mult_imp_div_less)
  then show ?thesis by (auto simp: round_div_def Let_def)
qed

lemma round_div_half: "2 * a \<le> b \<Longrightarrow> 0 < b \<Longrightarrow> round_div a b = 0"
  by (auto simp: round_div_def Let_def)

lemma bit_length_le: "t < 2 ^ k \<Longrightarrow> bit_length t \<le> k"
proof (induction k arbitrary: t)
  case 0
  then show ?case by (simp add: bit_length.simps)
next
  case (Suc k)
  then have "bit_length (t div 2) \<le> k" by simp
  then show ?case by (subst bit_length.simps) auto
qed

lemma bit_length_power: "bit_length (2 ^ k) = Suc k"
  by (induction k) (simp_all add: bit_length.simps [of "Suc 0"] bit_length.simps [of 0] bit_length.simps [of "2 * 2 ^ _"])

lemma to_53_bits_small: "t < 2 ^ 53 \<Longrightarrow> to_53_bits t = t"
  using bit_length_le [of t 53] by (simp add: to_53_bits_def)

lemma scale_up_power: "scale_up n e = (n * 2 ^ (snd (scale_up n e) - e), snd (scale_up n e)) \<and> e \<le> snd (scale_up n e)"
proof (induction n e rule: scale_up.induct)
  case (1 n e)
  show ?case
  proof (cases "n = 0 \<or> 2 ^ 52 * 10 ^ 9 \<le> n")
    case True
    then show ?thesis by (simp add: scale_up.simps)
  next
    case False
    then have eq: "scale_up n e = scale_up (2 * n) (Suc e)" by (subst scale_up.simps) simp
    define E where "E = snd (scale_up (2 * n) (Suc e))"
    have IH: "scale_up (2 * n) (Suc e) = (2 * n * 2 ^ (E - Suc e), E)" "Suc e \<le> E"
      using 1 [OF False] by (simp_all add: E_def)
    then have "2 * n * 2 ^ (E - Suc e) = n * 2 ^ (E - e)"
      by (metis Suc_diff_le diff_Suc_Suc mult.assoc mult.commute power_Suc)
    with IH eq show ?thesis by simp
  qed
qed

lemma scale_up_Suc: "scale_up n (Suc e) = (n', e') \<Longrightarrow> e < e'"
  using scale_up_power [of n "Suc e"] by auto

lemma scale_up_bound: "n < 2 ^ 53 * 10 ^ 9 \<Longrightarrow> fst (scale_up n e) < 2 ^ 53 * 10 ^ 9"
proof (induction n e rule: scale_up.induct)
  case (1 n e)
  then show ?case by (subst scale_up.simps) auto
qed

lemma nanos_0 [simp]: "nanos 0 = (0, 0)"
  by (simp add: nanos_def scale_up.simps round_div_def)

text \<open>A whole number of seconds is printed as it is.\<close>

lemma timeout_text_whole:
  assumes "0 \<le> d" and "d < 2 ^ 63"
  shows "timeout_text (d div 10 ^ 9 * 10 ^ 9) = decimal (nat (d div 10 ^ 9)) @ ''s''"
proof -
  define s where "s = nat (d div 10 ^ 9)"
  have "nat (d div 10 ^ 9 * 10 ^ 9) = s * 10 ^ 9"
    using assms(1) by (simp add: s_def nat_mult_distrib)
  moreover have "s < 2 ^ 53" using assms by (simp add: s_def)
  moreover have "\<not> d div 10 ^ 9 * 10 ^ 9 < 0"
    using assms(1) by (simp add: not_less pos_imp_zdiv_nonneg_iff)
  moreover have "nat \<bar>d div 10 ^ 9 * 10 ^ 9\<bar> = nat (d div 10 ^ 9 * 10 ^ 9)"
    using calculation(3) by linarith
  ultimately show ?thesis
    using to_53_bits_small [of s] by (simp add: timeout_text_def Seconds_def) (simp add: s_def)
qed

text \<open>Half a second or less is printed as no time at all.\<close>

lemma timeout_text_short:
  assumes "0 \<le> d" and "2 * d \<le> 10 ^ 9"
  shows "timeout_text d = ''0s''"
proof -
  define n where "n = nat d"
  have n: "2 * n \<le> 10 ^ 9" "n < 10 ^ 9" and abs: "nat \<bar>d\<bar> = n"
    using assms by (auto simp: n_def)
  have zero: "decimal 0 = ''0''" by code_simp
  obtain n' e where sc: "scale_up n 0 = (n', e)" by fastforce
  then have n': "n' = n * 2 ^ e" using scale_up_power [of n 0] by simp
  have "n' < 2 ^ 53 * 10 ^ 9" using scale_up_bound [of n 0] n sc by simp
  then have m_le: "round_div n' (10 ^ 9) \<le> 2 ^ 53" by (intro round_div_le) auto
  have half: "2 * round_div n' (10 ^ 9) \<le> 2 ^ e"
  proof (cases e)
    case 0
    then have "n = 0"
      using sc n by (subst (asm) scale_up.simps) (auto split: if_splits dest: scale_up_Suc)
    then show ?thesis using n' by (simp add: round_div_def)
  next
    case (Suc k)
    have "n' = 2 * n * 2 ^ k" by (simp add: n' Suc)
    also have "\<dots> \<le> 10 ^ 9 * 2 ^ k" using n by (intro mult_right_mono) auto
    finally have "round_div n' (10 ^ 9) \<le> 2 ^ k" by (intro round_div_le) (auto simp: mult.commute)
    then show ?thesis by (simp add: Suc)
  qed
  have "to_53_bits (2 ^ 53) = 2 ^ 53"
    using bit_length_power [of 53] by (simp add: to_53_bits_def round_div_def)
  then have "to_53_bits (round_div n' (10 ^ 9)) = round_div n' (10 ^ 9)"
    using m_le to_53_bits_small by (cases "round_div n' (10 ^ 9) = 2 ^ 53") auto
  then have "Seconds n = (round_div n' (10 ^ 9), e)"
    using n by (simp add: Seconds_def nanos_def sc)
  with half show ?thesis
    using assms(1) unfolding timeout_text_def abs by (simp add: round_div_half zero)
qed

text \<open>
  What is printed is the number of whole seconds or the next one: no rounding on the way passes a whole
  number of seconds.
\<close>

lemma round_div_ge: "0 < b \<Longrightarrow> k * b \<le> a \<Longrightarrow> k \<le> round_div a b"
  by (auto simp: round_div_def Let_def less_eq_div_iff_mult_less_eq intro: le_SucI)

lemma to_53_bits_between:
  assumes "s * 2 ^ e \<le> t" and "t \<le> Suc s * 2 ^ e" and "Suc s < 2 ^ 53"
  shows "s * 2 ^ e \<le> to_53_bits t \<and> to_53_bits t \<le> Suc s * 2 ^ e"
proof -
  define k where "k = bit_length t - 53"
  have "Suc s * 2 ^ e < 2 ^ 53 * 2 ^ e" using assms(3) by (intro mult_strict_right_mono) auto
  with assms(2) have "t < 2 ^ (53 + e)" unfolding power_add by (rule le_less_trans)
  then have "k \<le> e" using bit_length_le [of t "53 + e"] by (simp add: k_def)
  then have e: "2 ^ e = 2 ^ (e - k) * (2 :: nat) ^ k" by (simp flip: power_add)
  have "s * 2 ^ (e - k) \<le> round_div t (2 ^ k)"
    using assms(1) e by (intro round_div_ge) (simp_all add: mult.assoc)
  moreover have "round_div t (2 ^ k) \<le> Suc s * 2 ^ (e - k)"
    using assms(2) e by (intro round_div_le) (simp_all only: mult.assoc zero_less_power zero_less_numeral)
  ultimately have "s * 2 ^ (e - k) * 2 ^ k \<le> round_div t (2 ^ k) * 2 ^ k"
    "round_div t (2 ^ k) * 2 ^ k \<le> Suc s * 2 ^ (e - k) * 2 ^ k"
    by (simp_all only: mult_right_mono)
  then have "s * 2 ^ e \<le> round_div t (2 ^ k) * 2 ^ k" "round_div t (2 ^ k) * 2 ^ k \<le> Suc s * 2 ^ e"
    by (simp_all only: e mult.assoc)
  with assms(1,2) show ?thesis by (simp add: to_53_bits_def Let_def flip: k_def)
qed

lemma nanos_le:
  assumes "n < 10 ^ 9" and "nanos n = (m, e)"
  shows "m \<le> 2 ^ e"
proof -
  obtain n' where "scale_up n 0 = (n', e)" "m = round_div n' (10 ^ 9)"
    using assms(2) by (auto simp: nanos_def split: prod.splits)
  moreover then have "n' = n * 2 ^ e" using scale_up_power [of n 0] by simp
  ultimately show ?thesis
    using assms(1) by (auto intro!: round_div_le simp: mult.commute)
qed

lemma timeout_text_bounds:
  assumes "0 \<le> d" and "d < 2 ^ 63"
  shows "\<exists>n. timeout_text d = decimal n @ ''s'' \<and> nat d div 10 ^ 9 \<le> n \<and> n \<le> Suc (nat d div 10 ^ 9)"
proof -
  define s where "s = nat d div 10 ^ 9"
  obtain m e where m: "nanos (nat d mod 10 ^ 9) = (m, e)" by fastforce
  have "m \<le> 2 ^ e" by (rule nanos_le [OF _ m]) simp
  then have "s * 2 ^ e \<le> s * 2 ^ e + m" "s * 2 ^ e + m \<le> Suc s * 2 ^ e" by simp_all
  moreover have "Suc s < 2 ^ 53" using assms by (simp add: s_def)
  ultimately have b: "s * 2 ^ e \<le> to_53_bits (s * 2 ^ e + m)" "to_53_bits (s * 2 ^ e + m) \<le> Suc s * 2 ^ e"
    using to_53_bits_between by blast+
  have "s \<le> round_div (to_53_bits (s * 2 ^ e + m)) (2 ^ e)" by (rule round_div_ge [OF _ b(1)]) simp
  moreover have "round_div (to_53_bits (s * 2 ^ e + m)) (2 ^ e) \<le> Suc s" by (rule round_div_le [OF _ b(2)]) simp
  moreover have "timeout_text d = decimal (round_div (to_53_bits (s * 2 ^ e + m)) (2 ^ e)) @ ''s''"
    using assms(1) m by (simp add: timeout_text_def Seconds_def s_def)
  ultimately show ?thesis unfolding s_def by blast
qed

end
