(* ===== verification/Envoy_Filter.thy ===== *)
theory Envoy_Filter
  imports Kube Go_Duration
begin

text \<open>
  The patches of an EnvoyFilter (\<^verbatim>\<open>src/controller/envoyfilter\<close>: \<^verbatim>\<open>envoyfilter.go\<close> and \<^verbatim>\<open>protobuf.go\<close>).
  The filter makes the gateways of a selector ask the auth server: a patch adds the HTTP filter, one
  turns it off for every virtual host, and further patches turn it on again for the virtual hosts and
  routes of the policies, with the name of the policy and of the route.
\<close>

section \<open>Values\<close>

text \<open>
  An \<^verbatim>\<open>interface{}\<close> that is turned into a protobuf value. A map is the list of its entries; the
  literals of the program have no key twice.
\<close>

datatype data = DBool bool | DString string | DMap "(string \<times> data) list" | DUnknown

fun newValue :: "data \<Rightarrow> (go_error, pvalue) res"
  and newFields :: "(string \<times> data) list \<Rightarrow> (go_error, (string \<times> pvalue) list) res" where
  "newValue (DBool b) = Ok (PBool b)"
| "newValue (DString s) = Ok (PString s)"
| "newValue (DMap val) = res_bind (newFields val) (\<lambda>fs. Ok (PStruct fs))"
| "newValue DUnknown = Panic"
| "newFields [] = Ok []"
| "newFields ((k, v) # val) =
     res_bind (newValue v) (\<lambda>v'. res_bind (newFields val) (\<lambda>fs. Ok ((k, v') # fs)))"

definition newStruct :: "(string \<times> data) list \<Rightarrow> (go_error, pvalue) res" where
  "newStruct d =
     res_bind (newValue (DMap d)) (\<lambda>v. case v of PStruct fs \<Rightarrow> Ok (PStruct fs) | _ \<Rightarrow> Panic)"

section \<open>Parts of a patch\<close>

definition empty_patch :: config_patch where
  "empty_patch = \<lparr>cp_ApplyTo = INVALID, cp_Match = None, cp_Patch = None\<rparr>"

text \<open>\<^verbatim>\<open>patch.Patch.Value = newStruct(...)\<close>: the operation must be there.\<close>

definition set_value :: "(string \<times> data) list \<Rightarrow> config_patch \<Rightarrow> (go_error, config_patch) res" where
  "set_value d p =
     (case cp_Patch p of
        None \<Rightarrow> Panic
      | Some op \<Rightarrow>
          res_bind (newStruct d) (\<lambda>v. Ok (p\<lparr>cp_Patch := Some (op\<lparr>pa_Value := Some v\<rparr>)\<rparr>)))"

definition patch_name :: "string \<Rightarrow> config_patch \<Rightarrow> (go_error, config_patch) res" where
  "patch_name nm = set_value [(''name'', DString nm)]"

definition extAuthz :: "cfg_extAuthz \<Rightarrow> string \<Rightarrow> config_patch \<Rightarrow> (go_error, config_patch) res" where
  "extAuthz cfg clusterName =
     set_value
       [(''name'', DString ''envoy.filters.http.ext_authz''),
        (''typed_config'', DMap
          [(''@type'', DString ''type.googleapis.com/envoy.config.filter.http.ext_authz.v2.ExtAuthz''),
           (''grpc_service'', DMap
             [(''envoy_grpc'', DMap [(''cluster_name'', DString clusterName)]),
              (''timeout'', DString (timeout_text (Timeout cfg)))])])]"

definition extAuthzPerRoute ::
  "string \<Rightarrow> string \<Rightarrow> route option \<Rightarrow> config_patch \<Rightarrow> (go_error, config_patch) res" where
  "extAuthzPerRoute pol rt routeData =
     (let cfg = [(''@type'', DString
            ''type.googleapis.com/envoy.config.filter.http.ext_authz.v2.ExtAuthzPerRoute'')]
          @ (if (case routeData of None \<Rightarrow> False | Some r \<Rightarrow> rt_EnableAuthz r) then
               [(''check_settings'', DMap
                  [(''context_extensions'', DMap [(NameKey, DString pol), (RouteKey, DString rt)])])]
             else [(''disabled'', DBool True)])
      in set_value
           [(''typed_per_filter_config'', DMap [(''envoy.filters.http.ext_authz'', DMap cfg)])])"

definition applyToHttpFilter :: "config_patch \<Rightarrow> config_patch" where
  "applyToHttpFilter p = p\<lparr>cp_ApplyTo := HTTP_FILTER\<rparr>"

definition applyToVirtualHost :: "config_patch \<Rightarrow> config_patch" where
  "applyToVirtualHost p = p\<lparr>cp_ApplyTo := VIRTUAL_HOST\<rparr>"

definition applyToHttpRoute :: "config_patch \<Rightarrow> config_patch" where
  "applyToHttpRoute p = p\<lparr>cp_ApplyTo := HTTP_ROUTE\<rparr>"

definition applyToCluster :: "config_patch \<Rightarrow> config_patch" where
  "applyToCluster p = p\<lparr>cp_ApplyTo := CLUSTER\<rparr>"

definition matchGateway :: "config_patch \<Rightarrow> config_patch" where
  "matchGateway p = p\<lparr>cp_Match := Some \<lparr>ma_Context = GATEWAY, ma_ObjectTypes = None\<rparr>\<rparr>"

text \<open>\<^verbatim>\<open>patch.Match.ObjectTypes = ...\<close> after \<^verbatim>\<open>matchGateway\<close>, which has just set \<^verbatim>\<open>Match\<close>.\<close>

definition match_gateway_object :: "object_match \<Rightarrow> config_patch \<Rightarrow> config_patch" where
  "match_gateway_object x p =
     (let p1 = matchGateway p
      in p1\<lparr>cp_Match := map_option (\<lambda>m. m\<lparr>ma_ObjectTypes := Some x\<rparr>) (cp_Match p1)\<rparr>)"

definition matchEnvoyRouter :: "config_patch \<Rightarrow> config_patch" where
  "matchEnvoyRouter =
     match_gateway_object (ListenerMatch ''envoy.http_connection_manager'' ''envoy.router'')"

definition matchVirtualHost :: "string \<Rightarrow> config_patch \<Rightarrow> config_patch" where
  "matchVirtualHost vhost = match_gateway_object (RouteConfigurationMatch vhost None)"

text \<open>The type assertion on the object that \<^verbatim>\<open>matchVirtualHost\<close> has set.\<close>

definition matchVirtualHostRoute ::
  "string \<Rightarrow> string \<Rightarrow> config_patch \<Rightarrow> (go_error, config_patch) res" where
  "matchVirtualHostRoute vhost rt p =
     (let p1 = matchVirtualHost vhost p
      in (case cp_Match p1 of
            None \<Rightarrow> Panic
          | Some m \<Rightarrow>
              (case ma_ObjectTypes m of
                 Some (RouteConfigurationMatch v r) \<Rightarrow>
                   Ok (p1\<lparr>cp_Match :=
                     Some (m\<lparr>ma_ObjectTypes := Some (RouteConfigurationMatch v (Some rt))\<rparr>)\<rparr>)
               | _ \<Rightarrow> Panic)))"

definition matchCluster :: "string \<Rightarrow> nat \<Rightarrow> string \<Rightarrow> config_patch \<Rightarrow> config_patch" where
  "matchCluster svc port subset_name =
     match_gateway_object (ClusterMatch
       \<lparr>cm_Service = svc, cm_PortNumber = word_of_nat port, cm_Subset = subset_name\<rparr>)"

definition insertBefore :: "config_patch \<Rightarrow> config_patch" where
  "insertBefore p = p\<lparr>cp_Patch := Some \<lparr>pa_Operation = INSERT_BEFORE, pa_Value = None\<rparr>\<rparr>"

definition merge :: "config_patch \<Rightarrow> config_patch" where
  "merge p = p\<lparr>cp_Patch := Some \<lparr>pa_Operation = MERGE, pa_Value = None\<rparr>\<rparr>"

section \<open>The name of the cluster\<close>

text \<open>\<^verbatim>\<open>^.*?\|(\d+)\|(.*?)\|(.+?)$\<close>: direction, port, subset and service of an Istio cluster name.\<close>

definition not_newline :: "char \<Rightarrow> bool" where
  "not_newline x \<longleftrightarrow> x \<noteq> CHR 0x0A"

definition istioClusterName :: re where
  "istioClusterName =
     Seq (ManyLazy not_newline) (Seq (Lit (CHR ''|'')) (Seq (Group 1 (Some1 digit))
       (Seq (Lit (CHR ''|'')) (Seq (Group 2 (ManyLazy not_newline)) (Seq (Lit (CHR ''|''))
         (Seq (Group 3 (Some1Lazy not_newline)) EndText))))))"

text \<open>\<^verbatim>\<open>strconv.Atoi\<close> of a text of digits, with its error ignored: a number out of range is clamped.\<close>

definition Atoi_digits :: "string \<Rightarrow> nat" where
  "Atoi_digits s = (case decimal_value s 0 of None \<Rightarrow> 0 | Some n \<Rightarrow> min n (2 ^ 63 - 1))"

definition parseIstioClusterName :: "cfg_extAuthz \<Rightarrow> (string \<times> nat \<times> string) option" where
  "parseIstioClusterName cfg =
     map_option (\<lambda>m. (lookup0 [] m 3, Atoi_digits (lookup0 [] m 1), lookup0 [] m 2))
       (FindSubmatch istioClusterName (ClusterName cfg))"

section \<open>The filter\<close>

definition cluster_patch :: "string \<Rightarrow> nat \<Rightarrow> string \<Rightarrow> string \<Rightarrow> (go_error, config_patch) res" where
  "cluster_patch svc port subset_name clusterName =
     patch_name clusterName (merge (matchCluster svc port subset_name (applyToCluster empty_patch)))"

definition filter_patch :: "cfg_extAuthz \<Rightarrow> string \<Rightarrow> (go_error, config_patch) res" where
  "filter_patch cfg clusterName =
     extAuthz cfg clusterName (insertBefore (matchEnvoyRouter (applyToHttpFilter empty_patch)))"

definition disable_patch :: "(go_error, config_patch) res" where
  "disable_patch =
     extAuthzPerRoute [] [] None (merge (matchGateway (applyToVirtualHost empty_patch)))"

definition vhost_patch :: "accessPolicy \<Rightarrow> string \<Rightarrow> (go_error, config_patch) res" where
  "vhost_patch pol vhost =
     extAuthzPerRoute (pol_Name pol) [] (Some (pol_Default pol))
       (merge (matchVirtualHost vhost (applyToVirtualHost empty_patch)))"

definition route_patch ::
  "accessPolicy \<Rightarrow> string \<Rightarrow> string \<Rightarrow> (go_error, config_patch) res" where
  "route_patch pol vhost rt =
     res_bind (matchVirtualHostRoute vhost rt (applyToHttpRoute empty_patch)) (\<lambda>p.
       extAuthzPerRoute (pol_Name pol) rt (pol_Routes pol rt) (merge p))"

text \<open>The loops over the virtual hosts of a policy and over its routes, visited as \<open>ks pol vhost\<close>.\<close>

definition vhost_patches ::
  "(accessPolicy \<Rightarrow> string \<Rightarrow> string list) \<Rightarrow> accessPolicy \<Rightarrow> string
    \<Rightarrow> (go_error, config_patch list) res" where
  "vhost_patches ks pol vhost =
     res_bind (vhost_patch pol vhost) (\<lambda>p.
     res_bind (res_map (route_patch pol vhost) (ks pol vhost)) (\<lambda>ps. Ok (p # ps)))"

definition policy_patches ::
  "(accessPolicy \<Rightarrow> string \<Rightarrow> string list) \<Rightarrow> accessPolicy \<Rightarrow> (go_error, config_patch list) res" where
  "policy_patches ks pol =
     res_bind (res_map (vhost_patches ks pol) (pol_VirtualHosts pol)) (\<lambda>pss. Ok (concat pss))"

definition newEnvoyFilter ::
  "cfg_extAuthz \<Rightarrow> (accessPolicy \<Rightarrow> string \<Rightarrow> string list) \<Rightarrow> envoy_filter \<Rightarrow> accessPolicy list
    \<Rightarrow> (go_error, envoy_filter) res" where
  "newEnvoyFilter cfg ks ef pols =
     res_bind
       (case parseIstioClusterName cfg of
          Some (svc, port, subset_name) \<Rightarrow>
            (let clusterName = svc @ '':'' @ decimal port
             in res_bind (cluster_patch svc port subset_name clusterName)
                  (\<lambda>p. Ok (clusterName, [p])))
        | None \<Rightarrow> Ok (ClusterName cfg, [])) (\<lambda>(clusterName, cluster_patches).
     res_bind (filter_patch cfg clusterName) (\<lambda>f.
     res_bind disable_patch (\<lambda>d.
     res_bind (res_map (policy_patches ks) pols) (\<lambda>pss.
     Ok (ef\<lparr>ef_ConfigPatches := cluster_patches @ [f, d] @ concat pss\<rparr>)))))"

section \<open>Facts\<close>

text \<open>Values without an unknown part convert.\<close>

fun known :: "data \<Rightarrow> bool" where
  "known DUnknown = False"
| "known (DMap val) = list_all (\<lambda>(k, v). known v) val"
| "known d = True"

fun pvalue_of :: "data \<Rightarrow> pvalue" where
  "pvalue_of (DBool b) = PBool b"
| "pvalue_of (DString s) = PString s"
| "pvalue_of (DMap val) = PStruct (map (\<lambda>(k, v). (k, pvalue_of v)) val)"
| "pvalue_of DUnknown = PBool False"

lemma newValue_result:
  "newValue d = (if known d then Ok (pvalue_of d) else Panic)"
  "newFields val = (if list_all (\<lambda>(k, v). known v) val
     then Ok (map (\<lambda>(k, v). (k, pvalue_of v)) val) else Panic)"
  by (induction d and val rule: newValue_newFields.induct) auto

lemma newStruct_known:
  "list_all (\<lambda>(k, v). known v) val \<Longrightarrow>
     newStruct val = Ok (PStruct (map (\<lambda>(k, v). (k, pvalue_of v)) val))"
  by (simp add: newStruct_def newValue_result)

lemma set_value_known:
  "list_all (\<lambda>(k, v). known v) val \<Longrightarrow> cp_Patch p = Some op \<Longrightarrow>
     set_value val p = Ok (p\<lparr>cp_Patch :=
       Some (op\<lparr>pa_Value := Some (PStruct (map (\<lambda>(k, v). (k, pvalue_of v)) val))\<rparr>)\<rparr>)"
  by (simp add: set_value_def newStruct_known)

section \<open>What a patch says\<close>

text \<open>
  The virtual host, and the route of it, that a patch is about, and the names that it hands to the
  auth server when it turns the check on.
\<close>

definition field :: "string \<Rightarrow> pvalue \<Rightarrow> pvalue option" where
  "field k v = (case v of PStruct fs \<Rightarrow> map_of fs k | _ \<Rightarrow> None)"

definition per_filter_config :: "config_patch \<Rightarrow> pvalue option" where
  "per_filter_config p =
     Option.bind (cp_Patch p) (\<lambda>op.
     Option.bind (pa_Value op) (\<lambda>v.
     Option.bind (field ''typed_per_filter_config'' v) (field ''envoy.filters.http.ext_authz'')))"

definition patch_check :: "config_patch \<Rightarrow> (string \<times> string) option" where
  "patch_check p =
     Option.bind (per_filter_config p) (\<lambda>cfg.
     Option.bind (field ''check_settings'' cfg) (\<lambda>s.
     Option.bind (field ''context_extensions'' s) (\<lambda>x.
       (case (field NameKey x, field RouteKey x) of
          (Some (PString n), Some (PString r)) \<Rightarrow> Some (n, r) | _ \<Rightarrow> None))))"

definition patch_disables :: "config_patch \<Rightarrow> bool" where
  "patch_disables p \<longleftrightarrow> Option.bind (per_filter_config p) (field ''disabled'') = Some (PBool True)"

definition patch_target :: "config_patch \<Rightarrow> (string \<times> string option) option" where
  "patch_target p =
     (case (cp_ApplyTo p, Option.bind (cp_Match p) ma_ObjectTypes) of
        (VIRTUAL_HOST, Some (RouteConfigurationMatch v None)) \<Rightarrow> Some (v, None)
      | (HTTP_ROUTE, Some (RouteConfigurationMatch v (Some r))) \<Rightarrow> Some (v, Some r)
      | _ \<Rightarrow> None)"

definition check_of :: "string \<Rightarrow> string \<Rightarrow> route option \<Rightarrow> (string \<times> string) option" where
  "check_of pol rt data =
     (case data of Some r \<Rightarrow> if rt_EnableAuthz r then Some (pol, rt) else None | None \<Rightarrow> None)"

lemma keys_differ: "NameKey \<noteq> RouteKey"
  by (simp add: NameKey_def RouteKey_def)

text \<open>The value of a patch for a route turns the check on with the names, or turns it off.\<close>

lemma extAuthzPerRoute_result:
  assumes "cp_Patch p = Some op"
  shows "\<exists>q. extAuthzPerRoute pol rt data p = Ok q
    \<and> cp_ApplyTo q = cp_ApplyTo p \<and> cp_Match q = cp_Match p
    \<and> map_option pa_Operation (cp_Patch q) = Some (pa_Operation op)
    \<and> patch_check q = check_of pol rt data \<and> (patch_disables q \<longleftrightarrow> check_of pol rt data = None)"
proof -
  define on where "on = (case data of None \<Rightarrow> False | Some r \<Rightarrow> rt_EnableAuthz r)"
  have chk: "check_of pol rt data = (if on then Some (pol, rt) else None)"
    by (simp add: check_of_def on_def split: option.splits)
  show ?thesis
    unfolding extAuthzPerRoute_def Let_def on_def [symmetric] chk using keys_differ
    by (cases on) (simp_all add: set_value_known [OF _ assms] per_filter_config_def patch_check_def
        patch_disables_def field_def)
qed

lemmas match_defs =
  match_gateway_object_def matchGateway_def matchVirtualHost_def matchVirtualHostRoute_def
  matchEnvoyRouter_def matchCluster_def merge_def insertBefore_def applyToVirtualHost_def
  applyToHttpRoute_def applyToCluster_def applyToHttpFilter_def empty_patch_def Let_def

definition patch_rule ::
  "config_patch \<Rightarrow> ((string \<times> string option) \<times> (string \<times> string) option) option" where
  "patch_rule p = map_option (\<lambda>t. (t, patch_check p)) (patch_target p)"

lemma vhost_patch_result:
  "\<exists>q. vhost_patch pol vhost = Ok q
     \<and> patch_rule q = Some ((vhost, None), check_of (pol_Name pol) [] (Some (pol_Default pol)))"
proof -
  let ?p = "merge (matchVirtualHost vhost (applyToVirtualHost empty_patch))"
  have "cp_Patch ?p = Some \<lparr>pa_Operation = MERGE, pa_Value = None\<rparr>"
    by (simp add: match_defs)
  from extAuthzPerRoute_result [OF this, of "pol_Name pol" "[]" "Some (pol_Default pol)"]
  show ?thesis
    by (auto simp: vhost_patch_def patch_rule_def patch_target_def match_defs)
qed

lemma route_patch_result:
  "\<exists>q. route_patch pol vhost rt = Ok q
     \<and> patch_rule q = Some ((vhost, Some rt), check_of (pol_Name pol) rt (pol_Routes pol rt))"
proof -
  obtain p where p: "matchVirtualHostRoute vhost rt (applyToHttpRoute empty_patch) = Ok p"
    and m: "cp_ApplyTo p = HTTP_ROUTE"
      "Option.bind (cp_Match p) ma_ObjectTypes = Some (RouteConfigurationMatch vhost (Some rt))"
    by (simp add: match_defs)
  have "cp_Patch (merge p) = Some \<lparr>pa_Operation = MERGE, pa_Value = None\<rparr>"
    by (simp add: merge_def)
  from extAuthzPerRoute_result [OF this, of "pol_Name pol" rt "pol_Routes pol rt"] m
  show ?thesis
    by (auto simp: route_patch_def p patch_rule_def patch_target_def merge_def)
qed

text \<open>The rules of a policy: for each virtual host the default route, then the named routes.\<close>

definition vhost_rules ::
  "(accessPolicy \<Rightarrow> string \<Rightarrow> string list) \<Rightarrow> accessPolicy \<Rightarrow> string
    \<Rightarrow> ((string \<times> string option) \<times> (string \<times> string) option) list" where
  "vhost_rules ks pol v =
     ((v, None), check_of (pol_Name pol) [] (Some (pol_Default pol)))
     # map (\<lambda>r. ((v, Some r), check_of (pol_Name pol) r (pol_Routes pol r))) (ks pol v)"

definition policy_rules ::
  "(accessPolicy \<Rightarrow> string \<Rightarrow> string list) \<Rightarrow> accessPolicy
    \<Rightarrow> ((string \<times> string option) \<times> (string \<times> string) option) list" where
  "policy_rules ks pol = concat (map (vhost_rules ks pol) (pol_VirtualHosts pol))"

lemma res_map_view:
  assumes "\<And>x. \<exists>y. f x = Ok y \<and> view y = g x"
  shows "\<exists>ys. res_map f xs = Ok ys \<and> map view ys = map g xs"
proof (induction xs)
  case (Cons x xs)
  obtain y where "f x = Ok y" "view y = g x" using assms by blast
  with Cons show ?case by auto
qed simp

lemma route_patches_result:
  "\<exists>ps. res_map (route_patch pol v) rts = Ok ps
     \<and> map patch_rule ps =
        map (\<lambda>r. Some ((v, Some r), check_of (pol_Name pol) r (pol_Routes pol r))) rts"
  by (rule res_map_view) (rule route_patch_result)

lemma vhost_patches_result:
  "\<exists>ps. vhost_patches ks pol v = Ok ps \<and> map patch_rule ps = map Some (vhost_rules ks pol v)"
  using vhost_patch_result [of pol v] route_patches_result [of pol v "ks pol v"]
  by (auto simp: vhost_patches_def vhost_rules_def)

lemma policy_patches_result:
  "\<exists>ps. policy_patches ks pol = Ok ps \<and> map patch_rule ps = map Some (policy_rules ks pol)"
proof -
  obtain pss where "res_map (vhost_patches ks pol) (pol_VirtualHosts pol) = Ok pss"
    and "map (map patch_rule) pss = map (\<lambda>v. map Some (vhost_rules ks pol v)) (pol_VirtualHosts pol)"
    using res_map_view [of "vhost_patches ks pol" "map patch_rule"
        "\<lambda>v. map Some (vhost_rules ks pol v)" "pol_VirtualHosts pol"] vhost_patches_result by blast
  then show ?thesis
    by (auto simp: policy_patches_def policy_rules_def map_concat comp_def)
qed

section \<open>The first patches\<close>

text \<open>The timeout that the patch of the HTTP filter asks for.\<close>

definition filter_timeout :: "config_patch \<Rightarrow> pvalue option" where
  "filter_timeout p =
     Option.bind (cp_Patch p) (\<lambda>op.
     Option.bind (pa_Value op) (\<lambda>v.
     Option.bind (field ''typed_config'' v) (\<lambda>c.
     Option.bind (field ''grpc_service'' c) (field ''timeout''))))"

definition filter_cluster :: "config_patch \<Rightarrow> pvalue option" where
  "filter_cluster p =
     Option.bind (cp_Patch p) (\<lambda>op.
     Option.bind (pa_Value op) (\<lambda>v.
     Option.bind (field ''typed_config'' v) (\<lambda>c.
     Option.bind (field ''grpc_service'' c) (\<lambda>g.
     Option.bind (field ''envoy_grpc'' g) (field ''cluster_name'')))))"

lemma filter_patch_result:
  "\<exists>f. filter_patch cfg cn = Ok f
     \<and> cp_ApplyTo f = HTTP_FILTER \<and> map_option pa_Operation (cp_Patch f) = Some INSERT_BEFORE
     \<and> patch_target f = None \<and> filter_cluster f = Some (PString cn)
     \<and> filter_timeout f = Some (PString (timeout_text (Timeout cfg)))"
proof -
  let ?p = "insertBefore (matchEnvoyRouter (applyToHttpFilter empty_patch))"
  have p: "cp_Patch ?p = Some \<lparr>pa_Operation = INSERT_BEFORE, pa_Value = None\<rparr>"
    and a: "cp_ApplyTo ?p = HTTP_FILTER"
    by (simp_all add: match_defs)
  show ?thesis
    unfolding filter_patch_def extAuthz_def
    by (simp add: set_value_known [OF _ p] a patch_target_def filter_timeout_def filter_cluster_def
        field_def)
qed

lemma disable_patch_result:
  "\<exists>d. disable_patch = Ok d \<and> cp_ApplyTo d = VIRTUAL_HOST
     \<and> cp_Match d = Some \<lparr>ma_Context = GATEWAY, ma_ObjectTypes = None\<rparr>
     \<and> patch_disables d \<and> patch_check d = None"
proof -
  let ?p = "merge (matchGateway (applyToVirtualHost empty_patch))"
  have "cp_Patch ?p = Some \<lparr>pa_Operation = MERGE, pa_Value = None\<rparr>" by (simp add: match_defs)
  from extAuthzPerRoute_result [OF this, of "[]" "[]" None] show ?thesis
    by (auto simp: disable_patch_def match_defs check_of_def)
qed

lemma cluster_patch_result:
  "\<exists>p. cluster_patch svc port sn cn = Ok p \<and> cp_ApplyTo p = CLUSTER
     \<and> cp_Match p = Some \<lparr>ma_Context = GATEWAY, ma_ObjectTypes = Some (ClusterMatch
          \<lparr>cm_Service = svc, cm_PortNumber = word_of_nat port, cm_Subset = sn\<rparr>)\<rparr>
     \<and> cp_Patch p = Some \<lparr>pa_Operation = MERGE, pa_Value = Some (PStruct [(''name'', PString cn)])\<rparr>"
proof -
  let ?p = "merge (matchCluster svc port sn (applyToCluster empty_patch))"
  have p: "cp_Patch ?p = Some \<lparr>pa_Operation = MERGE, pa_Value = None\<rparr>" by (simp add: match_defs)
  have "cp_ApplyTo ?p = CLUSTER" "cp_Match ?p = Some \<lparr>ma_Context = GATEWAY, ma_ObjectTypes =
      Some (ClusterMatch \<lparr>cm_Service = svc, cm_PortNumber = word_of_nat port, cm_Subset = sn\<rparr>)\<rparr>"
    by (simp_all add: match_defs)
  then show ?thesis
    unfolding cluster_patch_def patch_name_def by (simp add: set_value_known [OF _ p])
qed

section \<open>Parsing a cluster name\<close>

text \<open>A lazy run up to the first place of a separator, and a greedy run up to it.\<close>

lemma lazy_until:
  assumes "sep \<notin> set a" and "list_all p a" and "\<And>y ys c'. y \<noteq> sep \<Longrightarrow> k (y # ys) c' = None"
    and "k (sep # b) c = Some r"
  shows "many_lazy p (a @ sep # b) c k = Some r"
proof -
  have "many_lazy p (a @ sep # b) c k = many_lazy p (sep # b) c k"
    using assms(1-3)
  proof (intro many_lazy_first)
    fix u v assume "a = u @ v" "v \<noteq> []"
    then show "k (v @ sep # b) c = None"
      using assms(1,3) by (cases v) auto
  qed auto
  with assms(4) show ?thesis by (simp add: many_lazy_now [where k = k])
qed

lemma greedy_until:
  assumes "list_all p a" and "\<not> p sep" and "\<And>y ys c'. y \<noteq> sep \<Longrightarrow> k (y # ys) c' = None"
  shows "many p (a @ sep # b) c k = k (sep # b) c"
proof -
  have "many p (a @ sep # b) c k = k (dropWhile p (a @ sep # b)) c"
    using assms(2,3) by (intro many_takeWhile) metis
  with assms(1,2) show ?thesis by (simp add: list_all_iff)
qed

lemma lazy_to_end:
  assumes "list_all p a"
  shows "many_lazy p a c (\<lambda>s' c'. if s' = [] then k s' c' else None) = k [] c"
  using assms by (induction a) (auto split: option.splits)

definition separated :: "re \<Rightarrow> string \<Rightarrow> captures \<Rightarrow> captures option" where
  "separated r s c = re_match (Seq (Lit (CHR ''|'')) r) s c (\<lambda>s c. Some c)"

lemma separated_simps [simp]:
  "separated r (CHR ''|'' # s) c = re_match r s c (\<lambda>s c. Some c)"
  "y \<noteq> CHR ''|'' \<Longrightarrow> separated r (y # ys) c = None"
  by (simp_all add: separated_def Lit_def)

text \<open>The groups, from the last to the first.\<close>

lemma service_match:
  assumes "svc \<noteq> []" and "list_all not_newline svc"
  shows "re_match (Seq (Group 3 (Some1Lazy not_newline)) EndText) svc c (\<lambda>s c. Some c) =
    Some (c(3 \<mapsto> svc))"
proof -
  obtain x xs where svc: "svc = x # xs" using assms(1) by (cases svc) auto
  then show ?thesis
    using assms(2) lazy_to_end [of not_newline xs c
        "\<lambda>s' c'. Some (c'(3 \<mapsto> take (Suc (length xs) - length s') (x # xs)))"]
    by (simp add: Some1Lazy_def)
qed

lemma subset_match:
  assumes "CHR ''|'' \<notin> set sn" and "list_all not_newline sn"
    and "re_match r svc (c(2 \<mapsto> sn)) (\<lambda>s c. Some c) = Some m"
  shows "re_match (Seq (Group 2 (ManyLazy not_newline)) (Seq (Lit (CHR ''|'')) r))
    (sn @ CHR ''|'' # svc) c (\<lambda>s c. Some c) = Some m"
proof -
  let ?s = "sn @ CHR ''|'' # svc"
  have "many_lazy not_newline ?s c
      (\<lambda>s' c'. separated r s' (c'(2 \<mapsto> take (length ?s - length s') ?s))) = Some m"
    using assms by (intro lazy_until) simp_all
  then show ?thesis
    unfolding separated_def by simp
qed

lemma port_match:
  assumes "ds \<noteq> []" and "list_all digit ds"
    and "re_match r rest (c(1 \<mapsto> ds)) (\<lambda>s c. Some c) = Some m"
  shows "re_match (Seq (Group 1 (Some1 digit)) (Seq (Lit (CHR ''|'')) r))
    (ds @ CHR ''|'' # rest) c (\<lambda>s c. Some c) = Some m"
proof -
  obtain d ds' where ds: "ds = d # ds'" using assms(1) by (cases ds) auto
  let ?s = "ds @ CHR ''|'' # rest"
  have "many digit (ds' @ CHR ''|'' # rest) c
      (\<lambda>s' c'. separated r s' (c'(1 \<mapsto> take (length ?s - length s') ?s))) =
    separated r (CHR ''|'' # rest) (c(1 \<mapsto> take (length ?s - length (CHR ''|'' # rest)) ?s))"
    using assms(2) ds by (intro greedy_until) (simp_all add: digit_def)
  also have "\<dots> = Some m" using assms(3) by simp
  finally show ?thesis
    using assms(2) unfolding separated_def ds by (simp add: Some1_def)
qed

lemma istioClusterName_match:
  assumes "CHR ''|'' \<notin> set dir" and "list_all not_newline dir"
    and "ds \<noteq> []" and "list_all digit ds"
    and "CHR ''|'' \<notin> set sn" and "list_all not_newline sn"
    and "svc \<noteq> []" and "list_all not_newline svc"
  shows "FindSubmatch istioClusterName
      (dir @ CHR ''|'' # ds @ CHR ''|'' # sn @ CHR ''|'' # svc) = Some [1 \<mapsto> ds, 2 \<mapsto> sn, 3 \<mapsto> svc]"
proof -
  let ?r3 = "Seq (Group 3 (Some1Lazy not_newline)) EndText"
  let ?r2 = "Seq (Group 2 (ManyLazy not_newline)) (Seq (Lit (CHR ''|'')) ?r3)"
  let ?r1 = "Seq (Group 1 (Some1 digit)) (Seq (Lit (CHR ''|'')) ?r2)"
  have "re_match ?r1 (ds @ CHR ''|'' # sn @ CHR ''|'' # svc) Map.empty (\<lambda>s c. Some c) =
      Some [1 \<mapsto> ds, 2 \<mapsto> sn, 3 \<mapsto> svc]"
    using assms by (intro port_match subset_match service_match)
  then have "many_lazy not_newline (dir @ CHR ''|'' # ds @ CHR ''|'' # sn @ CHR ''|'' # svc) Map.empty
      (separated ?r1) = Some [1 \<mapsto> ds, 2 \<mapsto> sn, 3 \<mapsto> svc]"
    using assms(1,2) by (intro lazy_until) simp_all
  then show ?thesis
    unfolding FindSubmatch_def istioClusterName_def separated_def by simp
qed

lemma lazy_never:
  assumes "sep \<notin> set s" and "\<And>y ys c'. y \<noteq> sep \<Longrightarrow> k (y # ys) c' = None" and "\<And>c'. k [] c' = None"
  shows "many_lazy p s c k = None"
  using assms by (induction s) auto

lemma istioClusterName_no_bar:
  assumes "CHR ''|'' \<notin> set s"
  shows "FindSubmatch istioClusterName s = None"
  unfolding FindSubmatch_def istioClusterName_def re_match.simps(5) [of "ManyLazy _"] re_match.simps(4)
  using assms by (intro lazy_never [where sep = "CHR ''|''"]) (simp_all add: Lit_def)

lemma decimal_all_digits: "list_all digit (decimal n)"
  using decimal_digits [of _ n] by (auto simp: list_all_iff digit_def)

lemma Atoi_decimal: "Atoi_digits (decimal n) = min n (2 ^ 63 - 1)"
  by (simp add: Atoi_digits_def decimal_value_decimal)

text \<open>All the patches of a filter.\<close>

lemma newEnvoyFilter_result:
  "\<exists>cs f d ps cn. newEnvoyFilter cfg ks ef pols = Ok (ef\<lparr>ef_ConfigPatches := cs @ [f, d] @ ps\<rparr>)
     \<and> (case parseIstioClusterName cfg of
          None \<Rightarrow> cs = [] \<and> cn = ClusterName cfg
        | Some (svc, port, sn) \<Rightarrow> cn = svc @ '':'' @ decimal port \<and> map cp_ApplyTo cs = [CLUSTER])
     \<and> cp_ApplyTo f = HTTP_FILTER \<and> filter_cluster f = Some (PString cn)
     \<and> cp_ApplyTo d = VIRTUAL_HOST \<and> patch_disables d
     \<and> cp_Match d = Some \<lparr>ma_Context = GATEWAY, ma_ObjectTypes = None\<rparr>
     \<and> map patch_rule (cs @ [f, d]) = replicate (length cs + 2) None
     \<and> map patch_rule ps = map Some (concat (map (policy_rules ks) pols))"
proof -
  obtain cs cn where first: "(case parseIstioClusterName cfg of
          Some (svc, port, subset_name) \<Rightarrow>
            (let clusterName = svc @ '':'' @ decimal port
             in res_bind (cluster_patch svc port subset_name clusterName)
                  (\<lambda>p. Ok (clusterName, [p])))
        | None \<Rightarrow> Ok (ClusterName cfg, [])) = (Ok (cn, cs) :: (go_error, string \<times> config_patch list) res)"
    and cs: "case parseIstioClusterName cfg of
          None \<Rightarrow> cs = [] \<and> cn = ClusterName cfg
        | Some (svc, port, sn) \<Rightarrow> cn = svc @ '':'' @ decimal port \<and> map cp_ApplyTo cs = [CLUSTER]"
  proof (cases "parseIstioClusterName cfg")
    case (Some x)
    obtain svc port sn where x: "x = (svc, port, sn)" by (cases x) auto
    obtain p where "cluster_patch svc port sn (svc @ '':'' @ decimal port) = Ok p" "cp_ApplyTo p = CLUSTER"
      using cluster_patch_result by blast
    with Some x show ?thesis by (intro that [of "svc @ '':'' @ decimal port" "[p]"]) simp_all
  qed simp
  obtain f where f: "filter_patch cfg cn = Ok f" "cp_ApplyTo f = HTTP_FILTER"
    "filter_cluster f = Some (PString cn)"
    using filter_patch_result by blast
  obtain d where d: "disable_patch = Ok d" "cp_ApplyTo d = VIRTUAL_HOST" "patch_disables d"
    "cp_Match d = Some \<lparr>ma_Context = GATEWAY, ma_ObjectTypes = None\<rparr>"
    using disable_patch_result by blast
  have "patch_rule p = None" if "cp_ApplyTo p \<in> {CLUSTER, HTTP_FILTER}" for p
    using that by (auto simp: patch_rule_def patch_target_def)
  moreover have "patch_rule d = None" using d by (simp add: patch_rule_def patch_target_def)
  moreover have "cs = [] \<or> (\<exists>c. cs = [c] \<and> cp_ApplyTo c = CLUSTER)"
    using cs by (auto split: option.splits prod.splits)
  ultimately have early: "map patch_rule (cs @ [f, d]) = replicate (length cs + 2) None"
    using f(2) by auto
  obtain pss where pss: "res_map (policy_patches ks) pols = Ok pss"
    "map (map patch_rule) pss = map (\<lambda>pol. map Some (policy_rules ks pol)) pols"
    using res_map_view [of "policy_patches ks" "map patch_rule" "\<lambda>pol. map Some (policy_rules ks pol)"]
      policy_patches_result by blast
  have "newEnvoyFilter cfg ks ef pols = Ok (ef\<lparr>ef_ConfigPatches := cs @ [f, d] @ concat pss\<rparr>)"
    unfolding newEnvoyFilter_def first by (simp add: f(1) d(1) pss(1))
  moreover have "map patch_rule (concat pss) = map Some (concat (map (policy_rules ks) pols))"
    by (simp add: map_concat pss(2) comp_def)
  ultimately show ?thesis
    using cs f(2,3) d(2-4) early
    by (intro exI [of _ cs] exI [of _ f] exI [of _ d] exI [of _ "concat pss"] exI [of _ cn]) simp
qed

section \<open>Claims\<close>

text \<open>
  C22: Building a filter never panics and changes nothing but its patches. The check is turned off for
  every virtual host of the gateways first; then, for each policy, each of its virtual hosts has one
  rule for the default route and one for each named route: it turns the check on with the names of
  the policy and of the route exactly when the route enforces, and leaves it off otherwise. The HTTP
  filter asks the cluster of the configuration. No other patch is about a virtual host or a route.
\<close>

theorem filter_rules_of_policies:
  "\<exists>cs f d ps cn. newEnvoyFilter cfg ks ef pols = Ok (ef\<lparr>ef_ConfigPatches := cs @ [f, d] @ ps\<rparr>)
     \<and> (case parseIstioClusterName cfg of
          None \<Rightarrow> cs = [] \<and> cn = ClusterName cfg
        | Some (svc, port, sn) \<Rightarrow> cn = svc @ '':'' @ decimal port \<and> map cp_ApplyTo cs = [CLUSTER])
     \<and> cp_ApplyTo f = HTTP_FILTER \<and> filter_cluster f = Some (PString cn)
     \<and> cp_ApplyTo d = VIRTUAL_HOST \<and> patch_disables d
     \<and> cp_Match d = Some \<lparr>ma_Context = GATEWAY, ma_ObjectTypes = None\<rparr>
     \<and> map patch_rule (cs @ [f, d]) = replicate (length cs + 2) None
     \<and> map patch_rule ps = map Some (concat (map (policy_rules ks) pols))"
  by (rule newEnvoyFilter_result)

text \<open>
  A cluster name as Istio writes it, a direction, a port, a subset and a service between bars, is
  taken apart into these parts; a port beyond the range of \<^verbatim>\<open>int\<close> is clamped. A name without a bar is
  never taken for such a name.
\<close>

lemma istio_cluster_name_parts:
  assumes "CHR ''|'' \<notin> set dir" and "CHR ''|'' \<notin> set sn" and "svc \<noteq> []"
    and "CHR 0x0A \<notin> set (dir @ sn @ svc)"
    and "ClusterName cfg = dir @ ''|'' @ decimal port @ ''|'' @ sn @ ''|'' @ svc"
  shows "parseIstioClusterName cfg = Some (svc, min port (2 ^ 63 - 1), sn)
    \<and> (CHR ''|'' \<notin> set plain \<longrightarrow> parseIstioClusterName (cfg\<lparr>ClusterName := plain\<rparr>) = None)"
proof -
  have "FindSubmatch istioClusterName (ClusterName cfg) = Some [1 \<mapsto> decimal port, 2 \<mapsto> sn, 3 \<mapsto> svc]"
    unfolding assms(5) append_Cons append_Nil using assms(1-4)
    by (intro istioClusterName_match) (auto simp: not_newline_def list_all_iff decimal_digits digit_def)
  then show ?thesis
    using istioClusterName_no_bar [of plain] by (simp add: parseIstioClusterName_def Atoi_decimal)
qed

lemma istio_cluster_name_parts_witness:
  "parseIstioClusterName \<lparr>ClusterName = ''outbound|'' @ decimal 8080 @ ''|v1|auth.ns.svc'', Timeout = Second\<rparr> =
     Some (''auth.ns.svc'', 8080, ''v1'')"
  using istio_cluster_name_parts [of "''outbound''" "''v1''" "''auth.ns.svc''"
      "\<lparr>ClusterName = ''outbound|'' @ decimal 8080 @ ''|v1|auth.ns.svc'', Timeout = Second\<rparr>" 8080 "[]"]
  by simp

text \<open>
  C34: The timeout of the check is rounded to a whole number of seconds in the filter, less than a second
  away from what the configuration asks for; one of half a second or less becomes zero, and whole seconds
  are kept.
\<close>

theorem timeout_rounded_to_seconds:
  assumes "0 \<le> Timeout cfg" and "Timeout cfg < 2 ^ 63" and "filter_patch cfg cn = Ok p"
  shows "\<exists>n. filter_timeout p = Some (PString (decimal n @ ''s''))
    \<and> \<bar>Second * int n - Timeout cfg\<bar> < Second
    \<and> (2 * Timeout cfg \<le> Second \<longrightarrow> n = 0)
    \<and> (Second dvd Timeout cfg \<longrightarrow> Second * int n = Timeout cfg)"
proof -
  define s where "s = nat (Timeout cfg) div 10 ^ 9"
  have t: "filter_timeout p = Some (PString (timeout_text (Timeout cfg)))"
    using assms(3) filter_patch_result [of cfg cn] by auto
  have S: "Second = 10 ^ 9" by (simp add: Second_def)
  obtain n where n: "timeout_text (Timeout cfg) = decimal n @ ''s''" "s \<le> n" "n \<le> Suc s"
    using timeout_text_bounds [OF assms(1,2)] by (auto simp: s_def)
  have d: "int s = Timeout cfg div Second" "Timeout cfg = Second * int s + Timeout cfg mod Second"
    using assms(1) by (simp_all add: s_def S zdiv_int)
  have zero: "decimal 0 = ''0''" by code_simp
  consider (short) "2 * Timeout cfg \<le> Second" | (whole) "Second dvd Timeout cfg"
    | (other) "\<not> 2 * Timeout cfg \<le> Second" "\<not> Second dvd Timeout cfg"
    by blast
  then show ?thesis
  proof cases
    case short
    then have "timeout_text (Timeout cfg) = decimal 0 @ ''s''"
      using timeout_text_short [OF assms(1)] zero by (simp add: S)
    moreover have "Second dvd Timeout cfg \<longrightarrow> Timeout cfg = 0"
      using short assms(1) by (auto simp: S dvd_def)
    ultimately show ?thesis using t short assms(1) by (intro exI [of _ 0]) (auto simp: S)
  next
    case whole
    moreover have "nat (Timeout cfg div Second) = s" unfolding d(1) [symmetric] by simp
    ultimately have "timeout_text (Timeout cfg) = decimal s @ ''s''" "Second * int s = Timeout cfg"
      using timeout_text_whole [OF assms(1,2)] d by (simp_all add: S)
    moreover have "2 * Timeout cfg \<le> Second \<longrightarrow> s = 0" using d(2) by (auto simp: s_def S)
    ultimately show ?thesis using t by (intro exI [of _ s]) (auto simp: S)
  next
    case other
    have "\<bar>Second * int n - Timeout cfg\<bar> < Second"
      using n(2,3) d(2) other(2) by (cases "n = s") (auto simp: S le_Suc_eq dvd_eq_mod_eq_0)
    with other n(1) t show ?thesis by auto
  qed
qed

theorem timeout_rounded_to_seconds_witness:
  "\<exists>p. filter_patch \<lparr>ClusterName = ''auth'', Timeout = 400000000\<rparr> ''auth'' = Ok p
     \<and> filter_timeout p = Some (PString ''0s'')"
proof -
  let ?cfg = "\<lparr>ClusterName = ''auth'', Timeout = 400000000\<rparr>"
  obtain p where "filter_patch ?cfg ''auth'' = Ok p"
    using filter_patch_result by blast
  moreover have "decimal 0 = ''0''" by code_simp
  ultimately show ?thesis
    using timeout_rounded_to_seconds [of ?cfg "''auth''"] by (auto simp: Second_def)
qed

end
