(* ===== verification/Filter_Reconciler.thy ===== *)
theory Filter_Reconciler
  imports Envoy_Filter
begin

text \<open>
  The controller that fills in the EnvoyFilters (\<^verbatim>\<open>src/controller/envoyfilter/reconciler.go\<close>): it
  deletes duplicates and filters without a policy, and gives the others the patches of the policies
  with the same selector. \<^verbatim>\<open>sort.Slice\<close> is a parameter: it sorts, but is not stable.
\<close>

record filter_env =
  fe_Controller :: cfg_controller
  fe_ExtAuthz :: cfg_extAuthz
  fe_sort :: "envoy_filter list \<Rightarrow> envoy_filter list"
  fe_range_routes :: "accessPolicy \<Rightarrow> string \<Rightarrow> string list"

section \<open>The reconciler\<close>

definition same_selector :: "envoy_filter \<Rightarrow> envoy_filter list \<Rightarrow> envoy_filter list" where
  "same_selector ef items = filter (\<lambda>x. filter_selector x = filter_selector ef) items"

text \<open>\<^verbatim>\<open>efs[0]\<close> of an empty slice panics.\<close>

definition isDuplicate :: "'c kube \<Rightarrow> filter_env \<Rightarrow> envoy_filter \<Rightarrow> ('c, bool) act" where
  "isDuplicate K e ef w =
     (case ListFilters K (w_cluster w) (IstioRootNamespace (fe_Controller e))
             (EnvoyFilterLabels (fe_Controller e)) of
        Inl err \<Rightarrow> (w, Err (failed ''failed listing EnvoyFilters'' err))
      | Inr items \<Rightarrow>
          (case fe_sort e (same_selector ef items) of
             [] \<Rightarrow> (w, Panic)
           | first # _ \<Rightarrow> (w, Ok (ef_Name ef \<noteq> ef_Name first))))"

text \<open>The loop over the policies; one that does not convert is logged and left out.\<close>

fun related_policies ::
  "envoy_filter \<Rightarrow> policy_object list \<Rightarrow> accessPolicy list \<Rightarrow> (go_error, accessPolicy list) res" where
  "related_policies ef [] aps = Ok aps"
| "related_policies ef (p # ps) aps =
     (if policy_selector (po_Policy p) = filter_selector ef then
        (case New_policy (po_Policy p) None of
           Ok ap \<Rightarrow> related_policies ef ps (aps @ [ap])
         | Err err \<Rightarrow> related_policies ef ps aps
         | Panic \<Rightarrow> Panic)
      else related_policies ef ps aps)"

definition fetchAccessPolicies :: "'c kube \<Rightarrow> envoy_filter \<Rightarrow> ('c, accessPolicy list) act" where
  "fetchAccessPolicies K ef w =
     (case ListPolicies K (w_cluster w) None of
        Inl err \<Rightarrow> (w, Err (failed ''failed listing AccessPolicies'' err))
      | Inr items \<Rightarrow> (w, related_policies ef items []))"

definition Reconcile_filter :: "'c kube \<Rightarrow> filter_env \<Rightarrow> named \<Rightarrow> ('c, unit) act" where
  "Reconcile_filter K e req w =
     (case GetFilter K (w_cluster w) req of
        NotFound \<Rightarrow> (w, Ok ())
      | Failed err \<Rightarrow> (w, Err (failed ''failed getting EnvoyFilter'' err))
      | Found ef \<Rightarrow>
          act_bind (isDuplicate K e ef) (\<lambda>dup.
          if dup then
            act_bind (send (DeleteFilter K) RemoveFilter (failed ''failed deleting EnvoyFilter'') ef)
              (\<lambda>_. act_return ())
          else
            act_bind (fetchAccessPolicies K ef) (\<lambda>aps.
            if length aps = 0 then
              act_bind (send (DeleteFilter K) RemoveFilter (\<lambda>err. err) ef) (\<lambda>_. act_return ())
            else
              (case newEnvoyFilter (fe_ExtAuthz e) (fe_range_routes e) ef aps of
                 Ok ef' \<Rightarrow>
                   act_bind (send (UpdateFilter K) WriteFilter (failed ''failed updating EnvoyFilter'') ef')
                     (\<lambda>_. act_return ())
               | Err err \<Rightarrow> act_fail err
               | Panic \<Rightarrow> (\<lambda>w. (w, Panic))))) w)"

section \<open>Facts\<close>

text \<open>What \<^verbatim>\<open>sort.Slice\<close> promises for the order of the creation times.\<close>

definition sorts :: "(envoy_filter list \<Rightarrow> envoy_filter list) \<Rightarrow> bool" where
  "sorts srt \<longleftrightarrow>
     (\<forall>xs. mset (srt xs) = mset xs
        \<and> sorted_wrt (\<lambda>x y. \<not> ef_CreationTimestamp y < ef_CreationTimestamp x) (srt xs))"

lemma sorts_sort_key: "sorts (sort_key ef_CreationTimestamp)"
proof -
  have "sorted_wrt (\<lambda>x y. \<not> ef_CreationTimestamp y < ef_CreationTimestamp x)
      (sort_key ef_CreationTimestamp xs)" for xs :: "envoy_filter list"
    using sorted_sort_key [of ef_CreationTimestamp xs] by (simp add: sorted_map not_less)
  then show ?thesis by (simp add: sorts_def)
qed

lemma sorts_set: "sorts srt \<Longrightarrow> set (srt xs) = set xs"
  by (metis sorts_def set_mset_mset)

lemma sorts_hd_le:
  "sorts srt \<Longrightarrow> srt xs = y # ys \<Longrightarrow> x \<in> set xs \<Longrightarrow>
     ef_CreationTimestamp y \<le> ef_CreationTimestamp x"
  by (metis linorder_not_less order.refl set_ConsD sorted_wrt.simps(2) sorts_def sorts_set)

definition converts :: "policy_object \<Rightarrow> accessPolicy option" where
  "converts p = (case New_policy (po_Policy p) None of Ok ap \<Rightarrow> Some ap | _ \<Rightarrow> None)"

lemma New_policy_no_panic: "New_policy ap s \<noteq> Panic"
  using new_policy_succeeds_iff by blast

lemma related_policies_result:
  "related_policies ef ps aps =
     Ok (aps @ List.map_filter converts
       (filter (\<lambda>p. policy_selector (po_Policy p) = filter_selector ef) ps))"
  by (induction ps arbitrary: aps)
     (auto simp: map_filter_simps converts_def New_policy_no_panic split: res.splits)


lemma isDuplicate_Ok_iff:
  "isDuplicate K e ef w = (w', Ok dup) \<longleftrightarrow>
     w' = w \<and> (\<exists>items first rest.
       ListFilters K (w_cluster w) (IstioRootNamespace (fe_Controller e))
         (EnvoyFilterLabels (fe_Controller e)) = Inr items
       \<and> fe_sort e (same_selector ef items) = first # rest \<and> dup = (ef_Name ef \<noteq> ef_Name first))"
  by (auto simp: isDuplicate_def split: sum.splits list.splits)

lemma isDuplicate_world: "fst (isDuplicate K e ef w) = w"
  by (auto simp: isDuplicate_def split: sum.splits list.splits)

text \<open>The policies whose patches a filter gets.\<close>

definition filter_policies :: "envoy_filter \<Rightarrow> policy_object list \<Rightarrow> accessPolicy list" where
  "filter_policies ef ps =
     List.map_filter converts (filter (\<lambda>p. policy_selector (po_Policy p) = filter_selector ef) ps)"

lemma fetchAccessPolicies_Ok_iff:
  "fetchAccessPolicies K ef w = (w', Ok aps) \<longleftrightarrow>
     w' = w \<and> (\<exists>items. ListPolicies K (w_cluster w) None = Inr items \<and> aps = filter_policies ef items)"
  by (auto simp: fetchAccessPolicies_def related_policies_result filter_policies_def split: sum.splits)

lemma newEnvoyFilter_Ok: "\<exists>patches. newEnvoyFilter cfg ks ef pols = Ok (ef\<lparr>ef_ConfigPatches := patches\<rparr>)"
  using newEnvoyFilter_result [of cfg ks ef pols] by blast

text \<open>
  A filter with the two or three patches that set the check up, and then exactly the rules of some policies.
\<close>

definition has_rules :: "filter_env \<Rightarrow> accessPolicy list \<Rightarrow> envoy_filter \<Rightarrow> bool" where
  "has_rules e pols ef \<longleftrightarrow>
     (\<exists>cs f d ps cn. ef_ConfigPatches ef = cs @ [f, d] @ ps
        \<and> (case parseIstioClusterName (fe_ExtAuthz e) of
             None \<Rightarrow> cs = [] \<and> cn = ClusterName (fe_ExtAuthz e)
           | Some (svc, port, sn) \<Rightarrow> cn = svc @ '':'' @ decimal port \<and> map cp_ApplyTo cs = [CLUSTER])
        \<and> cp_ApplyTo f = HTTP_FILTER \<and> filter_cluster f = Some (PString cn)
        \<and> cp_ApplyTo d = VIRTUAL_HOST \<and> patch_disables d
        \<and> cp_Match d = Some \<lparr>ma_Context = GATEWAY, ma_ObjectTypes = None\<rparr>
        \<and> map patch_rule ps = map Some (concat (map (policy_rules (fe_range_routes e)) pols)))"

lemma newEnvoyFilter_has_rules:
  assumes "newEnvoyFilter (fe_ExtAuthz e) (fe_range_routes e) ef pols = Ok ef'"
  shows "has_rules e pols ef' \<and> ef' = ef\<lparr>ef_ConfigPatches := ef_ConfigPatches ef'\<rparr>"
proof -
  obtain cs f d ps cn where ef': "ef' = ef\<lparr>ef_ConfigPatches := cs @ [f, d] @ ps\<rparr>"
    and parts: "case parseIstioClusterName (fe_ExtAuthz e) of
        None \<Rightarrow> cs = [] \<and> cn = ClusterName (fe_ExtAuthz e)
      | Some (svc, port, sn) \<Rightarrow> cn = svc @ '':'' @ decimal port \<and> map cp_ApplyTo cs = [CLUSTER]"
      "cp_ApplyTo f = HTTP_FILTER" "filter_cluster f = Some (PString cn)"
      "cp_ApplyTo d = VIRTUAL_HOST" "patch_disables d"
      "cp_Match d = Some \<lparr>ma_Context = GATEWAY, ma_ObjectTypes = None\<rparr>"
      "map patch_rule ps = map Some (concat (map (policy_rules (fe_range_routes e)) pols))"
    using newEnvoyFilter_result [of "fe_ExtAuthz e" "fe_range_routes e" ef pols] assms by auto
  have "ef_ConfigPatches ef' = cs @ [f, d] @ ps" by (simp add: ef')
  with parts have "has_rules e pols ef'" unfolding has_rules_def by blast
  then show ?thesis by (simp add: ef')
qed

lemma Reconcile_filter_outcome:
  assumes "GetFilter K (w_cluster w) req = Found ef" and "Reconcile_filter K e req w = (w', Ok ())"
  shows "\<exists>items first rest. ListFilters K (w_cluster w) (IstioRootNamespace (fe_Controller e))
        (EnvoyFilterLabels (fe_Controller e)) = Inr items
    \<and> fe_sort e (same_selector ef items) = first # rest
    \<and> (if ef_Name ef \<noteq> ef_Name first then adds w w' [RemoveFilter ef]
       else \<exists>ps. ListPolicies K (w_cluster w) None = Inr ps
         \<and> (if filter_policies ef ps = [] then adds w w' [RemoveFilter ef]
            else \<exists>ef'. adds w w' [WriteFilter ef']
                \<and> newEnvoyFilter (fe_ExtAuthz e) (fe_range_routes e) ef (filter_policies ef ps) = Ok ef'))"
proof -
  obtain dup where dup: "isDuplicate K e ef w = (w, Ok dup)"
    using assms by (auto simp: Reconcile_filter_def act_bind_Ok_iff isDuplicate_Ok_iff)
  then obtain items first rest where items: "ListFilters K (w_cluster w)
        (IstioRootNamespace (fe_Controller e)) (EnvoyFilterLabels (fe_Controller e)) = Inr items"
    "fe_sort e (same_selector ef items) = first # rest" and d: "dup = (ef_Name ef \<noteq> ef_Name first)"
    by (auto simp: isDuplicate_Ok_iff)
  note step = assms(2) [unfolded Reconcile_filter_def assms(1) got.case act_bind_Ok [where m = "isDuplicate K e ef", OF dup]]
  show ?thesis
  proof (cases dup)
    case True
    with step obtain x where "send (DeleteFilter K) RemoveFilter (failed ''failed deleting EnvoyFilter'')
        ef w = (w', Ok x)" by (auto simp: act_bind_Ok_iff)
    from send_adds [OF this] True items d show ?thesis by auto
  next
    case False
    with step obtain ps where ps: "ListPolicies K (w_cluster w) None = Inr ps"
      and fetch: "fetchAccessPolicies K ef w = (w, Ok (filter_policies ef ps))"
      by (auto simp: act_bind_Ok_iff fetchAccessPolicies_Ok_iff)
    note step2 = step [simplified False if_False act_bind_Ok [where m = "fetchAccessPolicies K ef", OF fetch]]
    obtain patches where new: "newEnvoyFilter (fe_ExtAuthz e) (fe_range_routes e) ef
        (filter_policies ef ps) = Ok (ef\<lparr>ef_ConfigPatches := patches\<rparr>)"
      using newEnvoyFilter_Ok by blast
    show ?thesis
    proof (cases "filter_policies ef ps = []")
      case True
      with step2 obtain x where "send (DeleteFilter K) RemoveFilter (\<lambda>err. err) ef w = (w', Ok x)"
        by (auto simp: act_bind_Ok_iff)
      from send_adds [OF this] True False items d ps show ?thesis by auto
    next
      case policies: False
      with step2 new obtain x where "send (UpdateFilter K) WriteFilter
          (failed ''failed updating EnvoyFilter'') (ef\<lparr>ef_ConfigPatches := patches\<rparr>) w = (w', Ok x)"
        by (auto simp: act_bind_Ok_iff)
      from send_adds [OF this] new policies False items d ps
      show ?thesis by auto
    qed
  qed
qed

section \<open>Claims\<close>

text \<open>
  C24: A reconciliation of an existing filter that returns without an error made one write: it deleted
  the filter when another one of the same selector is first by creation time, or when no policy of its
  selector converts; otherwise it wrote the filter, with nothing changed but the patches. These are the one
  for the cluster of the auth server when it is named the way Istio does, the one that adds the check, the one
  that turns it off everywhere, and then the rules of the policies of its selector that convert and
  nothing else (\<open>has_rules\<close>).
\<close>

theorem filter_written_or_deleted:
  assumes "GetFilter K (w_cluster w) req = Found ef" and "Reconcile_filter K e req w = (w', Ok ())"
  shows "\<exists>items first rest. ListFilters K (w_cluster w) (IstioRootNamespace (fe_Controller e))
        (EnvoyFilterLabels (fe_Controller e)) = Inr items
    \<and> fe_sort e (same_selector ef items) = first # rest
    \<and> (if ef_Name ef \<noteq> ef_Name first then adds w w' [RemoveFilter ef]
       else \<exists>ps. ListPolicies K (w_cluster w) None = Inr ps
         \<and> (if filter_policies ef ps = [] then adds w w' [RemoveFilter ef]
            else \<exists>ef'. adds w w' [WriteFilter ef'] \<and> has_rules e (filter_policies ef ps) ef'
                \<and> ef' = ef\<lparr>ef_ConfigPatches := ef_ConfigPatches ef'\<rparr>))"
proof -
  obtain items first rest where items: "ListFilters K (w_cluster w) (IstioRootNamespace (fe_Controller e))
        (EnvoyFilterLabels (fe_Controller e)) = Inr items" "fe_sort e (same_selector ef items) = first # rest"
    and out: "if ef_Name ef \<noteq> ef_Name first then adds w w' [RemoveFilter ef]
       else \<exists>ps. ListPolicies K (w_cluster w) None = Inr ps
         \<and> (if filter_policies ef ps = [] then adds w w' [RemoveFilter ef]
            else \<exists>ef'. adds w w' [WriteFilter ef']
              \<and> newEnvoyFilter (fe_ExtAuthz e) (fe_range_routes e) ef (filter_policies ef ps) = Ok ef')"
    using Reconcile_filter_outcome [OF assms] by blast
  have written: "\<exists>ef'. adds w w' [WriteFilter ef'] \<and> has_rules e pols ef'
      \<and> ef' = ef\<lparr>ef_ConfigPatches := ef_ConfigPatches ef'\<rparr>"
    if "\<exists>ef'. adds w w' [WriteFilter ef'] \<and> newEnvoyFilter (fe_ExtAuthz e) (fe_range_routes e) ef pols = Ok ef'"
    for pols
    using that newEnvoyFilter_has_rules by blast
  show ?thesis
  proof (cases "ef_Name ef \<noteq> ef_Name first")
    case True
    with items out show ?thesis by (intro exI [of _ items] exI [of _ first] exI [of _ rest]) simp
  next
    case False
    with out obtain ps where ps: "ListPolicies K (w_cluster w) None = Inr ps"
      and rest_out: "if filter_policies ef ps = [] then adds w w' [RemoveFilter ef]
            else \<exists>ef'. adds w w' [WriteFilter ef']
              \<and> newEnvoyFilter (fe_ExtAuthz e) (fe_range_routes e) ef (filter_policies ef ps) = Ok ef'"
      by auto
    have "if filter_policies ef ps = [] then adds w w' [RemoveFilter ef]
        else \<exists>ef'. adds w w' [WriteFilter ef'] \<and> has_rules e (filter_policies ef ps) ef'
          \<and> ef' = ef\<lparr>ef_ConfigPatches := ef_ConfigPatches ef'\<rparr>"
      using rest_out written [of "filter_policies ef ps"] by (simp split: if_splits)
    with False items ps show ?thesis
      by (intro exI [of _ items] exI [of _ first] exI [of _ rest]) simp
  qed
qed

definition demo_filter :: "string \<Rightarrow> time \<Rightarrow> envoy_filter" where
  "demo_filter nm created =
     \<lparr>ef_Namespace = ''istio-system'', ef_Name = nm, ef_GenerateName = ''ext-authz-'',
      ef_Labels = EnvoyFilterLabels demo_controller, ef_CreationTimestamp = created,
      ef_WorkloadSelector = Some (Some [''istio'' \<mapsto> ''gw'']), ef_ConfigPatches = []\<rparr>"

definition demo_filter_env :: filter_env where
  "demo_filter_env =
     \<lparr>fe_Controller = demo_controller, fe_ExtAuthz = \<lparr>ClusterName = ''auth'', Timeout = Second\<rparr>,
      fe_sort = sort_key ef_CreationTimestamp, fe_range_routes = \<lambda>pol v. [''admin'']\<rparr>"

definition demo_selected :: policy_object where
  "demo_selected = demo_object\<lparr>po_Policy := demo_policy\<lparr>ap_Status :=
     \<lparr>st_Ingress = \<lparr>ai_Selector = Some [''istio'' \<mapsto> ''gw'']\<rparr>, st_VirtualHosts = [''a.io:443'']\<rparr>\<rparr>\<rparr>"

lemmas demo_filter_defs =
  demo_filter_def demo_filter_env_def demo_kube_def demo_world_def filter_key_def
  same_selector_def demo_controller_def

lemma demo_filter_list:
  "ListFilters (demo_kube ps data [demo_filter nm t]) c (IstioRootNamespace (fe_Controller demo_filter_env))
     (EnvoyFilterLabels (fe_Controller demo_filter_env)) = Inr [demo_filter nm t]"
  by (simp add: demo_filter_defs)

lemma demo_filter_policies: "filter_policies (demo_filter nm t) [demo_selected] \<noteq> []"
proof -
  have "policy_selector (po_Policy demo_selected) = filter_selector (demo_filter nm t)"
    by (simp add: demo_selected_def demo_filter_def policy_selector_def filter_selector_def
        GetSelector_def GetIngress_def)
  moreover have "\<exists>pol. converts demo_selected = Some pol"
    by (simp add: converts_def demo_selected_def New_policy_def convert_policy_def convert_oidc_def
        demo_policy_def demo_callback_parses split: prod.splits)
  ultimately show ?thesis by (auto simp: filter_policies_def map_filter_simps)
qed

lemma demo_filter_run:
  assumes "filter_policies (demo_filter ''f'' 5) ps \<noteq> []"
  shows "\<exists>w'. Reconcile_filter (demo_kube ps None [demo_filter ''f'' 5]) demo_filter_env
     \<lparr>nn_Namespace = ''istio-system'', nn_Name = ''f''\<rparr> demo_world = (w', Ok ())"
proof -
  let ?K = "demo_kube ps None [demo_filter ''f'' 5]"
  let ?ef = "demo_filter ''f'' 5"
  have get: "GetFilter ?K c \<lparr>nn_Namespace = ''istio-system'', nn_Name = ''f''\<rparr> = Found ?ef" for c
    by (simp add: demo_filter_defs)
  have dup: "isDuplicate ?K demo_filter_env ?ef demo_world = (demo_world, Ok False)"
    unfolding isDuplicate_Ok_iff demo_filter_list by (simp add: demo_filter_defs)
  have fetch: "fetchAccessPolicies ?K ?ef demo_world = (demo_world, Ok (filter_policies ?ef ps))"
    by (simp add: fetchAccessPolicies_Ok_iff demo_kube_def)
  obtain ef' where new: "newEnvoyFilter (fe_ExtAuthz demo_filter_env) (fe_range_routes demo_filter_env) ?ef
      (filter_policies ?ef ps) = Ok ef'"
    using newEnvoyFilter_Ok by blast
  have up: "UpdateFilter ?K = (\<lambda>x c. (c, Inr x))" by (simp add: demo_kube_def)
  show ?thesis
    using assms
    by (simp add: Reconcile_filter_def get act_bind_def dup fetch new send_def up act_return_def)
qed

theorem filter_written_or_deleted_witness:
  "\<exists>w' ef' pol. Reconcile_filter (demo_kube [demo_selected] None [demo_filter ''f'' 5]) demo_filter_env
       \<lparr>nn_Namespace = ''istio-system'', nn_Name = ''f''\<rparr> demo_world = (w', Ok ())
     \<and> w_calls w' = [WriteFilter ef'] \<and> has_rules demo_filter_env [pol] ef'"
proof -
  let ?K = "demo_kube [demo_selected] None [demo_filter ''f'' 5]"
  let ?ef = "demo_filter ''f'' 5"
  let ?req = "\<lparr>nn_Namespace = ''istio-system'', nn_Name = ''f''\<rparr>"
  obtain w' where run: "Reconcile_filter ?K demo_filter_env ?req demo_world = (w', Ok ())"
    using demo_filter_run [OF demo_filter_policies] by blast
  have get: "GetFilter ?K (w_cluster demo_world) ?req = Found ?ef" by (simp add: demo_filter_defs)
  have lists: "ListPolicies ?K (w_cluster demo_world) None = Inr [demo_selected]"
    by (simp add: demo_kube_def)
  have sort: "fe_sort demo_filter_env (same_selector ?ef [?ef]) = [?ef]"
    by (simp add: demo_filter_env_def same_selector_def)
  obtain pol where "filter_policies ?ef [demo_selected] = [pol]"
    using demo_filter_policies [of "''f''" 5]
    by (auto simp: filter_policies_def map_filter_simps split: if_splits option.splits)
  with filter_written_or_deleted [OF get run] show ?thesis
    unfolding demo_filter_list using lists sort run by (auto simp: adds_def demo_world_def)
qed

text \<open>
  Among the filters of one selector the oldest survives: a filter is a duplicate exactly when its
  name is not that of the oldest one, provided no other of them has the same creation time.
\<close>

lemma oldest_filter_survives:
  assumes "sorts (fe_sort e)"
    and "ListFilters K (w_cluster w) (IstioRootNamespace (fe_Controller e))
        (EnvoyFilterLabels (fe_Controller e)) = Inr items"
    and "oldest \<in> set (same_selector ef items)"
    and "\<forall>x \<in> set (same_selector ef items). x \<noteq> oldest \<longrightarrow>
        ef_CreationTimestamp oldest < ef_CreationTimestamp x"
  shows "isDuplicate K e ef w = (w, Ok (ef_Name ef \<noteq> ef_Name oldest))"
proof -
  have set_eq: "set (fe_sort e (same_selector ef items)) = set (same_selector ef items)"
    using assms(1) by (rule sorts_set)
  then obtain first rest where s: "fe_sort e (same_selector ef items) = first # rest"
    using assms(3) by (cases "fe_sort e (same_selector ef items)") auto
  have "ef_CreationTimestamp first \<le> ef_CreationTimestamp oldest"
    by (rule sorts_hd_le [OF assms(1) s assms(3)])
  moreover have "first \<in> set (same_selector ef items)" using set_eq s by auto
  ultimately have "first = oldest" using assms(4) by force
  with assms(2) s show ?thesis by (simp add: isDuplicate_def)
qed

lemma oldest_filter_survives_witness:
  "isDuplicate (demo_kube [] None [demo_filter ''b'' 7, demo_filter ''a'' 5]) demo_filter_env
     (demo_filter ''b'' 7) demo_world = (demo_world, Ok True)"
proof -
  have "isDuplicate (demo_kube [] None [demo_filter ''b'' 7, demo_filter ''a'' 5]) demo_filter_env
     (demo_filter ''b'' 7) demo_world =
     (demo_world, Ok (ef_Name (demo_filter ''b'' 7) \<noteq> ef_Name (demo_filter ''a'' 5)))"
  proof (rule oldest_filter_survives [where items = "[demo_filter ''b'' 7, demo_filter ''a'' 5]"])
    show "sorts (fe_sort demo_filter_env)"
      by (simp add: demo_filter_env_def sorts_sort_key)
  qed (simp_all add: demo_filter_defs filter_selector_def)
  then show ?thesis by (simp add: demo_filter_def)
qed

text \<open>
  Two filters of one selector that were made in the same second can delete each other. The API
  server does not promise an order of the list: with a stable sort, each one sees the other first when
  the list has the other first, and both reconciliations delete the filter they are about.
\<close>

lemma twins_delete_each_other:
  assumes "fe_sort e = sort_key ef_CreationTimestamp"
    and "ef_CreationTimestamp a = ef_CreationTimestamp b" and "filter_selector a = filter_selector b"
    and "ef_Name a \<noteq> ef_Name b"
    and "GetFilter K ca ka = Found a" and "GetFilter K cb kb = Found b"
    and "ListFilters K ca (IstioRootNamespace (fe_Controller e)) (EnvoyFilterLabels (fe_Controller e))
        = Inr [b, a]"
    and "ListFilters K cb (IstioRootNamespace (fe_Controller e)) (EnvoyFilterLabels (fe_Controller e))
        = Inr [a, b]"
    and "w_cluster wa = ca" and "w_cluster wb = cb"
  shows "w_calls (fst (Reconcile_filter K e ka wa)) = w_calls wa @ [RemoveFilter a]
    \<and> w_calls (fst (Reconcile_filter K e kb wb)) = w_calls wb @ [RemoveFilter b]"
proof -
  have dup_a: "isDuplicate K e a wa = (wa, Ok True)" and dup_b: "isDuplicate K e b wb = (wb, Ok True)"
    using assms by (simp_all add: isDuplicate_def same_selector_def)
  have del: "w_calls (fst (act_bind (send (DeleteFilter K) RemoveFilter g x) (\<lambda>_. act_return ()) w)) =
      w_calls w @ [RemoveFilter x]" for g x and w :: "'a world"
    using send_calls [of "DeleteFilter K" RemoveFilter g x w]
    by (auto simp: act_bind_def act_return_def split: prod.splits res.splits)
  show ?thesis
    using assms(5,6,9,10) dup_a dup_b
    by (simp add: Reconcile_filter_def act_bind_Ok [where m = "isDuplicate K e a", OF dup_a]
        act_bind_Ok [where m = "isDuplicate K e b", OF dup_b] del)
qed

end
