(* ===== verification/Auth_Roles.thy ===== *)
theory Auth_Roles
  imports Access_Policy
begin

text \<open>
  The decision whether a user has the roles a route asks for (\<^verbatim>\<open>src/auth/roles.go\<close>). A role of a
  user is the prefix of a mapping followed by a role extracted with that mapping.
\<close>

section \<open>The code\<close>

text \<open>\<open>ks\<close> is the order in which the second loop over the map visits its keys.\<close>

definition resolved_roles :: "(string \<rightharpoonup> string list) \<Rightarrow> string list \<Rightarrow> string list" where
  "resolved_roles provided ks = concat (map (\<lambda>k. map (\<lambda>v. k @ v) (lookup0 [] provided k)) ks)"

definition found_roles :: "string list \<Rightarrow> (string \<rightharpoonup> bool)" where
  "found_roles resolved = fold (\<lambda>k found. found(k \<mapsto> True)) resolved Map.empty"

fun all_found :: "(string \<rightharpoonup> bool) \<Rightarrow> string list \<Rightarrow> bool" where
  "all_found found [] = True"
| "all_found found (v # vs) = (if \<not> lookup0 False found v then False else all_found found vs)"

definition hasRoles :: "string list \<Rightarrow> (string \<rightharpoonup> string list) \<Rightarrow> string list \<Rightarrow> bool" where
  "hasRoles required provided ks = all_found (found_roles (resolved_roles provided ks)) required"

section \<open>What it decides\<close>

definition granted :: "(string \<rightharpoonup> string list) \<Rightarrow> string set" where
  "granted provided = {p @ r | p r rs. provided p = Some rs \<and> r \<in> set rs}"

lemma found_roles_lookup: "lookup0 False (found_roles xs) v \<longleftrightarrow> v \<in> set xs"
proof -
  have "lookup0 False (fold (\<lambda>k found. found(k \<mapsto> True)) xs m) v \<longleftrightarrow> v \<in> set xs \<or> lookup0 False m v" for m
    by (induction xs arbitrary: m) auto
  then show ?thesis by (simp add: found_roles_def)
qed

lemma all_found_iff: "all_found (found_roles xs) required \<longleftrightarrow> set required \<subseteq> set xs"
  by (induction required) (auto simp: found_roles_lookup)

lemma resolved_granted: "ranges provided ks \<Longrightarrow> set (resolved_roles provided ks) = granted provided"
proof -
  assume r: "ranges provided ks"
  have l: "v \<in> set (lookup0 [] provided k) \<longleftrightarrow> (\<exists>rs. provided k = Some rs \<and> v \<in> set rs)" for k v
    by (cases "provided k") simp_all
  have d: "k \<in> set ks" if "provided k = Some rs" for k rs
    using r that by (auto simp: ranges_def)
  have "x \<in> set (resolved_roles provided ks) \<longleftrightarrow> x \<in> granted provided" for x
  proof -
    have "x \<in> set (resolved_roles provided ks) \<longleftrightarrow>
        (\<exists>k \<in> set ks. \<exists>v \<in> set (lookup0 [] provided k). x = k @ v)"
      by (auto simp: resolved_roles_def)
    also have "\<dots> \<longleftrightarrow> (\<exists>k rs v. provided k = Some rs \<and> v \<in> set rs \<and> x = k @ v)"
      unfolding Bex_def l using d by blast
    finally show ?thesis by (auto simp: granted_def)
  qed
  then show ?thesis by blast
qed

lemma hasRoles_iff: "ranges provided ks \<Longrightarrow> hasRoles required provided ks \<longleftrightarrow> set required \<subseteq> granted provided"
  by (simp add: hasRoles_def all_found_iff resolved_granted)

text \<open>A user who gains roles keeps every permission, and one who is asked for fewer has them too.\<close>

lemma granted_mono: "(\<And>p rs. a p = Some rs \<Longrightarrow> \<exists>rs'. b p = Some rs' \<and> set rs \<subseteq> set rs') \<Longrightarrow>
    granted a \<subseteq> granted b"
  by (fastforce simp: granted_def)

section \<open>Claims\<close>

text \<open>
  The required roles are granted exactly when each of them is a mapping's prefix followed by one
  of the roles under that prefix, in whatever order the map is visited.
\<close>

lemma has_roles_iff_granted:
  assumes "ranges provided ks" and "ranges provided ks'"
  shows "(hasRoles required provided ks \<longleftrightarrow>
      (\<forall>v \<in> set required. \<exists>p rs r. provided p = Some rs \<and> r \<in> set rs \<and> v = p @ r))
    \<and> hasRoles required provided ks = hasRoles required provided ks'"
  using assms by (simp add: hasRoles_iff granted_def subset_iff) blast

theorem has_roles_iff_granted_witness:
  "hasRoles [''r:admin''] [''r:'' \<mapsto> [''user'', ''admin''], ''s:'' \<mapsto> []] [''s:'', ''r:'']
   \<and> \<not> hasRoles [''s:admin''] [''r:'' \<mapsto> [''user'', ''admin''], ''s:'' \<mapsto> []] [''s:'', ''r:'']"
proof -
  have r: "ranges [''r:'' \<mapsto> [''user'', ''admin''], ''s:'' \<mapsto> []] [''s:'', ''r:'']"
    by (auto simp: ranges_def)
  from has_roles_iff_granted [OF r r] show ?thesis by (auto split: if_splits)
qed

end
