(* ===== verification/Go_Http.thy ===== *)
theory Go_Http
  imports Go_Url
begin

text \<open>
  The cookies of package \<^verbatim>\<open>net/http\<close> (Go 1.14): reading a \<^verbatim>\<open>Cookie\<close> header and writing a
  \<^verbatim>\<open>Set-Cookie\<close> header, and \<^verbatim>\<open>strings.TrimSpace\<close>.
\<close>

section \<open>Trimming\<close>

text \<open>The UTF-8 encodings of the white space of package \<^verbatim>\<open>unicode\<close>.\<close>

definition spaces :: "string list" where
  "spaces = map string_of_rune
     ([0x09, 0x0A, 0x0B, 0x0C, 0x0D, 0x20, 0x85, 0xA0, 0x1680]
      @ [0x2000, 0x2001, 0x2002, 0x2003, 0x2004, 0x2005, 0x2006, 0x2007, 0x2008, 0x2009, 0x200A]
      @ [0x2028, 0x2029, 0x202F, 0x205F, 0x3000])"

definition strip_prefix :: "string \<Rightarrow> string \<Rightarrow> string option" where
  "strip_prefix p s = (if p \<noteq> [] \<and> take (length p) s = p then Some (drop (length p) s) else None)"

fun strip_any :: "string list \<Rightarrow> string \<Rightarrow> string option" where
  "strip_any [] s = None"
| "strip_any (p # ps) s =
     (case strip_prefix p s of None \<Rightarrow> strip_any ps s | Some r \<Rightarrow> Some r)"

lemma strip_any_length: "strip_any ps s = Some r \<Longrightarrow> length r < length s"
  by (induction ps) (auto simp: strip_prefix_def split: if_splits option.splits,
      metis length_0_conv less_eq_Suc_le not_less_eq_eq take_eq_Nil2 gr0I diff_less length_greater_0_conv)

function trim_left :: "string list \<Rightarrow> string \<Rightarrow> string" where
  "trim_left ps s = (case strip_any ps s of None \<Rightarrow> s | Some r \<Rightarrow> trim_left ps r)"
  by pat_completeness auto
termination by (relation "measure (length \<circ> snd)") (auto dest: strip_any_length)

declare trim_left.simps [simp del]

definition TrimSpace :: "string \<Rightarrow> string" where
  "TrimSpace s = rev (trim_left (map rev spaces) (rev (trim_left spaces s)))"

section \<open>Reading\<close>

record cookie =
  ck_Name :: string
  ck_Value :: string

definition isToken :: "char \<Rightarrow> bool" where
  "isToken c \<longleftrightarrow> alphanumeric c \<or> c \<in> set ''!#$%&*+-.^_`|~'' \<or> c = CHR 0x27"

definition isCookieNameValid :: "string \<Rightarrow> bool" where
  "isCookieNameValid s \<longleftrightarrow> s \<noteq> [] \<and> list_all isToken s"

definition validCookieValueByte :: "char \<Rightarrow> bool" where
  "validCookieValueByte c \<longleftrightarrow>
     32 \<le> code c \<and> code c < 127 \<and> c \<noteq> CHR 0x22 \<and> c \<noteq> CHR '';'' \<and> c \<noteq> CHR 0x5C"

definition parseCookieValue :: "string \<Rightarrow> string option" where
  "parseCookieValue raw =
     (let v = (if length raw > 1 \<and> hd raw = CHR 0x22 \<and> last raw = CHR 0x22
               then butlast (drop 1 raw) else raw)
      in if list_all validCookieValueByte v then Some v else None)"

definition read_part :: "string \<Rightarrow> cookie list" where
  "read_part part =
     (let p = TrimSpace part in
      if p = [] then []
      else (case split_at (CHR ''='') p of (name, val) \<Rightarrow>
        if \<not> isCookieNameValid name then []
        else (case parseCookieValue val of
                None \<Rightarrow> []
              | Some v \<Rightarrow> [\<lparr>ck_Name = name, ck_Value = v\<rparr>])))"

text \<open>A semicolon at the very start does not split, as \<^verbatim>\<open>splitIndex > 0\<close> fails there.\<close>

function read_parts :: "string \<Rightarrow> cookie list" where
  "read_parts line =
     (if line = [] then []
      else if hd line = CHR '';'' then read_part line
      else (case cut (CHR '';'') line of
              (part, None) \<Rightarrow> read_part part
            | (part, Some rest) \<Rightarrow> read_part part @ read_parts rest))"
  by pat_completeness auto
termination by (relation "measure length") (auto dest!: cut_length [OF sym])

declare read_parts.simps [simp del]

definition readCookies :: "string \<Rightarrow> cookie list" where
  "readCookies line = read_parts (TrimSpace line)"

section \<open>Writing\<close>

definition sanitizeCookieValue :: "string \<Rightarrow> string" where
  "sanitizeCookieValue v =
     (let w = filter validCookieValueByte v in
      if CHR '' '' \<in> set w \<or> CHR '','' \<in> set w then [CHR 0x22] @ w @ [CHR 0x22] else w)"

text \<open>\<^verbatim>\<open>Cookie.String\<close> for the attributes the program sets: a path of \<^verbatim>\<open>/\<close> and \<^verbatim>\<open>HttpOnly\<close>.\<close>

definition cookie_String :: "cookie \<Rightarrow> string" where
  "cookie_String c =
     (if \<not> isCookieNameValid (ck_Name c) then []
      else ck_Name c @ ''='' @ sanitizeCookieValue (ck_Value c) @ ''; Path=/; HttpOnly'')"

section \<open>A cookie survives the round through the browser\<close>

text \<open>The characters of a compact JOSE token.\<close>

definition token_char :: "char \<Rightarrow> bool" where
  "token_char c \<longleftrightarrow> alphanumeric c \<or> c \<in> set ''-_.''"

lemma trim_left_none: "strip_any ps s = None \<Longrightarrow> trim_left ps s = s"
  by (simp add: trim_left.simps [of ps s])

lemma strip_any_first:
  "(\<forall>p \<in> set ps. p \<noteq> [] \<longrightarrow> hd p \<noteq> c) \<Longrightarrow> strip_any ps (c # s) = None"
proof (induction ps)
  case (Cons p ps)
  then have "strip_prefix p (c # s) = None"
    by (cases p) (auto simp: strip_prefix_def)
  with Cons show ?case by simp
qed simp

lemma spaces_ends:
  "\<forall>p \<in> set spaces. p \<noteq> [] \<and> \<not> (33 \<le> code (hd p) \<and> code (hd p) < 127)
     \<and> \<not> (33 \<le> code (last p) \<and> code (last p) < 127)"
  by (simp add: spaces_def rune_eval)

definition visible :: "char \<Rightarrow> bool" where
  "visible c \<longleftrightarrow> 33 \<le> code c \<and> code c < 127"

lemma TrimSpace_visible:
  "s \<noteq> [] \<Longrightarrow> visible (hd s) \<Longrightarrow> visible (last s) \<Longrightarrow> TrimSpace s = s"
proof -
  assume s: "s \<noteq> []" "visible (hd s)" "visible (last s)"
  then have "strip_any spaces s = None"
    using spaces_ends by (cases s) (auto intro!: strip_any_first simp: visible_def)
  moreover have "strip_any (map rev spaces) (rev s) = None"
    using s spaces_ends
    by (cases s rule: rev_cases) (auto intro!: strip_any_first simp: visible_def hd_rev)
  ultimately show ?thesis
    by (simp add: TrimSpace_def trim_left_none)
qed

lemma token_char_valid:
  assumes "token_char c"
  shows "visible c" "validCookieValueByte c" "c \<noteq> CHR '';''" "c \<noteq> CHR '' ''" "c \<noteq> CHR '',''"
    "c \<noteq> CHR 0x22"
proof -
  have "33 \<le> code c \<and> code c < 127"
    using assms by (auto simp: token_char_def alphanumeric_def)
  then show "visible c" "c \<noteq> CHR '' ''" by (auto simp: visible_def)
  show "validCookieValueByte c" "c \<noteq> CHR '';''" "c \<noteq> CHR '',''" "c \<noteq> CHR 0x22"
    using assms by (auto simp: token_char_def alphanumeric_def validCookieValueByte_def)
qed

lemma sanitize_token: "list_all token_char v \<Longrightarrow> sanitizeCookieValue v = v"
proof -
  assume v: "list_all token_char v"
  then have "filter validCookieValueByte v = v"
    using token_char_valid(2) by (auto simp: filter_id_conv list_all_iff)
  then show ?thesis
    using v token_char_valid(4,5) by (auto simp: sanitizeCookieValue_def list_all_iff)
qed

lemma read_token_cookie:
  assumes "isCookieNameValid name" "list_all token_char v" "v \<noteq> []"
    and "list_all visible name" and "CHR '';'' \<notin> set name" "CHR ''='' \<notin> set name"
  shows "readCookies (name @ ''='' @ v) = [\<lparr>ck_Name = name, ck_Value = v\<rparr>]"
proof -
  let ?s = "name @ ''='' @ v"
  have n: "name \<noteq> []" using assms(1) by (simp add: isCookieNameValid_def)
  have vis: "visible (hd ?s)" "visible (last ?s)"
    using n assms token_char_valid(1) by (auto simp: list_all_iff)
  then have t: "TrimSpace ?s = ?s" using n by (intro TrimSpace_visible) auto
  have no: "CHR '';'' \<notin> set ?s"
    using assms token_char_valid(3) by (auto simp: list_all_iff)
  then have "hd ?s \<noteq> CHR '';''" using n by (metis hd_in_set append_is_Nil_conv)
  then have "readCookies ?s = read_part ?s"
    unfolding readCookies_def t by (subst read_parts.simps) (use n cut_id [OF no] in simp)
  also have "\<dots> = [\<lparr>ck_Name = name, ck_Value = v\<rparr>]"
  proof -
    have "split_at (CHR ''='') ?s = (name, v)"
      using assms(6) by (simp add: split_at_def cut_append)
    moreover have "parseCookieValue v = Some v"
      using assms(2,3) token_char_valid(2,6) by (cases v) (auto simp: parseCookieValue_def list_all_iff)
    ultimately show ?thesis using t n assms(1) by (simp add: read_part_def)
  qed
  finally show ?thesis .
qed

end
