(* ===== verification/Session_Store.thy ===== *)
theory Session_Store
  imports Errors
begin

text \<open>
  The session store (\<^verbatim>\<open>src/state/session/store.go\<close>): sessions by id, and per peer the list of
  sessions that peer stamped, in the order of their serial numbers. Each method runs under the
  store's lock and is one function from state to state.
\<close>

section \<open>Data\<close>

record session =
  sess_id :: string
  sess_refresh :: string
  sess_expiry :: time

record stamp =
  st_peer :: string
  st_serial :: u64

record stamped =
  sd_session :: session
  sd_stamp :: stamp

definition zero_stamp :: stamp where
  "zero_stamp = \<lparr>st_peer = [], st_serial = 0\<rparr>"

abbreviation serial :: "stamped \<Rightarrow> u64" where
  "serial v \<equiv> st_serial (sd_stamp v)"

abbreviation peer_of :: "stamped \<Rightarrow> string" where
  "peer_of v \<equiv> st_peer (sd_stamp v)"

abbreviation id_of :: "stamped \<Rightarrow> string" where
  "id_of v \<equiv> sess_id (sd_session v)"

abbreviation expiry_of :: "stamped \<Rightarrow> time" where
  "expiry_of v \<equiv> sess_expiry (sd_session v)"

record sessionStore =
  ss_id :: string
  ss_curr :: u64
  ss_lookup :: "string \<rightharpoonup> session"
  ss_store :: "string \<rightharpoonup> stamped list"

definition NewSessionStore :: "string \<Rightarrow> sessionStore" where
  "NewSessionStore peerId =
     \<lparr>ss_id = peerId, ss_curr = 0, ss_lookup = Map.empty, ss_store = Map.empty\<rparr>"

section \<open>Get and Set\<close>

definition Get :: "sessionStore \<Rightarrow> string \<Rightarrow> session option" where
  "Get ss i = ss_lookup ss i"

text \<open>A session with the zero stamp is a new one of this instance: it gets the next serial.\<close>

definition assign_stamp :: "sessionStore \<Rightarrow> stamped \<Rightarrow> sessionStore \<times> stamped" where
  "assign_stamp ss sess =
     (if sd_stamp sess = zero_stamp
      then (let c = ss_curr ss + 1
            in (ss\<lparr>ss_curr := c\<rparr>, sess\<lparr>sd_stamp := \<lparr>st_peer = ss_id ss, st_serial = c\<rparr>\<rparr>))
      else (ss, sess))"

definition peer_list :: "sessionStore \<Rightarrow> string \<Rightarrow> stamped list" where
  "peer_list ss p = lookup0 [] (ss_store ss) p"

definition out_of_order :: "string \<Rightarrow> u64 \<Rightarrow> u64 \<Rightarrow> go_error" where
  "out_of_order peer latest new =
     new_error ''out of order session''
       [(''peer'', GStr peer), (''latest'', GUint latest), (''new'', GUint new)]"

definition Set :: "sessionStore \<Rightarrow> stamped \<Rightarrow> sessionStore \<times> (go_error + stamped)" where
  "Set ss0 sess0 =
     (let (ss1, sess) = assign_stamp ss0 sess0;
          peer = peer_of sess;
          l = peer_list ss1 peer;
          ss2 = ss1\<lparr>ss_store := (ss_store ss1)(peer \<mapsto> l)\<rparr>
      in if l \<noteq> [] \<and> serial sess \<le> serial (last l)
         then (ss2, Inl (out_of_order peer (serial (last l)) (serial sess)))
         else (ss2\<lparr>ss_store := (ss_store ss2)(peer \<mapsto> l @ [sess]),
                  ss_lookup := (ss_lookup ss2)(id_of sess \<mapsto> sd_session sess)\<rparr>,
               Inr sess))"

section \<open>Stream\<close>

text \<open>
  The sessions sent on the channel: for each peer, in the order \<open>ks\<close> in which the loop visits
  the map, the sessions from the requested serial on, in list order.
\<close>

definition Stream :: "sessionStore \<Rightarrow> (string \<rightharpoonup> u64) \<Rightarrow> string list \<Rightarrow> stamped list" where
  "Stream ss from0 ks =
     concat (map (\<lambda>k. filter (\<lambda>v. lookup0 0 from0 k \<le> serial v) (peer_list ss k)) ks)"

section \<open>Cleaning\<close>

text \<open>
  Package \<^verbatim>\<open>container/list\<close>: a list of elements, each with an identity. \<^verbatim>\<open>Remove\<close> takes the
  element out and clears its links, so \<^verbatim>\<open>Next\<close> of an element that is no longer in the list is
  nil.
\<close>

type_synonym 'a elements = "(nat \<times> 'a) list"

definition list_front :: "'a elements \<Rightarrow> nat option" where
  "list_front es = (case es of [] \<Rightarrow> None | (i, v) # _ \<Rightarrow> Some i)"

fun list_next :: "nat \<Rightarrow> 'a elements \<Rightarrow> nat option" where
  "list_next e [] = None"
| "list_next e ((i, v) # es) = (if i = e then list_front es else list_next e es)"

definition list_remove :: "nat \<Rightarrow> 'a elements \<Rightarrow> 'a elements" where
  "list_remove e es = filter (\<lambda>(i, v). i \<noteq> e) es"

text \<open>\<^verbatim>\<open>delete\<close>: the element leaves its list and its session leaves the lookup table.\<close>

definition delete_elem ::
  "nat \<Rightarrow> stamped \<Rightarrow> stamped elements \<times> (string \<rightharpoonup> session)
    \<Rightarrow> stamped elements \<times> (string \<rightharpoonup> session)" where
  "delete_elem e v s = (list_remove e (fst s), (snd s)(id_of v := None))"

text \<open>
  The loop \<^verbatim>\<open>for e := l.Front(); e != nil; e = e.Next()\<close> of \<^verbatim>\<open>clean\<close>; the fuel bounds the number
  of rounds (\<open>clean_loop_result\<close>: one more than the length of the list is enough).
\<close>

fun clean_loop ::
  "nat \<Rightarrow> time \<Rightarrow> nat option \<Rightarrow> stamped elements \<times> (string \<rightharpoonup> session)
    \<Rightarrow> (stamped elements \<times> (string \<rightharpoonup> session)) option" where
  "clean_loop fuel limit None s = Some s"
| "clean_loop 0 limit (Some e) s = None"
| "clean_loop (Suc fuel) limit (Some e) s =
     (case map_of (fst s) e of
        None \<Rightarrow> None
      | Some v \<Rightarrow>
          (let s' = (if expiry_of v < limit then delete_elem e v s else s)
           in clean_loop fuel limit (list_next e (fst s')) s'))"

definition clean_peer :: "time \<Rightarrow> string \<Rightarrow> sessionStore \<Rightarrow> sessionStore" where
  "clean_peer limit k ss =
     (case ss_store ss k of
        None \<Rightarrow> ss
      | Some l \<Rightarrow>
          (let es = List.enumerate 0 l in
           case clean_loop (Suc (length l)) limit (list_front es) (es, ss_lookup ss) of
             None \<Rightarrow> ss
           | Some (es', lk) \<Rightarrow>
               ss\<lparr>ss_store := (ss_store ss)(k \<mapsto> map snd es'), ss_lookup := lk\<rparr>))"

definition clean :: "time \<Rightarrow> string list \<Rightarrow> sessionStore \<Rightarrow> sessionStore" where
  "clean limit ks ss = fold (clean_peer limit) ks ss"

text \<open>\<^verbatim>\<open>cleaner\<close>: one round of the background loop at time \<open>now\<close>.\<close>

definition cleaner_round :: "time \<Rightarrow> time \<Rightarrow> string list \<Rightarrow> sessionStore \<Rightarrow> sessionStore" where
  "cleaner_round now gracePeriod ks ss = clean (now - gracePeriod) ks ss"

section \<open>The contract of a session store\<close>

text \<open>
  What the users of the Go interface \<^verbatim>\<open>Store\<close> rely on. \<open>inv\<close> is the provider's invariant.
\<close>

locale session_store =
  fixes get :: "'s \<Rightarrow> string \<Rightarrow> session option"
    and put :: "'s \<Rightarrow> stamped \<Rightarrow> 's \<times> (go_error + stamped)"
    and inv :: "'s \<Rightarrow> bool"
  assumes get_after_set:
      "inv s \<Longrightarrow> put s x = (s', Inr y) \<Longrightarrow>
        get s' i = (if i = id_of x then Some (sd_session x) else get s i)"
    and get_after_error: "inv s \<Longrightarrow> put s x = (s', Inl e) \<Longrightarrow> get s' i = get s i"
    and set_inv: "inv s \<Longrightarrow> inv (fst (put s x))"
    and set_same_session: "put s x = (s', Inr y) \<Longrightarrow> sd_session y = sd_session x"
begin

lemma get_present: "inv s \<Longrightarrow> put s x = (s', r) \<Longrightarrow> get s i \<noteq> None \<Longrightarrow> get s' i \<noteq> None"
  using get_after_set [of s x s' _ i] get_after_error [of s x s' _ i]
  by (cases r) (auto split: if_splits)

lemma get_stored: "inv s \<Longrightarrow> put s x = (s', Inr y) \<Longrightarrow> get s' (id_of y) = Some (sd_session y)"
  using get_after_set [of s x s' y "id_of y"] set_same_session [of s x s' y] by simp

end

section \<open>Facts about the operations\<close>

lemma assign_stamp_simps [simp]:
  "ss_store (fst (assign_stamp ss x)) = ss_store ss"
  "ss_lookup (fst (assign_stamp ss x)) = ss_lookup ss"
  "ss_id (fst (assign_stamp ss x)) = ss_id ss"
  "sd_session (snd (assign_stamp ss x)) = sd_session x"
  "peer_list (fst (assign_stamp ss x)) p = peer_list ss p"
  by (simp_all add: assign_stamp_def Let_def peer_list_def)

text \<open>The two outcomes of \<open>Set\<close>, over the session with its final stamp.\<close>

lemma Set_cases:
  assumes "Set ss x = (ss', r)"
  obtains (rejected) y l where "y = snd (assign_stamp ss x)" "l = peer_list ss (peer_of y)"
      "l \<noteq> []" "serial y \<le> serial (last l)"
      "r = Inl (out_of_order (peer_of y) (serial (last l)) (serial y))"
      "ss' = (fst (assign_stamp ss x))\<lparr>ss_store := (ss_store ss)(peer_of y \<mapsto> l)\<rparr>"
  | (stored) y l where "y = snd (assign_stamp ss x)" "l = peer_list ss (peer_of y)"
      "l \<noteq> [] \<Longrightarrow> serial (last l) < serial y" "r = Inr y"
      "ss' = (fst (assign_stamp ss x))\<lparr>ss_store := (ss_store ss)(peer_of y \<mapsto> l @ [y]),
                ss_lookup := (ss_lookup ss)(id_of x \<mapsto> sd_session x)\<rparr>"
proof -
  obtain ss1 y where a: "assign_stamp ss x = (ss1, y)" by force
  define l where "l = peer_list ss (peer_of y)"
  have e: "peer_list ss1 p = peer_list ss p" "ss_store ss1 = ss_store ss"
      "ss_lookup ss1 = ss_lookup ss" "sd_session y = sd_session x" for p
    using assign_stamp_simps [of ss x] a by auto
  show thesis
  proof (cases "l \<noteq> [] \<and> serial y \<le> serial (last l)")
    case True
    with assms a e show thesis
      by (intro rejected [of y l]) (auto simp: Set_def Let_def l_def [symmetric])
  next
    case False
    with assms a e show thesis
      by (intro stored [of y l]) (auto simp: Set_def Let_def l_def [symmetric] not_le)
  qed
qed

lemma Get_after_Set:
  "Set ss x = (ss', Inr y) \<Longrightarrow>
    Get ss' i = (if i = id_of x then Some (sd_session x) else Get ss i)"
  by (erule Set_cases) (auto simp: Get_def)

lemma Get_after_Set_error: "Set ss x = (ss', Inl e) \<Longrightarrow> Get ss' i = Get ss i"
  by (erule Set_cases) (auto simp: Get_def)

lemma Set_result: "Set ss x = (ss', Inr y) \<Longrightarrow> y = snd (assign_stamp ss x)"
  by (erule Set_cases) auto

lemma peer_list_Set:
  "Set ss x = (ss', r) \<Longrightarrow>
    peer_list ss' p = peer_list ss p @ (case r of Inr y \<Rightarrow> if peer_of y = p then [y] else [] | Inl e \<Rightarrow> [])"
  by (erule Set_cases) (auto simp: peer_list_def)

lemma Set_rejects_iff:
  "(\<exists>e. snd (Set ss x) = Inl e) \<longleftrightarrow>
     (let y = snd (assign_stamp ss x); l = peer_list ss (peer_of y)
      in l \<noteq> [] \<and> serial y \<le> serial (last l))"
proof -
  obtain ss' r where "Set ss x = (ss', r)" by force
  then show ?thesis
    by (rule Set_cases) (auto simp: Let_def not_le \<open>Set ss x = (ss', r)\<close>)
qed

section \<open>Invariant\<close>

text \<open>
  Every list holds sessions of its own peer with strictly increasing serials, and the lookup
  table maps an id to a session with that id that is in some list.
\<close>

definition ordered :: "string \<Rightarrow> stamped list \<Rightarrow> bool" where
  "ordered p l \<longleftrightarrow> (\<forall>v \<in> set l. peer_of v = p) \<and> sorted_wrt (\<lambda>a b. serial a < serial b) l"

definition lookup_backed :: "sessionStore \<Rightarrow> bool" where
  "lookup_backed ss \<longleftrightarrow> (\<forall>i s. ss_lookup ss i = Some s \<longrightarrow>
     sess_id s = i \<and> (\<exists>p. \<exists>v \<in> set (peer_list ss p). sd_session v = s))"

definition store_inv :: "sessionStore \<Rightarrow> bool" where
  "store_inv ss \<longleftrightarrow> (\<forall>p. ordered p (peer_list ss p)) \<and> lookup_backed ss"

lemma ordered_Nil [simp]: "ordered p []"
  by (simp add: ordered_def)

lemma ordered_last: "ordered p l \<Longrightarrow> v \<in> set l \<Longrightarrow> serial v \<le> serial (last l)"
  by (induction l) (auto simp: ordered_def intro: order.strict_implies_order)

lemma ordered_snoc:
  assumes "ordered p l" and "peer_of y = p" and "l \<noteq> [] \<Longrightarrow> serial (last l) < serial y"
  shows "ordered p (l @ [y])"
proof -
  have "serial v < serial y" if "v \<in> set l" for v
    using ordered_last [OF assms(1) that] assms(3) that by fastforce
  then show ?thesis using assms(1,2) by (auto simp: ordered_def sorted_wrt_append)
qed

lemma ordered_sublist: "ordered p (xs @ v # ys) \<Longrightarrow> ordered p (xs @ ys)"
  by (auto simp: ordered_def sorted_wrt_append)

lemma store_inv_New: "store_inv (NewSessionStore i)"
  by (simp add: store_inv_def NewSessionStore_def peer_list_def lookup_backed_def)

lemma store_inv_Set: "store_inv ss \<Longrightarrow> store_inv (fst (Set ss x))"
proof -
  assume inv: "store_inv ss"
  obtain ss' r where s: "Set ss x = (ss', r)" by force
  have "ordered p (peer_list ss' p)" for p
    using inv s unfolding peer_list_Set [OF s] store_inv_def
    by (auto elim!: Set_cases intro: ordered_snoc split: sum.splits)
  moreover have "lookup_backed ss'"
    unfolding lookup_backed_def
  proof (intro allI impI)
    fix i t
    assume t: "ss_lookup ss' i = Some t"
    show "sess_id t = i \<and> (\<exists>p. \<exists>v \<in> set (peer_list ss' p). sd_session v = t)"
      using s
    proof (cases rule: Set_cases)
      case (rejected y l)
      then have "peer_list ss' p = peer_list ss p" for p
        using peer_list_Set [OF s, of p] by simp
      moreover have "ss_lookup ss i = Some t" using t rejected by simp
      ultimately show ?thesis
        using inv by (simp add: store_inv_def lookup_backed_def)
    next
      case (stored y l)
      have grows: "set (peer_list ss p) \<subseteq> set (peer_list ss' p)" for p
        using peer_list_Set [OF s, of p] by auto
      have y: "y \<in> set (peer_list ss' (peer_of y))"
        using peer_list_Set [OF s, of "peer_of y"] stored(4) by simp
      show ?thesis
      proof (cases "i = id_of x")
        case True
        then have "sd_session y = t" "sess_id t = i" using t stored by auto
        with y show ?thesis by blast
      next
        case False
        then have "ss_lookup ss i = Some t" using t stored by simp
        with inv grows show ?thesis
          unfolding store_inv_def lookup_backed_def by blast
      qed
    qed
  qed
  ultimately show ?thesis using s by (simp add: store_inv_def)
qed

interpretation sess: session_store Get Set store_inv
  by unfold_locales
     (auto simp: Get_after_Set Get_after_Set_error store_inv_Set dest: Set_result)

section \<open>What one cleaning does\<close>

text \<open>
  The reference: \<open>without_first P xs\<close> is \<open>xs\<close> without its first element that satisfies \<open>P\<close>.
\<close>

fun without_first :: "('a \<Rightarrow> bool) \<Rightarrow> 'a list \<Rightarrow> 'a list" where
  "without_first P [] = []"
| "without_first P (x # xs) = (if P x then xs else x # without_first P xs)"

definition expired :: "time \<Rightarrow> stamped \<Rightarrow> bool" where
  "expired limit v \<longleftrightarrow> expiry_of v < limit"

definition forget :: "stamped option \<Rightarrow> (string \<rightharpoonup> session) \<Rightarrow> (string \<rightharpoonup> session)" where
  "forget v lk = (case v of None \<Rightarrow> lk | Some v \<Rightarrow> lk(id_of v := None))"

lemma without_first_map: "map f (without_first (P \<circ> f) xs) = without_first P (map f xs)"
  by (induction xs) auto

lemma without_first_subset: "set (without_first P xs) \<subseteq> set xs"
  by (induction xs) auto

lemma without_first_keeps:
  "x \<in> set xs \<Longrightarrow> find P xs \<noteq> Some x \<Longrightarrow> x \<in> set (without_first P xs)"
  by (induction xs) (auto split: if_splits)

lemma without_first_count: "length (filter P (without_first P xs)) = length (filter P xs) - 1"
  by (induction xs) auto

lemma without_first_others: "filter (\<lambda>x. \<not> P x) (without_first P xs) = filter (\<lambda>x. \<not> P x) xs"
  by (induction xs) auto

lemma without_first_ordered: "ordered p l \<Longrightarrow> ordered p (without_first P l)"
proof (induction l)
  case (Cons v l)
  then have "ordered p l" by (auto simp: ordered_def)
  with Cons show ?case
    using without_first_subset [of P l] by (auto simp: ordered_def)
qed simp

lemma find_map_snd: "map_option snd (find (\<lambda>(i, v). P v) es) = find P (map snd es)"
  by (induction es) auto

lemma map_of_middle: "i \<notin> fst ` set pre \<Longrightarrow> map_of (pre @ (i, v) # post) i = Some v"
  by (induction pre) auto

lemma list_next_middle:
  "i \<notin> fst ` set pre \<Longrightarrow> list_next i (pre @ (i, v) # post) = list_front post"
  by (induction pre) auto

lemma list_next_gone: "i \<notin> fst ` set es \<Longrightarrow> list_next i es = None"
  by (induction es) auto

lemma list_remove_gone: "i \<notin> fst ` set es \<Longrightarrow> list_remove i es = es"
  by (induction es) (auto simp: list_remove_def)

lemma list_remove_middle:
  "i \<notin> fst ` set pre \<Longrightarrow> i \<notin> fst ` set post \<Longrightarrow> list_remove i (pre @ (i, v) # post) = pre @ post"
  using list_remove_gone [of i pre] list_remove_gone [of i post] by (simp add: list_remove_def)

text \<open>
  The loop visits the list up to the first expired session, removes that one, and ends there:
  the element it would continue from has lost its links.
\<close>

lemma clean_loop_result:
  "distinct (map fst (pre @ post)) \<Longrightarrow> length post \<le> fuel \<Longrightarrow>
    clean_loop fuel limit (list_front post) (pre @ post, lk) =
      Some (pre @ without_first (expired limit \<circ> snd) post,
            forget (find (expired limit) (map snd post)) lk)"
proof (induction post arbitrary: pre fuel)
  case Nil
  then show ?case by (simp add: list_front_def forget_def)
next
  case (Cons e post)
  obtain i v where e: "e = (i, v)" by force
  obtain f where fuel: "fuel = Suc f" using Cons.prems(2) by (cases fuel) auto
  have i: "i \<notin> fst ` set pre" "i \<notin> fst ` set post" using Cons.prems(1) e by auto
  show ?case
  proof (cases "expired limit v")
    case True
    have "list_next i (pre @ post) = None" using i by (intro list_next_gone) auto
    with True i e fuel show ?thesis
      by (simp add: list_front_def map_of_middle delete_elem_def list_remove_middle expired_def
          forget_def del: map_of_append) (simp add: fun_upd_def)
  next
    case False
    have "clean_loop f limit (list_front post) ((pre @ [e]) @ post, lk) =
        Some ((pre @ [e]) @ without_first (expired limit \<circ> snd) post,
              forget (find (expired limit) (map snd post)) lk)"
      using Cons.prems fuel by (intro Cons.IH) auto
    with False i e fuel show ?thesis
      by (simp add: list_front_def [of "(i, v) # post"] map_of_middle list_next_middle expired_def [of limit v] comp_def
          del: map_of_append)
  qed
qed

lemma clean_peer_eq:
  "clean_peer limit k ss =
     (case ss_store ss k of
        None \<Rightarrow> ss
      | Some l \<Rightarrow> ss\<lparr>ss_store := (ss_store ss)(k \<mapsto> without_first (expired limit) l),
                     ss_lookup := forget (find (expired limit) l) (ss_lookup ss)\<rparr>)"
proof (cases "ss_store ss k")
  case (Some l)
  have "clean_loop (Suc (length l)) limit (list_front (List.enumerate 0 l))
        ([] @ List.enumerate 0 l, ss_lookup ss) =
      Some ([] @ without_first (expired limit \<circ> snd) (List.enumerate 0 l),
            forget (find (expired limit) (map snd (List.enumerate 0 l))) (ss_lookup ss))"
    by (intro clean_loop_result) auto
  with Some show ?thesis by (simp add: clean_peer_def Let_def without_first_map)
qed (simp add: clean_peer_def)

lemma clean_peer_list:
  "peer_list (clean_peer limit k ss) p =
     (if p = k then without_first (expired limit) (peer_list ss p) else peer_list ss p)"
  by (auto simp: clean_peer_eq peer_list_def lookup0_def split: option.splits)

lemma clean_peer_lookup:
  "ss_lookup (clean_peer limit k ss) = forget (find (expired limit) (peer_list ss k)) (ss_lookup ss)"
  by (auto simp: clean_peer_eq peer_list_def lookup0_def forget_def split: option.splits)

lemma clean_peer_same [simp]:
  "ss_id (clean_peer limit k ss) = ss_id ss" "ss_curr (clean_peer limit k ss) = ss_curr ss"
  by (auto simp: clean_peer_eq split: option.splits)

lemma forget_forget: "forget a (forget b lk) = forget b (forget a lk)"
  by (auto simp: forget_def fun_upd_def split: option.splits)

interpretation cleaning: range_loop "clean_peer limit" for limit
proof
  fix j k :: string and ss :: sessionStore
  assume "j \<noteq> k"
  then show "clean_peer limit j (clean_peer limit k ss) = clean_peer limit k (clean_peer limit j ss)"
    by (auto simp: clean_peer_eq forget_forget fun_upd_twist split: option.splits)
qed

lemma store_inv_clean_peer: "store_inv ss \<Longrightarrow> store_inv (clean_peer limit k ss)"
proof -
  assume inv: "store_inv ss"
  have "ordered p (peer_list (clean_peer limit k ss) p)" for p
    using inv by (simp add: store_inv_def clean_peer_list without_first_ordered)
  moreover have "lookup_backed (clean_peer limit k ss)"
    unfolding lookup_backed_def
  proof (intro allI impI)
    fix i t
    assume t: "ss_lookup (clean_peer limit k ss) i = Some t"
    then have old: "ss_lookup ss i = Some t"
      and kept: "\<And>w. find (expired limit) (peer_list ss k) = Some w \<Longrightarrow> id_of w \<noteq> i"
      by (auto simp: clean_peer_lookup forget_def split: option.splits if_splits)
    from old inv have "sess_id t = i \<and> (\<exists>p. \<exists>v \<in> set (peer_list ss p). sd_session v = t)"
      unfolding store_inv_def lookup_backed_def by blast
    then obtain p v where v: "sess_id t = i" "v \<in> set (peer_list ss p)" "sd_session v = t"
      by blast
    then have "find (expired limit) (peer_list ss k) \<noteq> Some v" using kept by blast
    then have "v \<in> set (peer_list (clean_peer limit k ss) p)"
      using v by (auto simp: clean_peer_list intro: without_first_keeps)
    with v show "sess_id t = i
        \<and> (\<exists>p. \<exists>v \<in> set (peer_list (clean_peer limit k ss) p). sd_session v = t)" by blast
  qed
  ultimately show ?thesis by (simp add: store_inv_def)
qed

lemma store_inv_clean: "store_inv ss \<Longrightarrow> store_inv (clean limit ks ss)"
  unfolding clean_def by (induction ks arbitrary: ss) (auto simp: store_inv_clean_peer)

lemma clean_list:
  "distinct ks \<Longrightarrow> peer_list (clean limit ks ss) p =
     (if p \<in> set ks then without_first (expired limit) (peer_list ss p) else peer_list ss p)"
  unfolding clean_def by (induction ks arbitrary: ss) (auto simp: clean_peer_list)

lemma clean_keys: "dom (ss_store (clean limit ks ss)) = dom (ss_store ss)"
proof -
  have "dom (ss_store (clean_peer limit k ss)) = dom (ss_store ss)" for k ss
    by (auto simp: clean_peer_eq split: option.splits)
  then show ?thesis
    unfolding clean_def by (induction ks arbitrary: ss) auto
qed

lemma clean_list_ranges:
  assumes "ranges (ss_store ss) ks"
  shows "peer_list (clean limit ks ss) p = without_first (expired limit) (peer_list ss p)"
proof (cases "p \<in> set ks")
  case False
  then have "peer_list ss p = []"
    using assms by (auto simp: ranges_def peer_list_def lookup0_def dom_def split: option.splits)
  with False assms show ?thesis by (simp add: clean_list ranges_distinct)
qed (use assms in \<open>simp add: clean_list ranges_distinct\<close>)

section \<open>Reachable stores\<close>

text \<open>
  A store of the peer \<open>me\<close> changes through \<open>Set\<close> (sessions of this instance and of others) and
  the rounds of the cleaner. \<open>store_reachable\<close> allows any session; \<open>store_disciplined\<close> only
  those of peers with another id, and fewer local sessions than there are serial numbers.
\<close>

inductive store_reachable :: "string \<Rightarrow> sessionStore \<Rightarrow> bool" for me where
  start: "store_reachable me (NewSessionStore me)"
| set: "store_reachable me ss \<Longrightarrow> store_reachable me (fst (Set ss x))"
| clean: "store_reachable me ss \<Longrightarrow> ranges (ss_store ss) ks \<Longrightarrow>
     store_reachable me (clean limit ks ss)"

inductive store_disciplined :: "string \<Rightarrow> sessionStore \<Rightarrow> bool" for me where
  start: "store_disciplined me (NewSessionStore me)"
| local: "store_disciplined me ss \<Longrightarrow> ss_curr ss \<noteq> - 1 \<Longrightarrow> sd_stamp x = zero_stamp \<Longrightarrow>
     store_disciplined me (fst (Set ss x))"
| remote: "store_disciplined me ss \<Longrightarrow> sd_stamp x \<noteq> zero_stamp \<Longrightarrow> peer_of x \<noteq> me \<Longrightarrow>
     store_disciplined me (fst (Set ss x))"
| clean: "store_disciplined me ss \<Longrightarrow> ranges (ss_store ss) ks \<Longrightarrow>
     store_disciplined me (clean limit ks ss)"

lemma store_reachable_store_inv: "store_reachable me ss \<Longrightarrow> store_inv ss"
  by (induction rule: store_reachable.induct)
     (auto intro: store_inv_New store_inv_Set store_inv_clean)

definition own_bounded :: "string \<Rightarrow> sessionStore \<Rightarrow> bool" where
  "own_bounded me ss \<longleftrightarrow> ss_id ss = me \<and> (\<forall>v \<in> set (peer_list ss me). serial v \<le> ss_curr ss)"

lemma u64_Suc_gt: "(c :: u64) \<noteq> - 1 \<Longrightarrow> c < c + 1"
proof -
  assume "c \<noteq> - 1"
  then have "1 + c \<noteq> 0" by (metis add.commute add_eq_0_iff)
  then have "unat (c + 1) = Suc (unat c)" by (metis add.commute unatSuc)
  then show ?thesis by (simp add: word_less_nat_alt)
qed

lemma Set_local:
  assumes "own_bounded me ss" and "ss_curr ss \<noteq> - 1" and "sd_stamp x = zero_stamp"
  shows "\<exists>ss' y. Set ss x = (ss', Inr y) \<and> own_bounded me ss'
    \<and> y = \<lparr>sd_session = sd_session x, sd_stamp = \<lparr>st_peer = me, st_serial = ss_curr ss + 1\<rparr>\<rparr>
    \<and> ss_curr ss' = ss_curr ss + 1"
proof -
  let ?y = "x\<lparr>sd_stamp := \<lparr>st_peer = me, st_serial = ss_curr ss + 1\<rparr>\<rparr>"
  have a: "assign_stamp ss x = (ss\<lparr>ss_curr := ss_curr ss + 1\<rparr>, ?y)"
    using assms by (simp add: assign_stamp_def own_bounded_def Let_def)
  have lt: "ss_curr ss < ss_curr ss + 1" using assms(2) by (rule u64_Suc_gt)
  have last: "serial (last (peer_list ss me)) \<le> ss_curr ss" if "peer_list ss me \<noteq> []"
    using assms(1) that by (simp add: own_bounded_def)
  obtain ss' r where s: "Set ss x = (ss', r)" by force
  then show ?thesis
  proof (cases rule: Set_cases)
    case (rejected y l)
    then have "ss_curr ss + 1 \<le> serial (last (peer_list ss me))" "peer_list ss me \<noteq> []"
      using a by auto
    with last lt show ?thesis by (meson leD order.strict_trans2)
  next
    case (stored y l)
    then have y: "y = ?y" "l = peer_list ss me" using a by auto
    have "peer_list ss' me = peer_list ss me @ [?y]" "ss_id ss' = me" "ss_curr ss' = ss_curr ss + 1"
      using stored y a assms(1) by (auto simp: peer_list_def own_bounded_def)
    moreover have "serial v \<le> ss_curr ss + 1" if "v \<in> set (peer_list ss me)" for v
      using assms(1) that lt by (force simp: own_bounded_def)
    ultimately have "own_bounded me ss'" by (auto simp: own_bounded_def)
    moreover have "Set ss x = (ss', Inr y)" using s stored(4) by simp
    moreover have "y = \<lparr>sd_session = sd_session x,
        sd_stamp = \<lparr>st_peer = me, st_serial = ss_curr ss + 1\<rparr>\<rparr>"
      unfolding y(1) by (cases x) simp
    ultimately show ?thesis using \<open>ss_curr ss' = ss_curr ss + 1\<close> by blast
  qed
qed

lemma Set_remote:
  assumes "own_bounded me ss" and "sd_stamp x \<noteq> zero_stamp" and "peer_of x \<noteq> me"
  shows "own_bounded me (fst (Set ss x))"
proof -
  obtain ss' r where s: "Set ss x = (ss', r)" by force
  have a: "assign_stamp ss x = (ss, x)" using assms(2) by (simp add: assign_stamp_def)
  have "ss_id ss' = ss_id ss" "ss_curr ss' = ss_curr ss"
    using s a by (auto elim!: Set_cases)
  moreover have "peer_list ss' me = peer_list ss me"
    using peer_list_Set [OF s, of me] Set_result [of ss x ss'] s a assms(3)
    by (auto split: sum.splits)
  ultimately show ?thesis using assms(1) s by (simp add: own_bounded_def)
qed

lemma own_bounded_clean:
  assumes "own_bounded me ss"
  shows "own_bounded me (clean limit ks ss)"
proof -
  have step: "own_bounded me (clean_peer limit k ss)" if "own_bounded me ss" for k ss
    using that without_first_subset [of "expired limit" "peer_list ss me"]
    by (auto simp: own_bounded_def clean_peer_list)
  show ?thesis
    using assms unfolding clean_def by (induction ks arbitrary: ss) (auto intro: step)
qed

lemma store_disciplined_bounded: "store_disciplined me ss \<Longrightarrow> own_bounded me ss"
proof (induction rule: store_disciplined.induct)
  case start
  show ?case by (simp add: own_bounded_def NewSessionStore_def peer_list_def)
next
  case (local ss x)
  then show ?case using Set_local [of me ss x] by auto
next
  case (remote ss x)
  then show ?case by (intro Set_remote)
next
  case (clean ss ks limit)
  then show ?case by (intro own_bounded_clean)
qed

lemma concat_map_single:
  "distinct ks \<Longrightarrow> concat (map (\<lambda>k. if k = p then f k else []) ks) = (if p \<in> set ks then f p else [])"
  by (induction ks) auto

lemma Stream_of_peer:
  assumes "store_inv ss" and "ranges (ss_store ss) ks"
  shows "filter (\<lambda>v. peer_of v = p) (Stream ss from0 ks) =
    filter (\<lambda>v. lookup0 0 from0 p \<le> serial v) (peer_list ss p)"
proof -
  let ?f = "\<lambda>k. filter (\<lambda>v. lookup0 0 from0 k \<le> serial v) (peer_list ss k)"
  have "filter (\<lambda>v. peer_of v = p) (?f k) = (if k = p then ?f k else [])" for k
  proof -
    have "peer_of v = k" if "v \<in> set (peer_list ss k)" for v
      using assms(1) that by (simp add: store_inv_def ordered_def)
    then show ?thesis by (auto simp: filter_empty_conv intro!: filter_cong)
  qed
  then have "filter (\<lambda>v. peer_of v = p) (Stream ss from0 ks)
      = concat (map (\<lambda>k. if k = p then ?f k else []) ks)"
    by (simp add: Stream_def filter_concat_map comp_def)
  also have "\<dots> = (if p \<in> set ks then ?f p else [])"
    using assms(2) by (simp add: concat_map_single ranges_distinct)
  also have "\<dots> = ?f p"
    using assms(2) by (auto simp: ranges_def peer_list_def lookup0_def split: option.splits)
  finally show ?thesis .
qed

section \<open>Claims\<close>

text \<open>
  C14: In every reachable store, whatever sessions were set and however often it was cleaned: the
  sessions of a peer are stamped with that peer and have strictly increasing serials, and an id
  that \<open>Get\<close> finds is the id of the session it returns, which is stored under some peer.
\<close>

theorem session_store_invariant:
  assumes "store_reachable me ss"
  shows "(\<forall>p. sorted_wrt (\<lambda>a b. serial a < serial b) (peer_list ss p)
              \<and> (\<forall>v \<in> set (peer_list ss p). peer_of v = p))
         \<and> (\<forall>i s. Get ss i = Some s \<longrightarrow>
              sess_id s = i \<and> (\<exists>p. \<exists>v \<in> set (peer_list ss p). sd_session v = s))"
  using store_reachable_store_inv [OF assms]
  by (auto simp: store_inv_def ordered_def lookup_backed_def Get_def)

definition demo_session :: "string \<Rightarrow> time \<Rightarrow> session" where
  "demo_session i t = \<lparr>sess_id = i, sess_refresh = ''refresh'', sess_expiry = t\<rparr>"

definition fresh :: "session \<Rightarrow> stamped" where
  "fresh s = \<lparr>sd_session = s, sd_stamp = zero_stamp\<rparr>"

lemmas store_eval =
  Set_def assign_stamp_def NewSessionStore_def fresh_def demo_session_def zero_stamp_def Let_def
  peer_list_def Get_def out_of_order_def

theorem session_store_invariant_witness:
  "\<exists>v. peer_list (fst (Set (NewSessionStore ''a'') (fresh (demo_session ''s1'' 5)))) ''a'' = [v]
     \<and> peer_of v = ''a''"
proof -
  let ?ss = "fst (Set (NewSessionStore ''a'') (fresh (demo_session ''s1'' 5)))"
  have "store_reachable ''a'' ?ss" by (intro store_reachable.intros)
  from session_store_invariant [OF this] have "\<forall>v \<in> set (peer_list ?ss ''a''). peer_of v = ''a''"
    by blast
  then show ?thesis by (simp add: store_eval)
qed

text \<open>
  C15: \<open>Set\<close> rejects a session exactly when its peer already has a session with the same or a
  later serial, and then changes nothing that \<open>Get\<close> or \<open>Stream\<close> can see. Otherwise it appends
  the session to the end of its peer's list, changes no other list, and makes \<open>Get\<close> return it
  for its id and nothing else for other ids.
\<close>

theorem set_outcome:
  assumes "Set ss x = (ss', r)" and "y = snd (assign_stamp ss x)" and "l = peer_list ss (peer_of y)"
  shows "((\<exists>e. r = Inl e) \<longleftrightarrow> l \<noteq> [] \<and> serial y \<le> serial (last l))
    \<and> ((\<exists>e. r = Inl e) \<longrightarrow> Get ss' = Get ss \<and> peer_list ss' = peer_list ss)
    \<and> (\<forall>z. r = Inr z \<longrightarrow> z = y \<and> Get ss' = (Get ss)(id_of x \<mapsto> sd_session x)
          \<and> peer_list ss' = (peer_list ss)(peer_of y := l @ [y]))"
proof -
  have rej: "(\<exists>e. r = Inl e) \<longleftrightarrow> l \<noteq> [] \<and> serial y \<le> serial (last l)"
    using Set_rejects_iff [of ss x] assms by (simp add: Let_def)
  have err: "Get ss' = Get ss \<and> peer_list ss' = peer_list ss" if "r = Inl e" for e
    using Get_after_Set_error [of ss x ss' e] peer_list_Set [OF assms(1)] assms(1) that by auto
  have ok: "z = y \<and> Get ss' = (Get ss)(id_of x \<mapsto> sd_session x)
      \<and> peer_list ss' = (peer_list ss)(peer_of y := l @ [y])" if "r = Inr z" for z
  proof -
    have "z = y" using Set_result [of ss x ss' z] assms that by simp
    moreover have "Get ss' = (Get ss)(id_of x \<mapsto> sd_session x)"
      using Get_after_Set [of ss x ss' z] assms(1) that by auto
    moreover have "peer_list ss' = (peer_list ss)(peer_of y := l @ [y])"
      using peer_list_Set [OF assms(1)] assms(3) that \<open>z = y\<close> by auto
    ultimately show ?thesis by blast
  qed
  show ?thesis using rej err ok by blast
qed

theorem set_outcome_witness:
  "\<exists>e. snd (Set (fst (Set (NewSessionStore ''a'')
       \<lparr>sd_session = demo_session ''s1'' 5, sd_stamp = \<lparr>st_peer = ''b'', st_serial = 3\<rparr>\<rparr>))
       \<lparr>sd_session = demo_session ''s2'' 5, sd_stamp = \<lparr>st_peer = ''b'', st_serial = 3\<rparr>\<rparr>) = Inl e"
proof -
  let ?x = "\<lparr>sd_session = demo_session ''s2'' 5, sd_stamp = \<lparr>st_peer = ''b'', st_serial = 3\<rparr>\<rparr>"
  let ?ss = "fst (Set (NewSessionStore ''a'')
       \<lparr>sd_session = demo_session ''s1'' 5, sd_stamp = \<lparr>st_peer = ''b'', st_serial = 3\<rparr>\<rparr>)"
  have "(\<exists>e. snd (Set ?ss ?x) = Inl e) \<longleftrightarrow>
      peer_list ?ss (peer_of (snd (assign_stamp ?ss ?x))) \<noteq> []
      \<and> serial (snd (assign_stamp ?ss ?x)) \<le>
        serial (last (peer_list ?ss (peer_of (snd (assign_stamp ?ss ?x)))))"
    using set_outcome [of ?ss ?x "fst (Set ?ss ?x)" "snd (Set ?ss ?x)", OF _ refl refl] by simp
  then show ?thesis by (simp add: store_eval)
qed

text \<open>
  In a store that only receives foreign sessions of peers with another id, storing a session
  of this instance always succeeds (until the serial numbers are used up): it gets this instance
  as its peer and the next serial number.
\<close>

lemma local_session_accepted:
  assumes "store_disciplined me ss" and "ss_curr ss \<noteq> - 1" and "sd_stamp x = zero_stamp"
  shows "\<exists>ss'. Set ss x = (ss', Inr \<lparr>sd_session = sd_session x,
                 sd_stamp = \<lparr>st_peer = me, st_serial = ss_curr ss + 1\<rparr>\<rparr>)
           \<and> ss_curr ss' = ss_curr ss + 1 \<and> Get ss' (id_of x) = Some (sd_session x)"
  using Set_local [OF store_disciplined_bounded [OF assms(1)] assms(2,3)] Get_after_Set by fastforce

lemma local_session_accepted_witness:
  "\<exists>ss'. Set (NewSessionStore ''a'') (fresh (demo_session ''s1'' 5)) =
     (ss', Inr \<lparr>sd_session = demo_session ''s1'' 5, sd_stamp = \<lparr>st_peer = ''a'', st_serial = 1\<rparr>\<rparr>)"
  using local_session_accepted [OF store_disciplined.start, of "''a''" "fresh (demo_session ''s1'' 5)"]
  by (auto simp: fresh_def NewSessionStore_def)

text \<open>
  What is streamed for a request, peer by peer and for every order in which the map is
  visited: exactly the peer's stored sessions from the requested serial on (from the first if
  none was requested), in their order; and two streams of the same store differ only in order.
\<close>

lemma stream_is_suffix_of_each_peer:
  assumes "store_reachable me ss" and "ranges (ss_store ss) ks" and "ranges (ss_store ss) ks'"
  shows "(\<forall>p. filter (\<lambda>v. peer_of v = p) (Stream ss from0 ks) =
            filter (\<lambda>v. lookup0 0 from0 p \<le> serial v) (peer_list ss p))
         \<and> mset (Stream ss from0 ks) = mset (Stream ss from0 ks')"
  using Stream_of_peer [OF store_reachable_store_inv [OF assms(1)] assms(2)]
    mset_concat_map_cong [OF ranges_mset [OF assms(2,3)]]
  by (auto simp: Stream_def)

lemma stream_is_suffix_of_each_peer_witness:
  "filter (\<lambda>v. peer_of v = ''a'')
     (Stream (fst (Set (NewSessionStore ''a'') (fresh (demo_session ''s1'' 5)))) Map.empty [''a''])
   = [\<lparr>sd_session = demo_session ''s1'' 5, sd_stamp = \<lparr>st_peer = ''a'', st_serial = 1\<rparr>\<rparr>]"
proof -
  let ?ss = "fst (Set (NewSessionStore ''a'') (fresh (demo_session ''s1'' 5)))"
  have "store_reachable ''a'' ?ss" by (intro store_reachable.intros)
  moreover have r: "ranges (ss_store ?ss) [''a'']" by (simp add: store_eval ranges_def)
  ultimately have "filter (\<lambda>v. peer_of v = ''a'') (Stream ?ss Map.empty [''a'']) =
      filter (\<lambda>v. lookup0 0 Map.empty ''a'' \<le> serial v) (peer_list ?ss ''a'')"
    using stream_is_suffix_of_each_peer [OF _ r r] by blast
  then show ?thesis by (simp add: store_eval)
qed

text \<open>
  One cleaning removes at most one expired session per peer, however many are expired: after
  it, each peer has one expired session less (none if it had none), and its other sessions are
  all still there. The order of the loop over the peers does not matter.
\<close>

lemma clean_removes_one_per_peer:
  assumes "ranges (ss_store ss) ks" and "ranges (ss_store ss) ks'"
  shows "(\<forall>p. length (filter (expired limit) (peer_list (clean limit ks ss) p)) =
            length (filter (expired limit) (peer_list ss p)) - 1
          \<and> filter (\<lambda>v. \<not> expired limit v) (peer_list (clean limit ks ss) p) =
            filter (\<lambda>v. \<not> expired limit v) (peer_list ss p))
         \<and> clean limit ks ss = clean limit ks' ss"
  using cleaning.order_irrelevant [OF assms, of limit ss]
  by (simp add: clean_list_ranges [OF assms(1)] without_first_count without_first_others)
     (simp add: clean_def)

text \<open>
  C35: The loop over the sessions of a peer ends, after at most as many rounds as there are sessions
  and with any larger bound; it has then removed the first expired session from the list, its id from
  the table, and nothing else.
\<close>

theorem cleaning_loop_ends:
  "clean_loop (length l + k) limit (list_front (List.enumerate 0 l)) (List.enumerate 0 l, lk) =
     Some (without_first (expired limit \<circ> snd) (List.enumerate 0 l), forget (find (expired limit) l) lk)"
  using clean_loop_result [of "[]" "List.enumerate 0 l" "length l + k" limit lk] by simp

definition demo_expired :: sessionStore where
  "demo_expired = fst (Set (fst (Set (NewSessionStore ''a'') (fresh (demo_session ''s1'' 1))))
                         (fresh (demo_session ''s2'' 2)))"

lemma demo_expired_eq:
  "demo_expired =
     \<lparr>ss_id = ''a'', ss_curr = 2,
      ss_lookup = [''s1'' \<mapsto> demo_session ''s1'' 1, ''s2'' \<mapsto> demo_session ''s2'' 2],
      ss_store = [''a'' \<mapsto>
        [\<lparr>sd_session = demo_session ''s1'' 1, sd_stamp = \<lparr>st_peer = ''a'', st_serial = 1\<rparr>\<rparr>,
         \<lparr>sd_session = demo_session ''s2'' 2, sd_stamp = \<lparr>st_peer = ''a'', st_serial = 2\<rparr>\<rparr>]]\<rparr>"
  by (simp add: demo_expired_def store_eval word_le_nat_alt)

lemma clean_removes_one_per_peer_witness:
  "length (filter (expired 100) (peer_list (clean 100 [''a''] demo_expired) ''a'')) = 1"
proof -
  have r: "ranges (ss_store demo_expired) [''a'']" by (simp add: demo_expired_eq ranges_def)
  have "length (filter (expired 100) (peer_list (clean 100 [''a''] demo_expired) ''a'')) =
      length (filter (expired 100) (peer_list demo_expired ''a'')) - 1"
    using clean_removes_one_per_peer [OF r r] by blast
  then show ?thesis
    by (simp add: demo_expired_eq peer_list_def expired_def demo_session_def)
qed

text \<open>
  Cleaning with the same limit as many times as a peer has expired sessions leaves exactly
  the sessions that are not expired: the cleaner catches up, one session per peer and round.
\<close>

lemma without_first_iterate:
  "length (filter P xs) \<le> n \<Longrightarrow> (without_first P ^^ n) xs = filter (\<lambda>x. \<not> P x) xs"
proof (induction n arbitrary: xs)
  case 0
  then show ?case by (simp add: filter_empty_conv)
next
  case (Suc n)
  then have "length (filter P (without_first P xs)) \<le> n"
    by (simp add: without_first_count)
  then have "(without_first P ^^ n) (without_first P xs) = filter (\<lambda>x. \<not> P x) xs"
    using Suc.IH [of "without_first P xs"] by (simp add: without_first_others)
  then show ?case by (simp add: funpow_swap1)
qed

lemma repeated_cleaning_removes_all_expired:
  assumes "ranges (ss_store ss) ks"
    and "\<forall>p. length (filter (expired limit) (peer_list ss p)) \<le> n"
  shows "peer_list ((clean limit ks ^^ n) ss) p = filter (\<lambda>v. \<not> expired limit v) (peer_list ss p)"
proof -
  have "peer_list ((clean limit ks ^^ m) ss) p = (without_first (expired limit) ^^ m) (peer_list ss p)
      \<and> ranges (ss_store ((clean limit ks ^^ m) ss)) ks" for m
    using assms(1) by (induction m) (auto simp: clean_list_ranges ranges_def clean_keys)
  then show ?thesis using without_first_iterate assms(2) by metis
qed

theorem repeated_cleaning_removes_all_expired_witness:
  "peer_list ((clean 100 [''a''] ^^ 2) demo_expired) ''a'' = []"
proof -
  have r: "ranges (ss_store demo_expired) [''a'']" by (simp add: demo_expired_eq ranges_def)
  have c: "\<forall>p. length (filter (expired 100) (peer_list demo_expired p)) \<le> 2"
    by (simp add: demo_expired_eq peer_list_def lookup0_def expired_def demo_session_def)
  show ?thesis
    using repeated_cleaning_removes_all_expired [OF r c, of "''a''"]
    by (simp add: demo_expired_eq peer_list_def expired_def demo_session_def)
qed

end
