(* ===== verification/Replication_Self.thy ===== *)
theory Replication_Self
  imports Session_Store
begin

text \<open>
  The messages of the replication protocol and their conversion
  (\<^verbatim>\<open>src/replication/maps.go\<close>), and what an instance knows about itself and about the latest serial
  of every peer (\<^verbatim>\<open>src/replication/self.go\<close>).
\<close>

section \<open>Messages\<close>

text \<open>
  The generated message types, with \<open>None\<close> for a message field that is absent. \<^verbatim>\<open>'ts\<close> is a
  protobuf timestamp.
\<close>

record 'ts pbSession =
  pb_Id :: string
  pb_RefreshToken :: string
  pb_Expiry :: "'ts option"

record pbStamp =
  pb_PeerId :: string
  pb_Serial :: u64

text \<open>
  Package \<^verbatim>\<open>timestamppb\<close>: \<^verbatim>\<open>New\<close> and \<^verbatim>\<open>AsTime\<close>, which a nil timestamp also has. Where a theorem
  needs it, \<open>ts_law\<close> states that \<^verbatim>\<open>AsTime\<close> takes back \<^verbatim>\<open>New\<close>.
\<close>

record 'ts timestamps =
  ts_New :: "time \<Rightarrow> 'ts"
  ts_AsTime :: "'ts option \<Rightarrow> time"

definition ts_law :: "'ts timestamps \<Rightarrow> bool" where
  "ts_law ts \<longleftrightarrow> (\<forall>t. ts_AsTime ts (Some (ts_New ts t)) = t)"

definition sessionToProto :: "'ts timestamps \<Rightarrow> session \<Rightarrow> 'ts pbSession" where
  "sessionToProto ts obj =
     \<lparr>pb_Id = sess_id obj, pb_RefreshToken = sess_refresh obj,
      pb_Expiry = Some (ts_New ts (sess_expiry obj))\<rparr>"

definition sessionFromProto :: "'ts timestamps \<Rightarrow> 'ts pbSession option \<Rightarrow> ('e, session) res" where
  "sessionFromProto ts proto =
     (case proto of
        None \<Rightarrow> Panic
      | Some p \<Rightarrow> Ok \<lparr>sess_id = pb_Id p, sess_refresh = pb_RefreshToken p,
                     sess_expiry = ts_AsTime ts (pb_Expiry p)\<rparr>)"

definition stampToProto :: "stamp \<Rightarrow> pbStamp" where
  "stampToProto obj = \<lparr>pb_PeerId = st_peer obj, pb_Serial = st_serial obj\<rparr>"

definition stampFromProto :: "pbStamp option \<Rightarrow> ('e, stamp) res" where
  "stampFromProto proto =
     (case proto of
        None \<Rightarrow> Panic
      | Some p \<Rightarrow> Ok \<lparr>st_peer = pb_PeerId p, st_serial = pb_Serial p\<rparr>)"

text \<open>\<open>ks\<close> is the order in which the loop visits the map.\<close>

definition latestToProto :: "(string \<rightharpoonup> u64) \<Rightarrow> string list \<Rightarrow> pbStamp list" where
  "latestToProto dict ks = map (\<lambda>k. \<lparr>pb_PeerId = k, pb_Serial = lookup0 0 dict k\<rparr>) ks"

definition latestFromProto :: "pbStamp list \<Rightarrow> (string \<rightharpoonup> u64)" where
  "latestFromProto proto = fold (\<lambda>obj dict. dict(pb_PeerId obj \<mapsto> pb_Serial obj)) proto Map.empty"

lemma sessionFromProto_simps [simp]:
  "sessionFromProto ts None = Panic"
  "sessionFromProto ts (Some p) = Ok \<lparr>sess_id = pb_Id p, sess_refresh = pb_RefreshToken p,
     sess_expiry = ts_AsTime ts (pb_Expiry p)\<rparr>"
  by (simp_all add: sessionFromProto_def)

lemma stampFromProto_simps [simp]:
  "stampFromProto None = Panic"
  "stampFromProto (Some p) = Ok \<lparr>st_peer = pb_PeerId p, st_serial = pb_Serial p\<rparr>"
  by (simp_all add: stampFromProto_def)

lemma stamp_roundtrip [simp]: "stampFromProto (Some (stampToProto s)) = Ok s"
  by (simp add: stampToProto_def)

lemma session_roundtrip: "ts_law ts \<Longrightarrow> sessionFromProto ts (Some (sessionToProto ts s)) = Ok s"
  by (simp add: sessionToProto_def ts_law_def)

lemma latest_fold:
  "distinct ks \<Longrightarrow>
   fold (\<lambda>obj dict. dict(pb_PeerId obj \<mapsto> pb_Serial obj)) (latestToProto d ks) m =
     (\<lambda>k. if k \<in> set ks then Some (lookup0 0 d k) else m k)"
  by (induction ks arbitrary: m) (auto simp: latestToProto_def fun_eq_iff)

lemma latest_roundtrip: "ranges d ks \<Longrightarrow> latestFromProto (latestToProto d ks) = d"
  by (auto simp: latestFromProto_def latest_fold ranges_def fun_eq_iff lookup0_def domIff
      split: option.splits)

section \<open>What an instance knows\<close>

text \<open>
  \<^verbatim>\<open>Self\<close>; its session store is a component of the node beside it. \<open>NewSelf\<close> takes the configured
  address.
\<close>

record self =
  self_id :: string
  self_ep :: string
  self_latest :: "string \<rightharpoonup> u64"

definition NewSelf :: "string \<Rightarrow> string \<Rightarrow> self" where
  "NewSelf peerId advertise = \<lparr>self_id = peerId, self_ep = advertise, self_latest = Map.empty\<rparr>"

definition copyLatest :: "self \<Rightarrow> (string \<rightharpoonup> u64)" where
  "copyLatest s = self_latest s"

fun needs_loop :: "(string \<rightharpoonup> u64) \<Rightarrow> (string \<rightharpoonup> u64) \<Rightarrow> string list \<Rightarrow> bool" where
  "needs_loop known latest [] = False"
| "needs_loop known latest (k # ks) =
     (if lookup0 0 known k < lookup0 0 latest k then True else needs_loop known latest ks)"

definition needsUpdate :: "self \<Rightarrow> (string \<rightharpoonup> u64) \<Rightarrow> string list \<Rightarrow> bool" where
  "needsUpdate s latest ks = needs_loop (self_latest s) latest ks"

definition update_self :: "string \<Rightarrow> u64 \<Rightarrow> self \<Rightarrow> self" where
  "update_self peer n s =
     (if lookup0 0 (self_latest s) peer < n
      then s\<lparr>self_latest := (self_latest s)(peer \<mapsto> n)\<rparr> else s)"

lemma needs_loop_iff: "needs_loop known latest ks \<longleftrightarrow> (\<exists>k \<in> set ks. lookup0 0 known k < lookup0 0 latest k)"
  by (induction ks) auto

lemma needsUpdate_iff:
  "ranges latest ks \<Longrightarrow>
    needsUpdate s latest ks \<longleftrightarrow> (\<exists>k. lookup0 0 (self_latest s) k < lookup0 0 latest k)"
proof -
  assume r: "ranges latest ks"
  have "lookup0 0 latest k = 0" if "k \<notin> set ks" for k
    using r that by (auto simp: ranges_def domIff lookup0_def)
  then show ?thesis
    by (auto simp: needsUpdate_def needs_loop_iff) (metis word_not_simps(1))
qed

abbreviation known :: "self \<Rightarrow> string \<Rightarrow> u64" where
  "known s k \<equiv> lookup0 0 (self_latest s) k"

lemma known_update: "known (update_self p n s) k = (if k = p then max (known s k) n else known s k)"
  by (auto simp: update_self_def max_def)

lemma update_self_same [simp]:
  "self_id (update_self p n s) = self_id s" "self_ep (update_self p n s) = self_ep s"
  by (simp_all add: update_self_def)

text \<open>Updates commute, so the concurrent handlers may report serials in any order.\<close>

lemma update_self_commute:
  "update_self p n (update_self q m s) = update_self q m (update_self p n s)"
  by (cases "p = q") (auto simp: update_self_def fun_upd_twist)

section \<open>Claims\<close>

text \<open>
  What a peer sends is what the other side reads: a session, its stamp, and the map of latest
  serials in whatever order the map is visited, come back unchanged (with a timestamp library that
  reads back the time it wrote).
\<close>

lemma messages_roundtrip:
  assumes "ts_law ts" and "ranges d ks"
  shows "sessionFromProto ts (Some (sessionToProto ts s)) = Ok s
    \<and> stampFromProto (Some (stampToProto st)) = Ok st
    \<and> latestFromProto (latestToProto d ks) = d"
  using assms by (intro conjI session_roundtrip stamp_roundtrip latest_roundtrip)

text \<open>A timestamp as \<^verbatim>\<open>timestamppb\<close> has it: seconds and nanoseconds since the Unix epoch.\<close>

definition demo_timestamps :: "(int \<times> int) timestamps" where
  "demo_timestamps =
     \<lparr>ts_New = (\<lambda>t. ((t - 62135596800 * 10 ^ 9) div 10 ^ 9, (t - 62135596800 * 10 ^ 9) mod 10 ^ 9)),
      ts_AsTime = (\<lambda>x. case x of None \<Rightarrow> 62135596800 * 10 ^ 9
                      | Some (s, n) \<Rightarrow> 62135596800 * 10 ^ 9 + s * 10 ^ 9 + n)\<rparr>"

lemma demo_ts_law: "ts_law demo_timestamps"
proof -
  have "62135596800 * 10 ^ 9 + (t - 62135596800 * 10 ^ 9) div 10 ^ 9 * 10 ^ 9
      + (t - 62135596800 * 10 ^ 9) mod 10 ^ 9 = t" for t :: int
    using div_mult_mod_eq [of "t - 62135596800 * 10 ^ 9" "10 ^ 9"] by linarith
  then show ?thesis by (simp add: ts_law_def demo_timestamps_def)
qed

lemma messages_roundtrip_witness:
  "latestFromProto (latestToProto [''a'' \<mapsto> 3, ''b'' \<mapsto> 5] [''b'', ''a'']) = [''a'' \<mapsto> 3, ''b'' \<mapsto> 5]"
proof -
  have "ranges [''a'' \<mapsto> (3 :: u64), ''b'' \<mapsto> 5] [''b'', ''a'']" by (auto simp: ranges_def)
  from messages_roundtrip [OF demo_ts_law this] show ?thesis by blast
qed

text \<open>
  After any number of reported serials, in any order, the latest serial known of a peer is the
  largest one reported (or known before); and a peer's report asks for an update exactly when it
  has a later serial of some peer, in whatever order the report is visited.
\<close>

lemma latest_is_maximum:
  assumes "ranges latest ks"
  shows "known (fold (\<lambda>(p, n). update_self p n) reports s) k =
      fold max (map snd (filter (\<lambda>(p, n). p = k) reports)) (known s k)
    \<and> (needsUpdate s latest ks \<longleftrightarrow> (\<exists>k. known s k < lookup0 0 latest k))"
proof -
  have "known (fold (\<lambda>(p, n). update_self p n) reports s) k =
      fold max (map snd (filter (\<lambda>(p, n). p = k) reports)) (known s k)"
    by (induction reports arbitrary: s) (auto simp: known_update max.commute)
  then show ?thesis using assms by (simp add: needsUpdate_iff)
qed

lemma latest_is_maximum_witness:
  "needsUpdate (NewSelf ''me'' ''ep'') [''a'' \<mapsto> 2] [''a'']
   \<and> known (fold (\<lambda>(p, n). update_self p n) [(''a'', 7), (''b'', 1), (''a'', 4)]
         (NewSelf ''me'' ''ep'')) ''a'' = 7"
proof -
  have r: "ranges [''a'' \<mapsto> (2 :: u64)] [''a'']" by (simp add: ranges_def)
  have "(0 :: u64) < 2" by simp
  moreover have "fold max [7, 4] (0 :: u64) = 7" by simp
  ultimately show ?thesis
    using latest_is_maximum [OF r, of "[(''a'', 7), (''b'', 1), (''a'', 4)]" "NewSelf ''me'' ''ep''" "''a''"]
    by (auto simp: NewSelf_def)
qed

end
