(* ===== verification/Replication_Peers.thy ===== *)
theory Replication_Peers
  imports Replication_Self Config
begin

text \<open>
  How an instance finds its peers (\<^verbatim>\<open>src/replication/lookup.go\<close>), how it names itself and which
  connections it keeps (\<^verbatim>\<open>src/replication/peers.go\<close>), and the state of a node: itself, its session
  store, its connections and the goroutines that are to run.
\<close>

section \<open>Looking up endpoints\<close>

text \<open>The resolver: a SRV lookup and the addresses of a target, as text.\<close>

record srv =
  srv_Target :: string
  srv_Port :: "16 word"

datatype srv_answer = SrvNotFound go_error | SrvErr go_error | SrvFound "srv list"

record resolver =
  LookupSRV :: "string \<Rightarrow> string \<Rightarrow> string \<Rightarrow> srv_answer"
  LookupIPAddr :: "string \<Rightarrow> go_error + string list"

text \<open>\<^verbatim>\<open>staticEndpoints\<close>\<close>

definition static_lookupEndpoints :: "cfg_replication \<Rightarrow> (go_error, string list) res" where
  "static_lookupEndpoints cfg = Ok (filter (\<lambda>ep. ep \<noteq> AdvertiseAddress cfg) (StaticPeers cfg))"

definition static_authority :: "string \<Rightarrow> string" where
  "static_authority addr = addr"

text \<open>\<^verbatim>\<open>dnsEndpoints\<close>\<close>

definition dns_target :: "resolver \<Rightarrow> string \<Rightarrow> srv \<Rightarrow> (go_error, string list) res" where
  "dns_target r self s =
     (case LookupIPAddr r (srv_Target s) of
        Inl err \<Rightarrow> Err (wrap_error err ''failed resolving endpoint'' [])
      | Inr ips \<Rightarrow>
          Ok (filter (\<lambda>ep. ep \<noteq> self) (map (\<lambda>ip. ip @ '':'' @ decimal (unat (srv_Port s))) ips)))"

definition dns_lookupEndpoints :: "resolver \<Rightarrow> cfg_replication \<Rightarrow> (go_error, string list) res" where
  "dns_lookupEndpoints r cfg =
     (case LookupSRV r (Service (PeerAddress cfg)) ''tcp'' (Domain (PeerAddress cfg)) of
        SrvNotFound err \<Rightarrow> Ok []
      | SrvErr err \<Rightarrow> Err (wrap_error err ''failed looking up endpoints'' [])
      | SrvFound srvs \<Rightarrow>
          res_bind (res_map (dns_target r (AdvertiseAddress cfg)) srvs) (\<lambda>epss. Ok (concat epss)))"

definition dns_authority :: "cfg_replication \<Rightarrow> string \<Rightarrow> string" where
  "dns_authority cfg addr = Domain (PeerAddress cfg)"

text \<open>\<^verbatim>\<open>noneEndpoints\<close>\<close>

definition none_lookupEndpoints :: "(go_error, string list) res" where
  "none_lookupEndpoints = Ok []"

definition none_authority :: "string \<Rightarrow> string" where
  "none_authority addr = []"

text \<open>The value of the interface \<^verbatim>\<open>endpointLookup\<close>, chosen by the mode.\<close>

record endpointLookup =
  lookupEndpoints :: "resolver \<Rightarrow> (go_error, string list) res"
  authority :: "string \<Rightarrow> string"

definition newEndpointLookup :: "cfg_replication \<Rightarrow> ('e, endpointLookup) res" where
  "newEndpointLookup cfg =
     (if Mode cfg = StaticMode then
        Ok \<lparr>lookupEndpoints = (\<lambda>r. static_lookupEndpoints cfg), authority = static_authority\<rparr>
      else if Mode cfg = DnsMode then
        Ok \<lparr>lookupEndpoints = (\<lambda>r. dns_lookupEndpoints r cfg), authority = dns_authority cfg\<rparr>
      else if Mode cfg = NoneMode then
        Ok \<lparr>lookupEndpoints = (\<lambda>r. none_lookupEndpoints), authority = none_authority\<rparr>
      else Panic)"

text \<open>
  The contract of a lookup: it returns or fails, and never lists the instance's own address, so
  an instance never replicates with itself.
\<close>

locale endpoint_lookup =
  fixes lookup :: "resolver \<Rightarrow> (go_error, string list) res"
    and own :: string
  assumes not_own: "lookup r = Ok eps \<Longrightarrow> own \<notin> set eps"
    and no_panic: "lookup r \<noteq> Panic"
begin

definition listed :: "resolver \<Rightarrow> string set" where
  "listed r = (case lookup r of Ok eps \<Rightarrow> set eps | _ \<Rightarrow> {})"

lemma own_not_listed: "own \<notin> listed r"
  using not_own by (auto simp: listed_def split: res.splits)

lemma lookup_cases:
  obtains eps where "lookup r = Ok eps" "set eps = listed r" "own \<notin> set eps"
  | err where "lookup r = Err err" "listed r = {}"
  using no_panic [of r] not_own by (cases "lookup r") (auto simp: listed_def)

end

interpretation static: endpoint_lookup "\<lambda>r. static_lookupEndpoints cfg" "AdvertiseAddress cfg" for cfg
  by unfold_locales (auto simp: static_lookupEndpoints_def)

interpretation dns: endpoint_lookup "\<lambda>r. dns_lookupEndpoints r cfg" "AdvertiseAddress cfg" for cfg
proof unfold_locales
  fix r eps
  assume "dns_lookupEndpoints r cfg = Ok eps"
  then consider "eps = []"
    | srvs epss where "res_map (dns_target r (AdvertiseAddress cfg)) srvs = Ok epss" "eps = concat epss"
    by (auto simp: dns_lookupEndpoints_def split: srv_answer.splits)
  then show "AdvertiseAddress cfg \<notin> set eps"
  proof cases
    case (2 srvs epss)
    have "AdvertiseAddress cfg \<notin> set e" if e: "e \<in> set epss" for e
    proof -
      obtain s where "dns_target r (AdvertiseAddress cfg) s = Ok e"
        using 2(1) e by (auto simp: res_map_Ok_iff list_all2_conv_all_nth in_set_conv_nth)
      then show ?thesis by (auto simp: dns_target_def split: sum.splits)
    qed
    with 2 show ?thesis by auto
  qed simp
next
  fix r
  have "res_map (dns_target r (AdvertiseAddress cfg)) srvs \<noteq> Panic" for srvs
    using res_map_no_panic [of srvs "dns_target r (AdvertiseAddress cfg)"]
    by (auto simp: is_panic_iff dns_target_def split: sum.splits)
  then show "dns_lookupEndpoints r cfg \<noteq> Panic"
    by (auto simp: dns_lookupEndpoints_def res_bind_eq_Panic split: srv_answer.splits)
qed

interpretation none: endpoint_lookup "\<lambda>r. none_lookupEndpoints" own for own
  by unfold_locales (simp_all add: none_lookupEndpoints_def)

section \<open>Peer identities\<close>

text \<open>\<^verbatim>\<open>hex.EncodeToString\<close>\<close>

definition lowerhex :: "nat \<Rightarrow> char" where
  "lowerhex n = ''0123456789abcdef'' ! n"

definition EncodeToString :: "string \<Rightarrow> string" where
  "EncodeToString bs = concat (map (\<lambda>b. [lowerhex (code b div 16), lowerhex (code b mod 16)]) bs)"

text \<open>\<open>rand\<close> is what reading 16 random bytes gives.\<close>

definition NewPeerId :: "go_error + string \<Rightarrow> (go_error, string) res" where
  "NewPeerId rand =
     (case rand of
        Inl err \<Rightarrow> Err (wrap_error err ''failed generating peer ID'' [])
      | Inr buf \<Rightarrow> Ok (EncodeToString buf))"

lemma lowerhex_inj: "a < 16 \<Longrightarrow> b < 16 \<Longrightarrow> lowerhex a = lowerhex b \<Longrightarrow> a = b"
proof -
  have "distinct ''0123456789abcdef''" by simp
  then show "a < 16 \<Longrightarrow> b < 16 \<Longrightarrow> lowerhex a = lowerhex b \<Longrightarrow> a = b"
    by (auto simp: lowerhex_def nth_eq_iff_index_eq)
qed

lemma EncodeToString_length [simp]: "length (EncodeToString bs) = 2 * length bs"
  by (induction bs) (auto simp: EncodeToString_def)

lemma EncodeToString_inj: "EncodeToString a = EncodeToString b \<Longrightarrow> a = b"
proof (induction a arbitrary: b)
  case Nil
  then show ?case by (cases b) (auto simp: EncodeToString_def)
next
  case (Cons x a)
  then obtain y b' where b: "b = y # b'" by (cases b) (auto simp: EncodeToString_def)
  have lt: "code c div 16 < 16" for c :: char
  proof -
    have "code c < 256" by simp
    then show ?thesis by (simp only: less_mult_imp_div_less)
  qed
  from Cons.prems b have "lowerhex (code x div 16) = lowerhex (code y div 16)"
    "lowerhex (code x mod 16) = lowerhex (code y mod 16)" "EncodeToString a = EncodeToString b'"
    by (auto simp: EncodeToString_def)
  then have "code x div 16 = code y div 16" "code x mod 16 = code y mod 16" "a = b'"
    using lowerhex_inj lt Cons.IH by simp_all
  then have "code x = code y" by (metis div_mult_mod_eq)
  with b \<open>a = b'\<close> show ?case by (simp add: of_char_eq_iff)
qed

text \<open>
  With any configuration that defaulting accepts, an instance gets an endpoint lookup; it
  never panics, and whatever the resolver answers it never lists the instance's own advertised
  address.
\<close>

lemma lookup_never_lists_self:
  assumes "normalize net ns c = Ok c'"
  shows "\<exists>l. newEndpointLookup (c_Replication c') = (Ok l :: ('e, endpointLookup) res)
    \<and> (\<forall>r. lookupEndpoints l r \<noteq> Panic)
    \<and> (\<forall>r eps. lookupEndpoints l r = Ok eps \<longrightarrow>
          AdvertiseAddress (c_Replication c') \<notin> set eps)"
proof -
  have "Mode (c_Replication c') \<in> {NoneMode, StaticMode, DnsMode}"
    using normalize_replication_filled [OF normalize_Ok(3) [OF assms]]
    by (simp add: replication_filled_def)
  then obtain l where l: "newEndpointLookup (c_Replication c') = (Ok l :: ('e, endpointLookup) res)"
    and c: "lookupEndpoints l = (\<lambda>r. static_lookupEndpoints (c_Replication c'))
      \<or> lookupEndpoints l = (\<lambda>r. dns_lookupEndpoints r (c_Replication c'))
      \<or> lookupEndpoints l = (\<lambda>r. none_lookupEndpoints)"
    by (fastforce simp: newEndpointLookup_def split: if_splits)
  have "lookupEndpoints l r \<noteq> Panic" for r
    using c static.no_panic dns.no_panic none.no_panic by auto
  moreover have "AdvertiseAddress (c_Replication c') \<notin> set eps" if "lookupEndpoints l r = Ok eps" for r eps
    using c that static.not_own dns.not_own none.not_own by auto
  ultimately show ?thesis using l by blast
qed

lemma lookup_never_lists_self_witness:
  "\<exists>c' l. normalize demo_network (Inr ''ns'') demo_config = Ok c'
     \<and> newEndpointLookup (c_Replication c') = (Ok l :: (go_error, endpointLookup) res)"
proof -
  obtain c' where "normalize demo_network (Inr ''ns'') demo_config = Ok c'"
    by (simp add: config_eval demo_network_def demo_config_def NoneMode_def)
  with lookup_never_lists_self [OF this, where ?'e = go_error] show ?thesis by blast
qed

end
