(* ===== verification/Replication_Node.thy ===== *)
theory Replication_Node
  imports Replication_Peers
begin

text \<open>
  A node of the replication protocol: the connections to its peers
  (\<^verbatim>\<open>src/replication/{peers,connection}.go\<close>), the calls its peers make
  (\<^verbatim>\<open>src/replication/server.go\<close>) and the sessions it sends (\<^verbatim>\<open>src/replication/client.go\<close>).

  A \<^verbatim>\<open>go\<close> statement adds a task to the node's list of goroutines that are to run; the step
  relation at the end runs the tasks in any order, between the calls of peers. A method runs as one
  step, except \<open>reestablish\<close>, which waits for the transport in the middle. What a peer or the
  transport answers is an argument of the step. \<^verbatim>\<open>ResetConnectBackoff\<close>, the log, and the goroutine
  that logs the connection state have no effect on the state.
\<close>

section \<open>State\<close>

datatype code = PermissionDenied | Canceled | InvalidArgument | Unknown | OtherCode nat

text \<open>What a remote call gives: a reply, or an error with its status code.\<close>

datatype 'a rpc = Reply 'a | Fail code

text \<open>\<open>cn_open\<close> tells that the gRPC connection was not closed; \<open>cn_once\<close> that the \<^verbatim>\<open>Once\<close> was used.\<close>

record connection =
  cn_ep :: string
  cn_authority :: string
  cn_open :: bool
  cn_live :: bool
  cn_dead :: bool
  cn_once :: bool

datatype task =
    Handshake nat
  | Reestablish nat code
  | Waiting nat
  | Update nat "pbStamp list"
  | SendSession nat stamped

text \<open>
  A connection is a pointer: its index in the heap, where connections are only added.
  \<open>nd_broadcasts\<close> lists the broadcasts on the connections' condition variables so far.
\<close>

record node =
  nd_self :: self
  nd_store :: sessionStore
  nd_conns :: "string \<rightharpoonup> nat"
  nd_heap :: "connection list"
  nd_tasks :: "task list"
  nd_broadcasts :: "nat list"

definition spawn :: "task \<Rightarrow> node \<Rightarrow> node" where
  "spawn t n = n\<lparr>nd_tasks := nd_tasks n @ [t]\<rparr>"

definition broadcast :: "nat \<Rightarrow> node \<Rightarrow> node" where
  "broadcast c n = n\<lparr>nd_broadcasts := nd_broadcasts n @ [c]\<rparr>"

lemma spawn_simps [simp]:
  "nd_self (spawn t n) = nd_self n" "nd_store (spawn t n) = nd_store n"
  "nd_conns (spawn t n) = nd_conns n" "nd_heap (spawn t n) = nd_heap n"
  "nd_tasks (spawn t n) = nd_tasks n @ [t]" "nd_broadcasts (spawn t n) = nd_broadcasts n"
  by (simp_all add: spawn_def)

lemma broadcast_simps [simp]:
  "nd_self (broadcast c n) = nd_self n" "nd_store (broadcast c n) = nd_store n"
  "nd_conns (broadcast c n) = nd_conns n" "nd_heap (broadcast c n) = nd_heap n"
  "nd_tasks (broadcast c n) = nd_tasks n" "nd_broadcasts (broadcast c n) = nd_broadcasts n @ [c]"
  by (simp_all add: broadcast_def)

definition conn :: "node \<Rightarrow> nat \<Rightarrow> connection" where
  "conn n c = nd_heap n ! c"

definition set_conn :: "nat \<Rightarrow> connection \<Rightarrow> node \<Rightarrow> node" where
  "set_conn c x n = n\<lparr>nd_heap := (nd_heap n)[c := x]\<rparr>"

definition set_live :: "nat \<Rightarrow> bool \<Rightarrow> node \<Rightarrow> node" where
  "set_live c b n = set_conn c ((conn n c)\<lparr>cn_live := b\<rparr>) n"

section \<open>Connections\<close>

text \<open>
  \<^verbatim>\<open>grpc.Dial\<close> without a blocking option only sets a connection up and dials in the background. The code
  drops its error, and so the model takes it not to fail: every connection starts open.
\<close>

definition newConnection :: "string \<Rightarrow> string \<Rightarrow> node \<Rightarrow> node \<times> nat" where
  "newConnection peer auth n =
     (let c = length (nd_heap n);
          x = \<lparr>cn_ep = peer, cn_authority = auth, cn_open = True, cn_live = False, cn_dead = False,
               cn_once = False\<rparr>
      in (spawn (Handshake c) (n\<lparr>nd_heap := nd_heap n @ [x]\<rparr>), c))"

definition getConnection :: "endpointLookup \<Rightarrow> string \<Rightarrow> node \<Rightarrow> node \<times> nat \<times> bool" where
  "getConnection l ep n =
     (case nd_conns n ep of
        None \<Rightarrow>
          (case newConnection ep (authority l ep) n of
             (n', c) \<Rightarrow> (n'\<lparr>nd_conns := (nd_conns n')(ep \<mapsto> c)\<rparr>, c, True))
      | Some c \<Rightarrow> (n, c, False))"

definition getConnections :: "node \<Rightarrow> string list \<Rightarrow> nat list" where
  "getConnections n ks = List.map_filter (nd_conns n) ks"

definition disconnect :: "nat \<Rightarrow> node \<Rightarrow> node" where
  "disconnect c n = set_conn c ((conn n c)\<lparr>cn_dead := True, cn_open := False\<rparr>) n"

text \<open>\<^verbatim>\<open>Peers.refresh\<close>: the body of the loop over the connections, and the method.\<close>

definition refresh_conn :: "string set \<Rightarrow> string \<Rightarrow> node \<Rightarrow> node" where
  "refresh_conn keep ep n =
     (case nd_conns n ep of
        None \<Rightarrow> n
      | Some c \<Rightarrow>
          if ep \<in> keep then n
          else (disconnect c n)\<lparr>nd_conns := (nd_conns n)(ep := None)\<rparr>)"

definition refresh_peers ::
  "endpointLookup \<Rightarrow> resolver \<Rightarrow> string list \<Rightarrow> node \<Rightarrow> node \<times> (go_error, string list) res" where
  "refresh_peers l r ks n =
     (case lookupEndpoints l r of
        Ok eps \<Rightarrow> (fold (refresh_conn (set eps)) ks n, Ok eps)
      | Err err \<Rightarrow> (n, Err (wrap_error err ''failed refreshing endpoints'' []))
      | Panic \<Rightarrow> (n, Panic))"

text \<open>The requests a connection sends.\<close>

record handshakeRequest =
  hq_PeerId :: string
  hq_PeerEndpoint :: string
  hq_Latest :: "pbStamp list"

record handshakeResponse =
  hr_PeerId :: string
  hr_PeerEndpoint :: string
  hr_Latest :: "pbStamp list"

record 'ts setSessionRequest =
  sq_PeerId :: string
  sq_Session :: "'ts pbSession option"
  sq_Stamp :: "pbStamp option"

record streamSessionsRequest =
  tq_PeerId :: string
  tq_From :: "pbStamp list"

record 'ts streamSessionsResponse =
  tr_Session :: "'ts pbSession option"
  tr_Stamp :: "pbStamp option"

definition handshake_request :: "node \<Rightarrow> string list \<Rightarrow> handshakeRequest" where
  "handshake_request n ks =
     \<lparr>hq_PeerId = self_id (nd_self n), hq_PeerEndpoint = self_ep (nd_self n),
      hq_Latest = latestToProto (copyLatest (nd_self n)) ks\<rparr>"

definition handshake ::
  "nat \<Rightarrow> handshakeResponse rpc \<Rightarrow> node \<Rightarrow> (exit_status, node) res" where
  "handshake c answer n =
     (case answer of
        Fail PermissionDenied \<Rightarrow> Err 1
      | Fail sc \<Rightarrow> Ok (spawn (Reestablish c sc) n)
      | Reply r \<Rightarrow> Ok (spawn (Update c (hr_Latest r)) n))"

text \<open>\<^verbatim>\<open>reestablish\<close> up to the wait for the transport, and from there on.\<close>

definition reestablish :: "nat \<Rightarrow> code \<Rightarrow> node \<Rightarrow> node" where
  "reestablish c sc n =
     (if cn_once (conn n c) then n
      else
        (let n' = broadcast c (set_conn c ((conn n c)\<lparr>cn_once := True, cn_live := False\<rparr>) n)
         in if sc = Canceled then n' else spawn (Waiting c) n'))"

definition reestablish_recovered :: "nat \<Rightarrow> node \<Rightarrow> node" where
  "reestablish_recovered c n =
     spawn (Handshake c) (set_conn c ((conn n c)\<lparr>cn_once := False\<rparr>) n)"

definition stream_request :: "node \<Rightarrow> string list \<Rightarrow> streamSessionsRequest" where
  "stream_request n ks =
     \<lparr>tq_PeerId = self_id (nd_self n), tq_From = latestToProto (copyLatest (nd_self n)) ks\<rparr>"

text \<open>
  What the stream delivers before it ends: messages, or an error, after which nothing is read.
\<close>

datatype 'ts recv = Recv "'ts streamSessionsResponse" | RecvErr code

fun recv_loop :: "'ts timestamps \<Rightarrow> nat \<Rightarrow> 'ts recv list \<Rightarrow> node \<Rightarrow> (exit_status, node \<times> bool) res"
  where
  "recv_loop ts c [] n = Ok (n, True)"
| "recv_loop ts c (RecvErr sc # es) n = Ok (spawn (Reestablish c sc) n, False)"
| "recv_loop ts c (Recv m # es) n =
     res_bind (sessionFromProto ts (tr_Session m)) (\<lambda>s.
     res_bind (stampFromProto (tr_Stamp m)) (\<lambda>st.
       case Set (nd_store n) \<lparr>sd_session = s, sd_stamp = st\<rparr> of
         (ss, Inl err) \<Rightarrow> Ok (spawn (Reestablish c Unknown) (n\<lparr>nd_store := ss\<rparr>), False)
       | (ss, Inr _) \<Rightarrow> recv_loop ts c es (n\<lparr>nd_store := ss\<rparr>)))"

definition streamSessions ::
  "'ts timestamps \<Rightarrow> nat \<Rightarrow> 'ts recv list rpc \<Rightarrow> node \<Rightarrow> (exit_status, node \<times> bool) res" where
  "streamSessions ts c stream n =
     (case stream of
        Fail sc \<Rightarrow> Ok (spawn (Reestablish c sc) n, False)
      | Reply es \<Rightarrow> recv_loop ts c es n)"

text \<open>\<open>ks\<close> is the order in which \<^verbatim>\<open>needsUpdate\<close> visits the map.\<close>

definition update_conn ::
  "'ts timestamps \<Rightarrow> nat \<Rightarrow> pbStamp list \<Rightarrow> string list \<Rightarrow> 'ts recv list rpc \<Rightarrow> node
    \<Rightarrow> (exit_status, node) res" where
  "update_conn ts c latest ks stream n =
     (if needsUpdate (nd_self n) (latestFromProto latest) ks
      then res_bind (streamSessions ts c stream n) (\<lambda>(n', ok). Ok (broadcast c (set_live c ok n')))
      else Ok (broadcast c (set_live c True n)))"

definition setSession_request :: "'ts timestamps \<Rightarrow> node \<Rightarrow> stamped \<Rightarrow> 'ts setSessionRequest" where
  "setSession_request ts n sess =
     \<lparr>sq_PeerId = self_id (nd_self n), sq_Session = Some (sessionToProto ts (sd_session sess)),
      sq_Stamp = Some (stampToProto (sd_stamp sess))\<rparr>"

definition setSession :: "nat \<Rightarrow> unit rpc \<Rightarrow> node \<Rightarrow> node" where
  "setSession c answer n =
     (case answer of Reply _ \<Rightarrow> n | Fail sc \<Rightarrow> spawn (Reestablish c sc) n)"

section \<open>The client\<close>

definition Client_SetSession :: "stamped \<Rightarrow> string list \<Rightarrow> node \<Rightarrow> node" where
  "Client_SetSession sess ks n =
     (let n' = n\<lparr>nd_self := update_self (self_id (nd_self n)) (serial sess) (nd_self n)\<rparr>
      in fold (\<lambda>c. spawn (SendSession c sess)) (getConnections n' ks) n')"

section \<open>The server\<close>

definition Server_Handshake ::
  "endpointLookup \<Rightarrow> handshakeRequest \<Rightarrow> string list \<Rightarrow> node \<Rightarrow> node \<times> handshakeResponse rpc" where
  "Server_Handshake l req ks n =
     (if hq_PeerId req = self_id (nd_self n) then (n, Fail PermissionDenied)
      else
        (case getConnection l (hq_PeerEndpoint req) n of
           (n1, c, _) \<Rightarrow>
             (let n2 = (if cn_live (conn n1 c) then spawn (Update c (hq_Latest req)) n1 else n1)
              in (n2, Reply \<lparr>hr_PeerId = self_id (nd_self n2), hr_PeerEndpoint = self_ep (nd_self n2),
                             hr_Latest = latestToProto (copyLatest (nd_self n2)) ks\<rparr>))))"

definition Server_SetSession ::
  "'ts timestamps \<Rightarrow> 'ts setSessionRequest \<Rightarrow> node \<Rightarrow> (exit_status, node \<times> unit rpc) res" where
  "Server_SetSession ts req n =
     res_bind (sessionFromProto ts (sq_Session req)) (\<lambda>s.
     res_bind (stampFromProto (sq_Stamp req)) (\<lambda>st.
       case Set (nd_store n) \<lparr>sd_session = s, sd_stamp = st\<rparr> of
         (ss, Inr _) \<Rightarrow>
           Ok (n\<lparr>nd_store := ss, nd_self := update_self (st_peer st) (st_serial st) (nd_self n)\<rparr>,
               Reply ())
       | (ss, Inl err) \<Rightarrow> Ok (n\<lparr>nd_store := ss\<rparr>, Fail InvalidArgument)))"

definition stream_response :: "'ts timestamps \<Rightarrow> stamped \<Rightarrow> 'ts streamSessionsResponse" where
  "stream_response ts e =
     \<lparr>tr_Session = Some (sessionToProto ts (sd_session e)), tr_Stamp = Some (stampToProto (sd_stamp e))\<rparr>"

text \<open>
  The messages that are sent: all of them, or those before the first whose sending fails. \<open>ks\<close> is
  the order in which the store's map is visited.
\<close>

fun send_loop :: "(stamped \<Rightarrow> bool) \<Rightarrow> 'ts timestamps \<Rightarrow> stamped list \<Rightarrow> 'ts streamSessionsResponse list \<times> bool"
  where
  "send_loop sendable ts [] = ([], True)"
| "send_loop sendable ts (e # es) =
     (if sendable e then (case send_loop sendable ts es of (ms, ok) \<Rightarrow> (stream_response ts e # ms, ok))
      else ([], False))"

definition Server_StreamSessions ::
  "(stamped \<Rightarrow> bool) \<Rightarrow> 'ts timestamps \<Rightarrow> streamSessionsRequest \<Rightarrow> string list \<Rightarrow> node
    \<Rightarrow> 'ts streamSessionsResponse list \<times> bool" where
  "Server_StreamSessions sendable ts req ks n =
     send_loop sendable ts (Stream (nd_store n) (latestFromProto (tq_From req)) ks)"

section \<open>The steps of a node\<close>

definition NewNode :: "string \<Rightarrow> string \<Rightarrow> node" where
  "NewNode peerId advertise =
     \<lparr>nd_self = NewSelf peerId advertise, nd_store = NewSessionStore peerId, nd_conns = Map.empty,
      nd_heap = [], nd_tasks = [], nd_broadcasts = []\<rparr>"

text \<open>
  A goroutine runs, a peer calls, the server of this instance stores and sends a session, the
  worker refreshes the peers or gets a connection, or the cleaner cleans the store. A step that
  would end the process is not a step.
\<close>

inductive node_step :: "endpointLookup \<Rightarrow> 'ts timestamps \<Rightarrow> node \<Rightarrow> node \<Rightarrow> bool" for l ts where
  run_handshake: "nd_tasks n = pre @ Handshake c # post \<Longrightarrow>
    handshake c answer (n\<lparr>nd_tasks := pre @ post\<rparr>) = Ok n' \<Longrightarrow> node_step l ts n n'"
| run_reestablish: "nd_tasks n = pre @ Reestablish c sc # post \<Longrightarrow>
    node_step l ts n (reestablish c sc (n\<lparr>nd_tasks := pre @ post\<rparr>))"
| run_waiting: "nd_tasks n = pre @ Waiting c # post \<Longrightarrow>
    node_step l ts n (reestablish_recovered c (n\<lparr>nd_tasks := pre @ post\<rparr>))"
| run_update: "nd_tasks n = pre @ Update c latest # post \<Longrightarrow> ranges (latestFromProto latest) ks \<Longrightarrow>
    update_conn ts c latest ks stream (n\<lparr>nd_tasks := pre @ post\<rparr>) = Ok n' \<Longrightarrow> node_step l ts n n'"
| run_send: "nd_tasks n = pre @ SendSession c sess # post \<Longrightarrow>
    node_step l ts n (setSession c answer (n\<lparr>nd_tasks := pre @ post\<rparr>))"
| called_handshake: "Server_Handshake l req ks n = (n', r) \<Longrightarrow> node_step l ts n n'"
| called_setSession: "Server_SetSession ts req n = Ok (n', reply) \<Longrightarrow> node_step l ts n n'"
| local_session: "ranges (nd_conns n) ks \<Longrightarrow>
    node_step l ts n (Client_SetSession sess ks (n\<lparr>nd_store := fst (Set (nd_store n) x)\<rparr>))"
| refresh_round: "ranges (nd_conns n) ks \<Longrightarrow> refresh_peers l r ks n = (n', eps) \<Longrightarrow> node_step l ts n n'"
| worker_connect: "getConnection l ep n = (n', c, isNew) \<Longrightarrow> node_step l ts n n'"
| clean_store: "ranges (ss_store (nd_store n)) ks \<Longrightarrow>
    node_step l ts n (n\<lparr>nd_store := clean limit ks (nd_store n)\<rparr>)"

inductive node_reachable :: "endpointLookup \<Rightarrow> 'ts timestamps \<Rightarrow> string \<Rightarrow> string \<Rightarrow> node \<Rightarrow> bool"
  for l ts me adv where
  start: "node_reachable l ts me adv (NewNode me adv)"
| step: "node_reachable l ts me adv n \<Longrightarrow> node_step l ts n n' \<Longrightarrow> node_reachable l ts me adv n'"

section \<open>Invariant\<close>

fun task_conn :: "task \<Rightarrow> nat" where
  "task_conn (Handshake c) = c"
| "task_conn (Reestablish c sc) = c"
| "task_conn (Waiting c) = c"
| "task_conn (Update c ls) = c"
| "task_conn (SendSession c s) = c"

fun waiting :: "task \<Rightarrow> bool" where
  "waiting (Waiting c) = True"
| "waiting t = False"

definition wait_limit :: "connection \<Rightarrow> nat" where
  "wait_limit x = of_bool (cn_once x)"

lemma wait_limit_update [simp]:
  "wait_limit (x\<lparr>cn_live := b\<rparr>) = wait_limit x"
  "wait_limit (x\<lparr>cn_dead := d, cn_open := e\<rparr>) = wait_limit x"
  by (simp_all add: wait_limit_def)

definition waits :: "node \<Rightarrow> nat \<Rightarrow> nat" where
  "waits n c = count_list (nd_tasks n) (Waiting c)"

text \<open>
  The map holds open connections, each under its endpoint; a connection is dead when it is closed;
  tasks have a connection; and one goroutine at most waits for a connection's transport, which
  then has used its \<^verbatim>\<open>Once\<close>.
\<close>

definition node_inv :: "string \<Rightarrow> node \<Rightarrow> bool" where
  "node_inv me n \<longleftrightarrow>
     self_id (nd_self n) = me \<and> store_reachable me (nd_store n)
     \<and> (\<forall>ep c. nd_conns n ep = Some c \<longrightarrow>
          c < length (nd_heap n) \<and> cn_ep (conn n c) = ep \<and> cn_open (conn n c))
     \<and> (\<forall>x \<in> set (nd_heap n). cn_dead x \<longleftrightarrow> \<not> cn_open x)
     \<and> (\<forall>t \<in> set (nd_tasks n). task_conn t < length (nd_heap n))
     \<and> (\<forall>c < length (nd_heap n). waits n c \<le> wait_limit (conn n c))"

lemma node_inv_NewNode: "node_inv me (NewNode me adv)"
  by (simp add: node_inv_def NewNode_def NewSelf_def store_reachable.start)

lemma node_inv_conn: "node_inv me n \<Longrightarrow> nd_conns n ep = Some c \<Longrightarrow>
    c < length (nd_heap n) \<and> cn_ep (conn n c) = ep \<and> cn_open (conn n c)"
  by (simp add: node_inv_def)

lemma node_inv_spawn:
  "node_inv me n \<Longrightarrow> task_conn t < length (nd_heap n) \<Longrightarrow> \<not> waiting t \<Longrightarrow> node_inv me (spawn t n)"
  by (cases t) (simp_all add: node_inv_def spawn_def waits_def conn_def)

lemma node_inv_broadcast [simp]: "node_inv me (broadcast c n) = node_inv me n"
  by (simp add: node_inv_def conn_def waits_def)

lemma node_inv_wait:
  "node_inv me n \<Longrightarrow> c < length (nd_heap n) \<Longrightarrow> cn_once (conn n c) \<Longrightarrow> waits n c = 0 \<Longrightarrow>
    node_inv me (spawn (Waiting c) n)"
  by (auto simp: node_inv_def spawn_def waits_def conn_def wait_limit_def)

lemma node_inv_store:
  "node_inv me n \<Longrightarrow> store_reachable me ss \<Longrightarrow> node_inv me (n\<lparr>nd_store := ss\<rparr>)"
  by (simp add: node_inv_def conn_def waits_def)

lemma node_inv_self:
  "node_inv me n \<Longrightarrow> self_id s = me \<Longrightarrow> node_inv me (n\<lparr>nd_self := s\<rparr>)"
  by (simp add: node_inv_def conn_def waits_def)

lemma node_inv_take:
  assumes "node_inv me n" and "nd_tasks n = pre @ t # post"
  shows "node_inv me (n\<lparr>nd_tasks := pre @ post\<rparr>)" and "task_conn t < length (nd_heap n)"
proof -
  have "waits (n\<lparr>nd_tasks := pre @ post\<rparr>) c \<le> waits n c" for c
    using assms(2) by (simp add: waits_def)
  moreover have "conn (n\<lparr>nd_tasks := pre @ post\<rparr>) c = conn n c" for c by (simp add: conn_def)
  ultimately show "node_inv me (n\<lparr>nd_tasks := pre @ post\<rparr>)"
    using assms by (auto simp: node_inv_def) (meson le_trans)
  show "task_conn t < length (nd_heap n)" using assms by (simp add: node_inv_def)
qed

lemma node_inv_take_waiting:
  assumes "node_inv me n" and "nd_tasks n = pre @ Waiting c # post"
  shows "waits (n\<lparr>nd_tasks := pre @ post\<rparr>) c = 0"
proof -
  have "c < length (nd_heap n)" using node_inv_take(2) [OF assms] by simp
  then have "waits n c \<le> wait_limit (conn n c)" using assms(1) by (simp add: node_inv_def)
  also have "\<dots> \<le> 1" by (simp add: wait_limit_def)
  finally show ?thesis using assms(2) by (simp add: waits_def)
qed

lemma node_inv_set_conn:
  assumes "node_inv me n" and "c < length (nd_heap n)" and "cn_ep x = cn_ep (conn n c)"
    and "cn_dead x \<longleftrightarrow> \<not> cn_open x" and "cn_open x \<or> c \<notin> ran (nd_conns n)"
    and "waits n c \<le> wait_limit x"
  shows "node_inv me (set_conn c x n)"
proof -
  have "y = x \<or> y \<in> set (nd_heap n)" if "y \<in> set ((nd_heap n)[c := x])" for y
    using that set_update_subset_insert by fastforce
  then show ?thesis
    using assms
    by (auto simp: node_inv_def set_conn_def conn_def waits_def nth_list_update ran_def)
qed

lemma node_inv_dead: "node_inv me n \<Longrightarrow> c < length (nd_heap n) \<Longrightarrow>
    cn_dead (conn n c) \<longleftrightarrow> \<not> cn_open (conn n c)"
  by (simp add: node_inv_def conn_def)

lemma node_inv_ran: "node_inv me n \<Longrightarrow> c < length (nd_heap n) \<Longrightarrow>
    cn_open (conn n c) \<or> c \<notin> ran (nd_conns n)"
  by (auto simp: node_inv_def ran_def)

lemma node_inv_waits: "node_inv me n \<Longrightarrow> c < length (nd_heap n) \<Longrightarrow>
    waits n c \<le> wait_limit (conn n c)"
  by (simp add: node_inv_def)

lemma node_inv_set_live: "node_inv me n \<Longrightarrow> c < length (nd_heap n) \<Longrightarrow> node_inv me (set_live c b n)"
  unfolding set_live_def
  by (rule node_inv_set_conn) (simp_all add: node_inv_dead node_inv_ran node_inv_waits)

lemma node_inv_newConnection:
  assumes "node_inv me n" and "newConnection ep auth n = (n', c)"
  shows "node_inv me (n'\<lparr>nd_conns := (nd_conns n')(ep \<mapsto> c)\<rparr>)"
proof -
  have "waits n (length (nd_heap n)) = 0"
    using assms(1) by (auto simp: node_inv_def waits_def count_list_0_iff)
  then show ?thesis
    using assms
    by (auto simp: newConnection_def Let_def node_inv_def spawn_def waits_def conn_def nth_append less_Suc_eq)
qed

lemma node_inv_getConnection:
  assumes "node_inv me n" and "getConnection l ep n = (n', c, isNew)"
  shows "node_inv me n'" and "c < length (nd_heap n')" and "nd_conns n' ep = Some c"
proof -
  show *: "node_inv me n'" and e: "nd_conns n' ep = Some c"
    using assms node_inv_newConnection [OF assms(1)]
    by (auto simp: getConnection_def split: option.splits prod.splits)
  show "c < length (nd_heap n')" using node_inv_conn [OF * e] by simp
qed

lemma node_inv_refresh_conn: "node_inv me n \<Longrightarrow> node_inv me (refresh_conn keep ep n)"
proof (cases "nd_conns n ep")
  case (Some c)
  assume inv: "node_inv me n"
  note conn_c = node_inv_conn [OF inv Some]
  define n0 where "n0 = n\<lparr>nd_conns := (nd_conns n)(ep := None)\<rparr>"
  have i0: "node_inv me n0" using inv by (auto simp: n0_def node_inv_def conn_def waits_def)
  have "c \<notin> ran (nd_conns n0)"
    using node_inv_conn [OF inv] conn_c by (auto simp: n0_def ran_def)
  moreover have "c < length (nd_heap n0)" using conn_c by (simp add: n0_def)
  ultimately have "node_inv me (disconnect c n0)"
    unfolding disconnect_def
    by (intro node_inv_set_conn i0) (simp_all add: node_inv_waits [OF i0])
  moreover have "(disconnect c n)\<lparr>nd_conns := (nd_conns n)(ep := None)\<rparr> = disconnect c n0"
    by (simp add: disconnect_def set_conn_def n0_def conn_def)
  ultimately show ?thesis using inv Some by (simp add: refresh_conn_def)
qed (simp add: refresh_conn_def)

lemma node_inv_refresh_fold: "node_inv me n \<Longrightarrow> node_inv me (fold (refresh_conn keep) ks n)"
  by (induction ks arbitrary: n) (auto intro: node_inv_refresh_conn)

lemma node_inv_refresh:
  "node_inv me n \<Longrightarrow> refresh_peers l r ks n = (n', eps) \<Longrightarrow> node_inv me n'"
  by (auto simp: refresh_peers_def intro: node_inv_refresh_fold split: res.splits)

lemma node_inv_reestablish:
  assumes "node_inv me n" and "c < length (nd_heap n)"
  shows "node_inv me (reestablish c sc n)"
proof (cases "cn_once (conn n c)")
  case False
  let ?n = "broadcast c (set_conn c ((conn n c)\<lparr>cn_once := True, cn_live := False\<rparr>) n)"
  have w: "waits n c = 0"
    using node_inv_waits [OF assms] False by (simp add: wait_limit_def)
  then have i: "node_inv me ?n"
    using assms by (simp, intro node_inv_set_conn) (simp_all add: node_inv_dead node_inv_ran)
  moreover have "c < length (nd_heap ?n)" "cn_once (conn ?n c)" "waits ?n c = 0"
    using assms w by (simp_all add: set_conn_def conn_def waits_def)
  ultimately show ?thesis
    using False by (simp add: reestablish_def Let_def node_inv_wait)
qed (use assms in \<open>simp add: reestablish_def\<close>)

lemma node_inv_recovered:
  assumes "node_inv me n" and "c < length (nd_heap n)" and "waits n c = 0"
  shows "node_inv me (reestablish_recovered c n)"
proof -
  have "node_inv me (set_conn c ((conn n c)\<lparr>cn_once := False\<rparr>) n)"
    using assms by (intro node_inv_set_conn) (simp_all add: node_inv_dead node_inv_ran)
  then show ?thesis
    using assms(2) unfolding reestablish_recovered_def
    by (intro node_inv_spawn) (simp_all add: set_conn_def)
qed

lemma node_inv_recv_loop:
  "recv_loop ts c es n = Ok (n', ok) \<Longrightarrow> node_inv me n \<Longrightarrow> c < length (nd_heap n) \<Longrightarrow>
    node_inv me n' \<and> length (nd_heap n') = length (nd_heap n)"
proof (induction ts c es n arbitrary: n' ok rule: recv_loop.induct)
  case (2 ts c sc es n)
  then show ?case by (auto intro!: node_inv_spawn)
next
  case (3 ts c m es n)
  then obtain s st where s: "sessionFromProto ts (tr_Session m) = (Ok s :: (exit_status, _) res)"
    and st: "stampFromProto (tr_Stamp m) = (Ok st :: (exit_status, _) res)" by auto
  obtain ss r where set: "Set (nd_store n) \<lparr>sd_session = s, sd_stamp = st\<rparr> = (ss, r)" by force
  have "store_reachable me (nd_store n)" using 3(3) by (simp add: node_inv_def)
  then have ss: "store_reachable me ss" using store_reachable.set set by (metis fst_conv)
  let ?n = "n\<lparr>nd_store := ss\<rparr>"
  have i: "node_inv me ?n" using 3(3) ss by (rule node_inv_store)
  show ?case
  proof (cases r)
    case (Inl e)
    with 3(2) s st set have "n' = spawn (Reestablish c Unknown) ?n" by simp
    moreover have "node_inv me (spawn (Reestablish c Unknown) ?n)"
      using i 3(4) by (intro node_inv_spawn) simp_all
    ultimately show ?thesis by simp
  next
    case (Inr y)
    with 3(2) s st set have "recv_loop ts c es ?n = Ok (n', ok)" by simp
    then show ?thesis using 3(1) [OF s st set [symmetric, unfolded Inr]] i 3(4) by simp
  qed
qed simp

lemma node_inv_update_conn:
  assumes "update_conn ts c latest ks stream n = Ok n'" and "node_inv me n" and "c < length (nd_heap n)"
  shows "node_inv me n'"
proof (cases "needsUpdate (nd_self n) (latestFromProto latest) ks")
  case True
  with assms(1) obtain n1 ok where s: "streamSessions ts c stream n = (Ok (n1, ok) :: (exit_status, _) res)"
    and n': "n' = broadcast c (set_live c ok n1)"
    by (auto simp: update_conn_def)
  have "node_inv me n1 \<and> length (nd_heap n1) = length (nd_heap n)"
  proof (cases stream)
    case (Reply es)
    with s assms show ?thesis by (intro node_inv_recv_loop) (simp_all add: streamSessions_def)
  next
    case (Fail sc)
    with s have "n1 = spawn (Reestablish c sc) n" by (simp add: streamSessions_def)
    with assms show ?thesis by (simp add: node_inv_spawn)
  qed
  with n' assms(3) show ?thesis by (simp add: node_inv_set_live)
next
  case False
  with assms show ?thesis by (auto simp: update_conn_def node_inv_set_live)
qed

lemma node_inv_handshake:
  "handshake c answer n = Ok n' \<Longrightarrow> node_inv me n \<Longrightarrow> c < length (nd_heap n) \<Longrightarrow> node_inv me n'"
  by (auto simp: handshake_def intro!: node_inv_spawn split: rpc.splits code.splits)

lemma node_inv_setSession:
  "node_inv me n \<Longrightarrow> c < length (nd_heap n) \<Longrightarrow> node_inv me (setSession c answer n)"
  by (auto simp: setSession_def intro!: node_inv_spawn split: rpc.splits)

lemma node_inv_Client_SetSession:
  assumes "node_inv me n"
  shows "node_inv me (Client_SetSession sess ks n)"
proof -
  have "node_inv me (fold (\<lambda>c. spawn (SendSession c sess)) cs n)"
    if "node_inv me n" and "\<forall>c \<in> set cs. c < length (nd_heap n)" for cs n
    using that
  proof (induction cs arbitrary: n)
    case (Cons c cs)
    then have "node_inv me (spawn (SendSession c sess) n)" by (intro node_inv_spawn) simp_all
    with Cons show ?case by simp
  qed simp
  moreover have "c < length (nd_heap n)" if "c \<in> set (getConnections n' ks)"
    and "nd_conns n' = nd_conns n" for c n'
    using that node_inv_conn [OF assms]
    by (auto simp: getConnections_def List.map_filter_def)
  moreover have "self_id (nd_self n) = me" using assms by (simp add: node_inv_def)
  ultimately show ?thesis
    using assms by (simp add: Client_SetSession_def Let_def node_inv_self)
qed

lemma node_inv_Server_Handshake:
  assumes "Server_Handshake l req ks n = (n', r)" and "node_inv me n"
  shows "node_inv me n'"
proof (cases "hq_PeerId req = self_id (nd_self n)")
  case False
  obtain n1 c b where g: "getConnection l (hq_PeerEndpoint req) n = (n1, c, b)"
    by (cases "getConnection l (hq_PeerEndpoint req) n") auto
  note i = node_inv_getConnection [OF assms(2) g]
  then have "node_inv me (spawn (Update c (hq_Latest req)) n1)" by (intro node_inv_spawn) simp_all
  with i g False assms(1) show ?thesis
    by (auto simp: Server_Handshake_def Let_def split: if_splits)
qed (use assms in \<open>simp add: Server_Handshake_def\<close>)

lemma node_inv_Server_SetSession:
  assumes "Server_SetSession ts req n = Ok (n', r)" and "node_inv me n"
  shows "node_inv me n'"
proof -
  from assms(1) obtain s st where
    n': "(case Set (nd_store n) \<lparr>sd_session = s, sd_stamp = st\<rparr> of
         (ss, Inr _) \<Rightarrow>
           Ok (n\<lparr>nd_store := ss, nd_self := update_self (st_peer st) (st_serial st) (nd_self n)\<rparr>,
               Reply ())
       | (ss, Inl err) \<Rightarrow> Ok (n\<lparr>nd_store := ss\<rparr>, Fail InvalidArgument))
      = (Ok (n', r) :: (exit_status, _) res)"
    unfolding Server_SetSession_def res_bind_eq_Ok by blast
  obtain ss x where set: "Set (nd_store n) \<lparr>sd_session = s, sd_stamp = st\<rparr> = (ss, x)" by force
  have inv: "self_id (nd_self n) = me" "store_reachable me (nd_store n)"
    using assms(2) by (simp_all add: node_inv_def)
  then have "store_reachable me ss" using store_reachable.set set by (metis fst_conv)
  then have i: "node_inv me (n\<lparr>nd_store := ss\<rparr>)" by (intro node_inv_store assms(2))
  then have "node_inv me ((n\<lparr>nd_store := ss\<rparr>)\<lparr>nd_self := update_self (st_peer st) (st_serial st) (nd_self n)\<rparr>)"
    using inv by (intro node_inv_self) simp_all
  with i n' set show ?thesis by (auto split: sum.splits)
qed

lemma node_inv_step: "node_step l ts n n' \<Longrightarrow> node_inv me n \<Longrightarrow> node_inv me n'"
proof (induction rule: node_step.induct)
  case (run_handshake n pre c post answer n')
  then show ?case using node_inv_take [of me n pre _ post] node_inv_handshake by fastforce
next
  case (run_reestablish n pre c sc post)
  then show ?case using node_inv_take [of me n pre _ post] by (intro node_inv_reestablish) fastforce+
next
  case (run_waiting n pre c post)
  then show ?case
    using node_inv_take [of me n pre _ post] node_inv_take_waiting [of me n pre c post]
    by (intro node_inv_recovered) fastforce+
next
  case (run_update n pre c latest post ks stream n')
  then show ?case using node_inv_take [of me n pre _ post] node_inv_update_conn by fastforce
next
  case (run_send n pre c sess post answer)
  then show ?case using node_inv_take [of me n pre _ post] by (intro node_inv_setSession) fastforce+
next
  case (called_handshake req ks n n' r)
  then show ?case by (rule node_inv_Server_Handshake)
next
  case (called_setSession req n n' reply)
  then show ?case by (rule node_inv_Server_SetSession)
next
  case (local_session n ks sess x)
  then have "store_reachable me (fst (Set (nd_store n) x))"
    by (intro store_reachable.set) (simp add: node_inv_def)
  with local_session(2) have "node_inv me (n\<lparr>nd_store := fst (Set (nd_store n) x)\<rparr>)"
    by (rule node_inv_store)
  then show ?case by (rule node_inv_Client_SetSession)
next
  case (refresh_round n ks r n' eps)
  then show ?case by (metis node_inv_refresh)
next
  case (worker_connect ep n n' c isNew)
  then show ?case using node_inv_getConnection(1) by blast
next
  case (clean_store n ks limit)
  then have "store_reachable me (clean limit ks (nd_store n))"
    by (intro store_reachable.clean) (simp_all add: node_inv_def)
  with clean_store(2) show ?case by (rule node_inv_store)
qed

lemma node_reachable_inv: "node_reachable l ts me adv n \<Longrightarrow> node_inv me n"
  by (induction rule: node_reachable.induct) (auto intro: node_inv_NewNode node_inv_step)

section \<open>Receiving what a peer streams\<close>

text \<open>
  The sessions of a stream are accepted one after the other when each peer's list stays in order.
\<close>

lemma ordered_prefix: "ordered p (l @ x # ys) \<Longrightarrow> ordered p (l @ [x])"
  by (auto simp: ordered_def sorted_wrt_append)

lemma Set_in_order:
  assumes "ordered (peer_of x) (peer_list ss (peer_of x) @ [x])" and "sd_stamp x \<noteq> zero_stamp"
  shows "\<exists>ss'. Set ss x = (ss', Inr x)
    \<and> (\<forall>p. peer_list ss' p = peer_list ss p @ (if peer_of x = p then [x] else []))"
proof -
  have a: "assign_stamp ss x = (ss, x)" using assms(2) by (simp add: assign_stamp_def)
  have lt: "serial (last (peer_list ss (peer_of x))) < serial x" if "peer_list ss (peer_of x) \<noteq> []"
    using assms(1) that by (auto simp: ordered_def sorted_wrt_append)
  obtain ss' r where s: "Set ss x = (ss', r)" by force
  have "\<not> (\<exists>e. r = Inl e)"
    using Set_rejects_iff [of ss x] s a lt by (auto simp: Let_def)
  then obtain y where "r = Inr y" by (cases r) auto
  then have "r = Inr x" using Set_result [of ss x ss' y] s a by simp
  then show ?thesis using s peer_list_Set [OF s] by simp
qed

lemma recv_stream_response:
  assumes "ts_law ts"
  shows "recv_loop ts c (Recv (stream_response ts x) # es) n =
     (case Set (nd_store n) x of
         (ss, Inl err) \<Rightarrow> Ok (spawn (Reestablish c Unknown) (n\<lparr>nd_store := ss\<rparr>), False)
       | (ss, Inr _) \<Rightarrow> recv_loop ts c es (n\<lparr>nd_store := ss\<rparr>))"
  using assms by (cases x) (simp add: stream_response_def session_roundtrip stamp_roundtrip
      del: sessionFromProto_simps stampFromProto_simps)

lemma recv_in_order:
  assumes "ts_law ts" and "\<And>p. ordered p (peer_list (nd_store n) p @ filter (\<lambda>v. peer_of v = p) xs)"
    and "\<forall>x \<in> set xs. sd_stamp x \<noteq> zero_stamp" and "store_inv (nd_store n)"
  shows "\<exists>n'. recv_loop ts c (map (\<lambda>x. Recv (stream_response ts x)) xs) n = Ok (n', True)
    \<and> (\<forall>p. peer_list (nd_store n') p = peer_list (nd_store n) p @ filter (\<lambda>v. peer_of v = p) xs)
    \<and> (\<forall>x \<in> set xs. Get (nd_store n') (id_of x) \<noteq> None)
    \<and> (\<forall>i. Get (nd_store n) i \<noteq> None \<longrightarrow> Get (nd_store n') i \<noteq> None)
    \<and> nd_self n' = nd_self n \<and> nd_tasks n' = nd_tasks n \<and> store_inv (nd_store n')"
  using assms(2,3,4)
proof (induction xs arbitrary: n)
  case (Cons x xs)
  have "ordered (peer_of x) (peer_list (nd_store n) (peer_of x) @ [x])"
    using Cons.prems(1) [of "peer_of x"] by (simp add: ordered_prefix)
  moreover have "sd_stamp x \<noteq> zero_stamp" using Cons.prems(2) by simp
  ultimately have "\<exists>ss. Set (nd_store n) x = (ss, Inr x)
      \<and> (\<forall>p. peer_list ss p = peer_list (nd_store n) p @ (if peer_of x = p then [x] else []))"
    by (rule Set_in_order)
  then obtain ss where set: "Set (nd_store n) x = (ss, Inr x)"
    and pl: "peer_list ss p = peer_list (nd_store n) p @ (if peer_of x = p then [x] else [])" for p
    by blast
  let ?n = "n\<lparr>nd_store := ss\<rparr>"
  have "ordered p (peer_list (nd_store ?n) p @ filter (\<lambda>v. peer_of v = p) xs)" for p
    using Cons.prems(1) [of p] by (auto simp: pl split: if_splits)
  moreover have inv: "store_inv (nd_store ?n)" using sess.set_inv [OF Cons.prems(3), of x] set by simp
  ultimately obtain n' where n': "recv_loop ts c (map (\<lambda>x. Recv (stream_response ts x)) xs) ?n = Ok (n', True)"
    "\<forall>p. peer_list (nd_store n') p = peer_list ss p @ filter (\<lambda>v. peer_of v = p) xs"
    "\<forall>y \<in> set xs. Get (nd_store n') (id_of y) \<noteq> None"
    "\<forall>i. Get ss i \<noteq> None \<longrightarrow> Get (nd_store n') i \<noteq> None"
    "nd_self n' = nd_self n" "nd_tasks n' = nd_tasks n" "store_inv (nd_store n')"
    using Cons.IH [of ?n] Cons.prems(2) by auto
  have "Get ss (id_of x) \<noteq> None" using sess.get_stored [OF Cons.prems(3) set] by simp
  moreover have "Get ss i \<noteq> None" if "Get (nd_store n) i \<noteq> None" for i
    using sess.get_present [OF Cons.prems(3) set that] .
  moreover have "recv_loop ts c (map (\<lambda>x. Recv (stream_response ts x)) (x # xs)) n = Ok (n', True)"
    using n'(1) set by (simp add: recv_stream_response [OF assms(1)] del: recv_loop.simps)
  ultimately show ?case using n' pl by (intro exI [of _ n']) auto
qed simp

lemma send_all: "(\<And>e. sendable e) \<Longrightarrow> send_loop sendable ts es = (map (stream_response ts) es, True)"
  by (induction es) auto

section \<open>Claims\<close>

text \<open>
  C18: In every reachable state of a node, whatever peers and the transport do: each endpoint has
  one connection, to that endpoint, which is neither closed nor dead; two endpoints never share
  one; and at most one goroutine waits for the transport of a connection.
\<close>

theorem node_connections_invariant:
  assumes "node_reachable l ts me adv n"
  shows "(\<forall>ep c. nd_conns n ep = Some c \<longrightarrow>
            cn_ep (conn n c) = ep \<and> cn_open (conn n c) \<and> \<not> cn_dead (conn n c))
    \<and> (\<forall>a b c. nd_conns n a = Some c \<and> nd_conns n b = Some c \<longrightarrow> a = b)
    \<and> (\<forall>c < length (nd_heap n). waits n c \<le> 1)
    \<and> self_id (nd_self n) = me \<and> store_reachable me (nd_store n)"
proof -
  have inv: "node_inv me n" using assms by (rule node_reachable_inv)
  have "waits n c \<le> 1" if "c < length (nd_heap n)" for c
    using node_inv_waits [OF inv that] by (cases "cn_once (conn n c)") (auto simp: wait_limit_def)
  moreover have "a = b" if "nd_conns n a = Some c" "nd_conns n b = Some c" for a b c
    using node_inv_conn [OF inv that(1)] node_inv_conn [OF inv that(2)] by simp
  ultimately show ?thesis
    using inv node_inv_conn [OF inv] node_inv_dead [OF inv] by (auto simp: node_inv_def)
qed

definition demo_lookup :: endpointLookup where
  "demo_lookup = \<lparr>lookupEndpoints = (\<lambda>r. Ok [''b:1'']), authority = static_authority\<rparr>"

definition demo_node :: node where
  "demo_node = fst (Server_Handshake demo_lookup
     \<lparr>hq_PeerId = ''B'', hq_PeerEndpoint = ''b:1'', hq_Latest = []\<rparr> [] (NewNode ''A'' ''a:1''))"

lemma demo_node_reachable: "node_reachable demo_lookup ts ''A'' ''a:1'' demo_node"
proof -
  obtain n' r where h: "Server_Handshake demo_lookup
     \<lparr>hq_PeerId = ''B'', hq_PeerEndpoint = ''b:1'', hq_Latest = []\<rparr> [] (NewNode ''A'' ''a:1'') = (n', r)"
    by force
  then have "node_step demo_lookup ts (NewNode ''A'' ''a:1'') n'"
    by (rule called_handshake)
  then show ?thesis
    using h node_reachable.step [OF node_reachable.start] by (simp add: demo_node_def)
qed

lemma demo_node_conns: "nd_conns demo_node ''b:1'' = Some 0"
  by (simp add: demo_node_def Server_Handshake_def NewNode_def NewSelf_def getConnection_def
      newConnection_def Let_def spawn_def)

theorem node_connections_invariant_witness:
  "nd_conns demo_node ''b:1'' = Some 0 \<and> cn_ep (conn demo_node 0) = ''b:1'' \<and> cn_open (conn demo_node 0)"
  using node_connections_invariant [OF demo_node_reachable] demo_node_conns by blast

text \<open>
  A session sent by a peer makes the server panic exactly when the message lacks its session or
  its stamp, which the protocol allows any peer to leave out.
\<close>

lemma set_session_call_panics_iff:
  "Server_SetSession ts req n = Panic \<longleftrightarrow> sq_Session req = None \<or> sq_Stamp req = None"
  by (cases "sq_Session req"; cases "sq_Stamp req")
     (auto simp: Server_SetSession_def split: prod.splits sum.splits)

text \<open>
  C19: A session that one node sends and another receives is accepted exactly when the receiver has
  no session of that peer with the same or a later serial. It is then found under its id, with the
  data that was sent, and the receiver knows its serial; a rejected one leaves the sessions and the
  known serials as they were.
\<close>

theorem session_reaches_peer:
  assumes "ts_law ts" and "sd_stamp y \<noteq> zero_stamp"
    and "Server_SetSession ts (setSession_request ts a y) b = Ok (b', reply)"
  shows "(reply = Reply () \<longleftrightarrow>
            peer_list (nd_store b) (peer_of y) = []
            \<or> serial (last (peer_list (nd_store b) (peer_of y))) < serial y)
    \<and> (if reply = Reply () then
          Get (nd_store b') (id_of y) = Some (sd_session y)
          \<and> serial y \<le> known (nd_self b') (peer_of y)
       else Get (nd_store b') = Get (nd_store b) \<and> nd_self b' = nd_self b)"
proof -
  obtain ss r where set: "Set (nd_store b) y = (ss, r)" by force
  have a: "assign_stamp (nd_store b) y = (nd_store b, y)"
    using assms(2) by (simp add: assign_stamp_def)
  have y: "\<lparr>sd_session = sd_session y, sd_stamp = sd_stamp y\<rparr> = y" by simp
  have b': "(b', reply) = (case r of
        Inr _ \<Rightarrow> (b\<lparr>nd_store := ss, nd_self := update_self (peer_of y) (serial y) (nd_self b)\<rparr>, Reply ())
      | Inl e \<Rightarrow> (b\<lparr>nd_store := ss\<rparr>, Fail InvalidArgument))"
    using assms(3) set
    by (auto simp: Server_SetSession_def setSession_request_def y session_roundtrip [OF assms(1)]
        stamp_roundtrip simp del: sessionFromProto_simps stampFromProto_simps split: sum.splits)
  have rej: "(\<exists>e. r = Inl e) \<longleftrightarrow> peer_list (nd_store b) (peer_of y) \<noteq> []
      \<and> serial y \<le> serial (last (peer_list (nd_store b) (peer_of y)))"
    using Set_rejects_iff [of "nd_store b" y] set a by (simp add: Let_def)
  show ?thesis
  proof (cases r)
    case (Inl e)
    then have "Get ss = Get (nd_store b)" using Get_after_Set_error [of "nd_store b" y ss e] set by auto
    with Inl b' rej show ?thesis by (auto simp: not_less)
  next
    case (Inr z)
    then have "Get ss (id_of y) = Some (sd_session y)"
      using Get_after_Set [of "nd_store b" y ss z] set by simp
    with Inr b' rej show ?thesis by (auto simp: known_update not_le)
  qed
qed

definition demo_stamped :: stamped where
  "demo_stamped =
     \<lparr>sd_session = demo_session ''s1'' 5, sd_stamp = \<lparr>st_peer = ''B'', st_serial = 1\<rparr>\<rparr>"

theorem session_reaches_peer_witness:
  "\<exists>b' r. Server_SetSession demo_timestamps
       (setSession_request demo_timestamps (NewNode ''B'' ''b:1'') demo_stamped) (NewNode ''A'' ''a:1'')
       = Ok (b', r)
     \<and> Get (nd_store b') ''s1'' = Some (demo_session ''s1'' 5)"
proof -
  have nz: "sd_stamp demo_stamped \<noteq> zero_stamp" by (simp add: demo_stamped_def zero_stamp_def)
  have "Server_SetSession demo_timestamps
       (setSession_request demo_timestamps (NewNode ''B'' ''b:1'') demo_stamped) (NewNode ''A'' ''a:1'')
       \<noteq> Panic"
    by (simp add: Server_SetSession_def setSession_request_def split: prod.splits sum.splits)
  moreover have "Server_SetSession demo_timestamps
       (setSession_request demo_timestamps (NewNode ''B'' ''b:1'') demo_stamped) (NewNode ''A'' ''a:1'')
       \<noteq> Err e" for e
    by (simp add: Server_SetSession_def setSession_request_def split: prod.splits sum.splits)
  ultimately obtain b' r where b: "Server_SetSession demo_timestamps
       (setSession_request demo_timestamps (NewNode ''B'' ''b:1'') demo_stamped) (NewNode ''A'' ''a:1'')
       = Ok (b', r)"
    by (cases "Server_SetSession demo_timestamps (setSession_request demo_timestamps
        (NewNode ''B'' ''b:1'') demo_stamped) (NewNode ''A'' ''a:1'')") auto
  have "peer_list (nd_store (NewNode ''A'' ''a:1'')) (peer_of demo_stamped) = []"
    by (simp add: NewNode_def NewSessionStore_def peer_list_def)
  with session_reaches_peer [OF demo_ts_law nz b]
  have "Get (nd_store b') (id_of demo_stamped) = Some (sd_session demo_stamped)" by simp
  with b show ?thesis by (auto simp: demo_stamped_def demo_session_def)
qed

end
