(* ===== verification/Auth_Server.thy ===== *)
theory Auth_Server
  imports Auth_Roles Go_Http Replication_Node
begin

text \<open>
  The authorization server (\<^verbatim>\<open>src/auth\<close>): a request is made from the attributes Envoy sends
  (\<^verbatim>\<open>server.go\<close>), checked (\<^verbatim>\<open>check.go\<close>, \<^verbatim>\<open>jwt.go\<close>, \<^verbatim>\<open>messages.go\<close>), counted (\<^verbatim>\<open>metrics.go\<close>)
  and answered in the terms of Envoy's protocol (\<^verbatim>\<open>serverv2.go\<close>).

  The JOSE and OAuth2 libraries, the hash, the clock and the network are the environment \<open>env\<close> of a
  call, and so are the orders in which the call visits Go maps. The clock is read once per call.
  The log has no effect on the state.
\<close>

section \<open>The environment\<close>

text \<open>What is signed: the claims of a login's state, of a bearer token, or an expiry.\<close>

datatype token_claims =
    StateClaims string
  | BearerClaims string "string \<rightharpoonup> string list"
  | ExpiryClaims time

text \<open>
  Package \<^verbatim>\<open>jwt\<close>: parsing, the payload, verification under a key into either kind of claims (a
  bearer token also has registered claims \<^verbatim>\<open>'reg\<close>), their validation at a time, and signing.
\<close>

record ('jws, 'reg) jwt =
  jwt_ParseSigned :: "string \<Rightarrow> go_error + 'jws"
  jwt_state :: "'jws \<Rightarrow> string \<Rightarrow> go_error + string"
  jwt_bearer :: "'jws \<Rightarrow> string \<Rightarrow> go_error + ('reg \<times> (string \<rightharpoonup> string list))"
  jwt_Validate :: "'reg \<Rightarrow> time \<Rightarrow> go_error option"
  jwt_sign :: "string \<Rightarrow> token_claims list \<Rightarrow> go_error + string"

record 'n oauth2 =
  AuthCodeURL :: "oauth2Config \<Rightarrow> string \<Rightarrow> string"
  Exchange :: "oauth2Config \<Rightarrow> string \<Rightarrow> go_error + 'n oauth_token"
  RefreshedToken :: "oauth2Config \<Rightarrow> string \<Rightarrow> go_error + 'n oauth_token"

record ('jws, 'reg, 'n) env =
  ev_now :: time
  ev_jwt :: "('jws, 'reg) jwt"
  ev_sha512 :: "string \<Rightarrow> string"
  ev_oauth2 :: "'n oauth2"
  ev_TokenData :: "openIdProvider \<Rightarrow> 'n oauth_token \<Rightarrow> (go_error, tokenData) res"
  ev_range_roles :: "(string \<rightharpoonup> string list) \<Rightarrow> string list"
  ev_range_conns :: "(string \<rightharpoonup> nat) \<Rightarrow> string list"

section \<open>Tokens\<close>

definition isExpired :: "('jws, 'reg, 'n) env \<Rightarrow> 'reg \<Rightarrow> bool" where
  "isExpired e reg \<longleftrightarrow> jwt_Validate (ev_jwt e) reg (ev_now e) \<noteq> None"

definition makeToken ::
  "('jws, 'reg, 'n) env \<Rightarrow> string \<Rightarrow> token_claims \<Rightarrow> time \<Rightarrow> go_error + string" where
  "makeToken e key c expiry =
     (case jwt_sign (ev_jwt e) key
             (if expiry \<noteq> zero_time then [c, ExpiryClaims expiry] else [c]) of
        Inl err \<Rightarrow> Inl (wrap_error err ''failed token serialization'' [])
      | Inr str \<Rightarrow> Inr str)"

definition parseToken ::
  "('jws, 'reg, 'n) env \<Rightarrow> ('jws \<Rightarrow> string \<Rightarrow> go_error + 'c) \<Rightarrow> string \<Rightarrow> string \<Rightarrow> go_error + 'c" where
  "parseToken e claims_of key tok =
     (case jwt_ParseSigned (ev_jwt e) tok of
        Inl err \<Rightarrow> Inl (wrap_error err ''unable to parse JWT'' [(''token'', GStr tok)])
      | Inr parsed \<Rightarrow>
          (case claims_of parsed key of
             Inl err \<Rightarrow> Inl (wrap_error err ''unable to deserialize claims'' [(''token'', GStr tok)])
           | Inr c \<Rightarrow> Inr c))"

section \<open>Requests and responses\<close>

definition bearerCookie :: string where "bearerCookie = ''bearer''"

text \<open>The claims and the session are set when the request turns out to be authenticated.\<close>

record 'reg request =
  rq_url :: url
  rq_cookies :: "cookie list"
  rq_fetchMode :: string
  rq_policy :: accessPolicy
  rq_route :: route
  rq_claims :: "('reg \<times> (string \<rightharpoonup> string list)) option"
  rq_session :: "session option"

record response =
  rs_status :: nat
  rs_headers :: "string \<rightharpoonup> string"

definition bare :: "nat \<Rightarrow> response" where
  "bare status = \<lparr>rs_status = status, rs_headers = Map.empty\<rparr>"

text \<open>\<^verbatim>\<open>query["state"][i] = "-"\<close> for each index in turn; an index that is out of range panics.\<close>

fun mask_state :: "nat list \<Rightarrow> string list \<Rightarrow> ('e, string list) res" where
  "mask_state [] xs = Ok xs"
| "mask_state (i # is) xs = (if i < length xs then mask_state is (xs[i := ''-'']) else Panic)"

definition location :: "url \<Rightarrow> ('e, url) res" where
  "location u =
     (let query = Query u;
          state = lookup0 [] query ''state'';
          cd = lookup0 [] query ''code''
      in res_bind (mask_state [0..<length state] state) (\<lambda>state1.
         res_bind (mask_state [0..<length cd] state1) (\<lambda>state2.
           let query' = (if query ''state'' = None then query else query(''state'' \<mapsto> state2))
           in Ok (u\<lparr>url_RawQuery := values_Encode query'\<rparr>))))"

fun bearer_of :: "cookie list \<Rightarrow> string" where
  "bearer_of [] = []"
| "bearer_of (c # cs) = (if ck_Name c = bearerCookie then ck_Value c else bearer_of cs)"

definition bearer :: "'reg request \<Rightarrow> string" where
  "bearer req = bearer_of (rq_cookies req)"

section \<open>State\<close>

datatype request_kind = Callback | Unauthenticated | Expired | Authenticated
datatype response_kind = Allowed | Denied | Redirected | BadRequestResponse | ErrorResponse | OtherResponse

text \<open>The server: the node with its session store, the policies and the counters of the metrics.\<close>

record server =
  sv_node :: node
  sv_policies :: policy_store
  sv_reqCount :: "string \<times> request_kind \<Rightarrow> nat"
  sv_resCount :: "string \<times> response_kind \<Rightarrow> nat"

abbreviation sv_store :: "server \<Rightarrow> sessionStore" where
  "sv_store srv \<equiv> nd_store (sv_node srv)"

section \<open>Making the request\<close>

definition newRequest ::
  "server \<Rightarrow> string \<Rightarrow> string \<Rightarrow> string \<Rightarrow> (string \<rightharpoonup> string) \<Rightarrow> go_error + 'reg request" where
  "newRequest srv address cookies fetchMode metadata =
     (case url_Parse address of
        Inl err \<Rightarrow> Inl (wrap_error (Foreign err) ''unable to parse address'' [(''address'', GStr address)])
      | Inr parsed \<Rightarrow>
     (let name = lookup0 [] metadata NameKey; key = lookup0 [] metadata RouteKey in
      case Get_policy (sv_policies srv) name of
        None \<Rightarrow> Inl (new_error ''unknown AccessPolicy'' [(''AccessPolicy'', GStr name)])
      | Some ap \<Rightarrow>
     (case (if key = [] then Some (pol_Default ap) else pol_Routes ap key) of
        None \<Rightarrow> Inl (new_error ''unknown route'' [(''AccessPolicy'', GStr name)])
      | Some route \<Rightarrow>
          Inr \<lparr>rq_url = parsed, rq_cookies = readCookies cookies, rq_fetchMode = fetchMode,
               rq_policy = ap, rq_route = route, rq_claims = None, rq_session = None\<rparr>)))"

section \<open>Checking\<close>

definition token_secret :: "'reg request \<Rightarrow> string" where
  "token_secret req = oi_TokenSecret (pol_Oidc (rq_policy req))"

definition isAuthenticated ::
  "('jws, 'reg, 'n) env \<Rightarrow> server \<Rightarrow> 'reg request \<Rightarrow> 'reg request \<times> bool" where
  "isAuthenticated e srv req =
     (let token = bearer req in
      if token = [] then (req, False)
      else (case parseToken e (jwt_bearer (ev_jwt e)) (token_secret req) token of
              Inl err \<Rightarrow> (req, False)
            | Inr c \<Rightarrow>
                (let i = ev_sha512 e token; session = Get (sv_store srv) i
                 in (req\<lparr>rq_claims := Some c, rq_session := session\<rparr>, session \<noteq> None))))"

definition startOidc :: "('jws, 'reg, 'n) env \<Rightarrow> 'reg request \<Rightarrow> response" where
  "startOidc e req =
     (if rq_fetchMode req \<notin> {[], ''navigate'', ''nested-navigate''} then bare 403
      else (case makeToken e (token_secret req) (StateClaims (url_Path (rq_url req))) zero_time of
              Inl err \<Rightarrow> bare 500
            | Inr tok \<Rightarrow>
                (let cfg = OAuth2 (pol_Oidc (rq_policy req)) (rq_url req)
                 in \<lparr>rs_status = 303,
                     rs_headers = [''location'' \<mapsto> AuthCodeURL (ev_oauth2 e) cfg tok]\<rparr>)))"

text \<open>A failed \<open>Set\<close> leaves the zero value, which is then sent to the peers.\<close>

definition zero_stamped :: stamped where
  "zero_stamped =
     \<lparr>sd_session = \<lparr>sess_id = [], sess_refresh = [], sess_expiry = zero_time\<rparr>, sd_stamp = zero_stamp\<rparr>"

definition store_session :: "('jws, 'reg, 'n) env \<Rightarrow> stamped \<Rightarrow> server \<Rightarrow> server" where
  "store_session e sess srv =
     (case Set (sv_store srv) sess of
        (ss, r) \<Rightarrow>
          (let sess' = (case r of Inr y \<Rightarrow> y | Inl err \<Rightarrow> zero_stamped);
               n = (sv_node srv)\<lparr>nd_store := ss\<rparr>
           in srv\<lparr>sv_node := Client_SetSession sess' (ev_range_conns e (nd_conns n)) n\<rparr>))"

definition setToken ::
  "('jws, 'reg, 'n) env \<Rightarrow> server \<Rightarrow> 'reg request \<Rightarrow> 'n oauth_token \<Rightarrow> string
    \<Rightarrow> (go_error, server \<times> response) res" where
  "setToken e srv req token uri =
     (case ev_TokenData e (oi_Provider (pol_Oidc (rq_policy req))) token of
        Panic \<Rightarrow> Panic
      | Err err \<Rightarrow> Ok (srv, bare 500)
      | Ok data \<Rightarrow>
     (case makeToken e (token_secret req) (BearerClaims (td_subject data) (td_roles data))
             (tok_expiry token) of
        Inl err \<Rightarrow> Ok (srv, bare 500)
      | Inr tok \<Rightarrow>
     (let sess = \<lparr>sd_session = \<lparr>sess_id = ev_sha512 e tok, sess_refresh = tok_refresh token,
                              sess_expiry = td_expiry data\<rparr>,
                  sd_stamp = zero_stamp\<rparr>;
          srv' = store_session e sess srv;
          ck = cookie_String \<lparr>ck_Name = bearerCookie, ck_Value = tok\<rparr>;
          headers = [''set-cookie'' \<mapsto> ck]
      in Ok (srv',
          (if uri = [] then
             \<lparr>rs_status = 307, rs_headers = headers(''location'' \<mapsto> RequestURI (rq_url req))\<rparr>
           else \<lparr>rs_status = 303, rs_headers = headers(''location'' \<mapsto> uri)\<rparr>)))))"

definition finishOidc ::
  "('jws, 'reg, 'n) env \<Rightarrow> server \<Rightarrow> 'reg request \<Rightarrow> (go_error, server \<times> response) res" where
  "finishOidc e srv req =
     (let query = Query (rq_url req) in
      case (query ''state'', query ''code'') of
        (Some [state], Some [cd]) \<Rightarrow>
          (case parseToken e (jwt_state (ev_jwt e)) (token_secret req) state of
             Inl err \<Rightarrow> Ok (srv, bare 400)
           | Inr path \<Rightarrow>
               (let cfg = OAuth2 (pol_Oidc (rq_policy req)) (rq_url req) in
                case Exchange (ev_oauth2 e) cfg cd of
                  Inl err \<Rightarrow> Ok (srv, bare 403)
                | Inr tok \<Rightarrow> setToken e srv req tok path))
      | _ \<Rightarrow> Ok (srv, bare 400))"

definition updateToken ::
  "('jws, 'reg, 'n) env \<Rightarrow> server \<Rightarrow> 'reg request \<Rightarrow> session \<Rightarrow> (go_error, server \<times> response) res" where
  "updateToken e srv req sess =
     (let cfg = OAuth2 (pol_Oidc (rq_policy req)) (rq_url req) in
      case RefreshedToken (ev_oauth2 e) cfg (sess_refresh sess) of
        Inl err \<Rightarrow> Ok (srv, bare 403)
      | Inr tok \<Rightarrow> setToken e srv req tok [])"

text \<open>The loop over the headers of the route.\<close>

fun allowed_headers ::
  "(string list \<Rightarrow> bool) \<Rightarrow> header list \<Rightarrow> (string \<rightharpoonup> string) \<Rightarrow> (string \<rightharpoonup> string)" where
  "allowed_headers has [] hs = hs"
| "allowed_headers has (h # rest) hs =
     allowed_headers has rest (if has (hd_Roles h) then hs(hd_Name h \<mapsto> hd_Value h) else hs)"

definition authorize ::
  "('jws, 'reg, 'n) env \<Rightarrow> 'reg request \<Rightarrow> (string \<rightharpoonup> string list) \<Rightarrow> response" where
  "authorize e req roles =
     (let has = (\<lambda>required. hasRoles required roles (ev_range_roles e roles)) in
      if \<not> has (rt_Roles (rq_route req)) then bare 403
      else \<lparr>rs_status = 200, rs_headers = allowed_headers has (rt_Headers (rq_route req)) Map.empty\<rparr>)"

definition count_request :: "string \<Rightarrow> request_kind \<Rightarrow> server \<Rightarrow> server" where
  "count_request p k srv =
     srv\<lparr>sv_reqCount := (sv_reqCount srv)((p, k) := sv_reqCount srv (p, k) + 1)\<rparr>"

definition response_kind_of :: "nat \<Rightarrow> response_kind" where
  "response_kind_of status =
     (if status = 200 then Allowed
      else if status = 303 \<or> status = 307 then Redirected
      else if status = 400 then BadRequestResponse
      else if status = 403 then Denied
      else if status = 500 then ErrorResponse
      else OtherResponse)"

definition count_response :: "string \<Rightarrow> nat \<Rightarrow> server \<Rightarrow> server" where
  "count_response p status srv =
     (let k = response_kind_of status
      in srv\<lparr>sv_resCount := (sv_resCount srv)((p, k) := sv_resCount srv (p, k) + 1)\<rparr>)"

definition check ::
  "('jws, 'reg, 'n) env \<Rightarrow> server \<Rightarrow> 'reg request \<Rightarrow> (go_error, server \<times> response) res" where
  "check e srv req =
     (let p = pol_Name (rq_policy req) in
      res_bind (location (rq_url req)) (\<lambda>loc.
      res_bind
        (if IsCallback (pol_Oidc (rq_policy req)) (rq_url req) then
           finishOidc e (count_request p Callback srv) req
         else
           (case isAuthenticated e srv req of
              (req', False) \<Rightarrow> Ok (count_request p Unauthenticated srv, startOidc e req')
            | (req', True) \<Rightarrow>
                (case (rq_claims req', rq_session req') of
                   (Some (reg, roles), Some sess) \<Rightarrow>
                     (if isExpired e reg then updateToken e (count_request p Expired srv) req' sess
                      else Ok (count_request p Authenticated srv, authorize e req' roles))
                 | _ \<Rightarrow> Panic)))
        (\<lambda>(srv', res). Ok (count_response p (rs_status res) srv', res))))"

section \<open>The call of Envoy\<close>

text \<open>The attributes that are read; \<open>None\<close> is an absent \<^verbatim>\<open>Attributes\<close>, \<^verbatim>\<open>Request\<close> or \<^verbatim>\<open>Http\<close>.\<close>

record httpAttributes =
  at_Headers :: "string \<rightharpoonup> string"
  at_Host :: string
  at_Path :: string

record checkRequest =
  cq_Http :: "httpAttributes option"
  cq_ContextExtensions :: "string \<rightharpoonup> string"

text \<open>An answer: its headers in the order the map was visited, and the status of a denial.\<close>

datatype checkResponse =
    OkResponse "(string \<times> string) list"
  | DeniedResponse nat "(string \<times> string) list"

definition Check ::
  "('jws, 'reg, 'n) env \<Rightarrow> server \<Rightarrow> checkRequest \<Rightarrow> ((string \<rightharpoonup> string) \<Rightarrow> string list)
    \<Rightarrow> (go_error, server \<times> checkResponse) res" where
  "Check e srv req range_headers =
     (case cq_Http req of
        None \<Rightarrow> Panic
      | Some http \<Rightarrow>
     (let addr = lookup0 [] (at_Headers http) ''x-forwarded-proto'' @ ''://'' @ at_Host http @ at_Path http;
          cookies = lookup0 [] (at_Headers http) ''cookie'';
          fetchMode = lookup0 [] (at_Headers http) ''sec-fetch-mode''
      in res_bind
           (case newRequest srv addr cookies fetchMode (cq_ContextExtensions req) of
              Inl err \<Rightarrow> Ok (srv, bare 400)
            | Inr data \<Rightarrow> check e srv data) (\<lambda>(srv', r).
         let hs = map (\<lambda>k. (k, lookup0 [] (rs_headers r) k)) (range_headers (rs_headers r))
         in Ok (srv', if rs_status r = 200 then OkResponse hs else DeniedResponse (rs_status r) hs))))"

section \<open>Tracing\<close>

definition fwd :: "string list" where
  "fwd = [''x-request-id'', ''x-b3-traceid'', ''x-b3-spanid'', ''x-b3-parentspanid'',
     ''x-b3-sampled'', ''x-b3-flags'', ''x-ot-span-context'']"

text \<open>The headers that are added to a request to the provider; no incoming metadata is the nil map.\<close>

definition RoundTrip_headers :: "(string \<rightharpoonup> string list) option \<Rightarrow> (string \<times> string) list" where
  "RoundTrip_headers meta =
     concat (map (\<lambda>k. map (\<lambda>v. (k, v)) (case meta of None \<Rightarrow> [] | Some m \<Rightarrow> lookup0 [] m k)) fwd)"

end
