(* ===== verification/Auth_Claims.thy ===== *)
theory Auth_Claims
  imports Auth_Server
begin

text \<open>
  What the authorization server guarantees: who is let through, what a login and a refresh do, what
  is counted, and when a request makes the server panic.
\<close>

section \<open>Specification\<close>

text \<open>
  The bearer token of the request verifies under the secret of the policy, with these claims, and
  its hash is the id of this stored session.
\<close>

definition bearer_session ::
  "('jws, 'reg, 'n) env \<Rightarrow> server \<Rightarrow> 'reg request \<Rightarrow> 'reg \<Rightarrow> (string \<rightharpoonup> string list) \<Rightarrow> session \<Rightarrow> bool"
  where
  "bearer_session e srv req reg roles sess \<longleftrightarrow>
     bearer req \<noteq> []
     \<and> parseToken e (jwt_bearer (ev_jwt e)) (token_secret req) (bearer req) = Inr (reg, roles)
     \<and> Get (sv_store srv) (ev_sha512 e (bearer req)) = Some sess"

definition is_callback :: "'reg request \<Rightarrow> bool" where
  "is_callback req \<longleftrightarrow> IsCallback (pol_Oidc (rq_policy req)) (rq_url req)"

text \<open>The range order is one that Go may choose, for every role map a token can carry.\<close>

definition orders_ok :: "('jws, 'reg, 'n) env \<Rightarrow> bool" where
  "orders_ok e \<longleftrightarrow> (\<forall>jws key reg roles. jwt_bearer (ev_jwt e) jws key = Inr (reg, roles) \<longrightarrow>
     ranges roles (ev_range_roles e roles))"

text \<open>The provider gave this token: at a callback for the code, at an expired request on refresh.\<close>

definition token_obtained ::
  "('jws, 'reg, 'n) env \<Rightarrow> server \<Rightarrow> 'reg request \<Rightarrow> 'n oauth_token \<Rightarrow> string \<Rightarrow> bool" where
  "token_obtained e srv req tok uri \<longleftrightarrow>
     (if is_callback req then
        (\<exists>state cd. Query (rq_url req) ''state'' = Some [state] \<and> Query (rq_url req) ''code'' = Some [cd]
           \<and> parseToken e (jwt_state (ev_jwt e)) (token_secret req) state = Inr uri
           \<and> Exchange (ev_oauth2 e) (OAuth2 (pol_Oidc (rq_policy req)) (rq_url req)) cd = Inr tok)
      else
        (\<exists>reg roles sess. bearer_session e srv req reg roles sess \<and> isExpired e reg \<and> uri = []
           \<and> RefreshedToken (ev_oauth2 e) (OAuth2 (pol_Oidc (rq_policy req)) (rq_url req))
               (sess_refresh sess) = Inr tok))"

section \<open>The branches\<close>

lemma parseToken_Inr_iff:
  "parseToken e f key tok = Inr c \<longleftrightarrow>
     (\<exists>parsed. jwt_ParseSigned (ev_jwt e) tok = Inr parsed \<and> f parsed key = Inr c)"
  by (auto simp: parseToken_def split: sum.splits)

lemma makeToken_Inr_iff:
  "makeToken e key c expiry = Inr tok \<longleftrightarrow>
     jwt_sign (ev_jwt e) key (if expiry \<noteq> zero_time then [c, ExpiryClaims expiry] else [c]) = Inr tok"
  by (auto simp: makeToken_def split: sum.splits)

lemma isAuthenticated_cases:
  obtains (yes) reg roles sess where "bearer_session e srv req reg roles sess"
    "isAuthenticated e srv req =
      (req\<lparr>rq_claims := Some (reg, roles), rq_session := Some sess\<rparr>, True)"
  | (no) req' where "\<nexists>reg roles sess. bearer_session e srv req reg roles sess"
    "isAuthenticated e srv req = (req', False)" "rq_url req' = rq_url req"
    "rq_policy req' = rq_policy req" "rq_fetchMode req' = rq_fetchMode req"
proof -
  let ?parse = "parseToken e (jwt_bearer (ev_jwt e)) (token_secret req) (bearer req)"
  let ?get = "Get (sv_store srv) (ev_sha512 e (bearer req))"
  consider "bearer req = []" | err where "bearer req \<noteq> []" "?parse = Inl err"
    | reg roles where "bearer req \<noteq> []" "?parse = Inr (reg, roles)" "?get = None"
    | reg roles sess where "bearer req \<noteq> []" "?parse = Inr (reg, roles)" "?get = Some sess"
    by (cases ?parse; cases ?get) auto
  then show thesis
  proof cases
    case (4 reg roles sess)
    then show thesis
      by (intro yes) (simp_all add: bearer_session_def isAuthenticated_def Let_def)
  next
    case (3 reg roles)
    then show thesis
      by (intro no [of "req\<lparr>rq_claims := Some (reg, roles), rq_session := None\<rparr>"])
         (simp_all add: bearer_session_def isAuthenticated_def Let_def)
  qed (auto intro!: no [of req] simp: bearer_session_def isAuthenticated_def)
qed

lemma bearer_session_unique:
  "bearer_session e srv req reg roles sess \<Longrightarrow> bearer_session e srv req reg' roles' sess' \<Longrightarrow>
    reg' = reg \<and> roles' = roles \<and> sess' = sess"
  by (auto simp: bearer_session_def)

lemma startOidc_same: "rq_url req' = rq_url req \<Longrightarrow> rq_policy req' = rq_policy req \<Longrightarrow>
    rq_fetchMode req' = rq_fetchMode req \<Longrightarrow> startOidc e req' = startOidc e req"
  by (simp add: startOidc_def token_secret_def Let_def split: sum.split)

lemma setToken_same:
  "setToken e srv (req\<lparr>rq_claims := c, rq_session := s\<rparr>) tok uri = setToken e srv req tok uri"
  by (cases "ev_TokenData e (oi_Provider (pol_Oidc (rq_policy req))) tok")
     (simp_all add: setToken_def token_secret_def Let_def split: sum.split)

lemma updateToken_same: "updateToken e srv (req\<lparr>rq_claims := c, rq_session := s\<rparr>) sess = updateToken e srv req sess"
  by (simp add: updateToken_def setToken_same split: sum.split)

lemma authorize_same: "authorize e (req\<lparr>rq_claims := c, rq_session := s\<rparr>) roles = authorize e req roles"
  by (simp add: authorize_def)

text \<open>What \<open>check\<close> answers before the response is counted.\<close>

definition answer ::
  "('jws, 'reg, 'n) env \<Rightarrow> server \<Rightarrow> 'reg request \<Rightarrow> (go_error, server \<times> response) res" where
  "answer e srv req =
     (let p = pol_Name (rq_policy req) in
      if is_callback req then finishOidc e (count_request p Callback srv) req
      else
        (case isAuthenticated e srv req of
           (req', False) \<Rightarrow> Ok (count_request p Unauthenticated srv, startOidc e req')
         | (req', True) \<Rightarrow>
             (case (rq_claims req', rq_session req') of
                (Some (reg, roles), Some sess) \<Rightarrow>
                  (if isExpired e reg then updateToken e (count_request p Expired srv) req' sess
                   else Ok (count_request p Authenticated srv, authorize e req' roles))
              | _ \<Rightarrow> Panic)))"

lemma check_answer:
  "check e srv req =
     res_bind (location (rq_url req)) (\<lambda>loc.
     res_bind (answer e srv req) (\<lambda>(srv', res).
       Ok (count_response (pol_Name (rq_policy req)) (rs_status res) srv', res)))"
  by (simp add: check_def answer_def is_callback_def Let_def)

lemma answer_callback: "is_callback req \<Longrightarrow>
    answer e srv req = finishOidc e (count_request (pol_Name (rq_policy req)) Callback srv) req"
  by (simp add: answer_def Let_def)

lemma answer_unauthenticated:
  "\<not> is_callback req \<Longrightarrow> \<nexists>reg roles sess. bearer_session e srv req reg roles sess \<Longrightarrow>
    answer e srv req =
      Ok (count_request (pol_Name (rq_policy req)) Unauthenticated srv, startOidc e req)"
  by (cases rule: isAuthenticated_cases [of e srv req])
     (auto simp: answer_def Let_def intro: startOidc_same)

lemma answer_authenticated:
  assumes "\<not> is_callback req" and "bearer_session e srv req reg roles sess"
  shows "answer e srv req =
      (if isExpired e reg then updateToken e (count_request (pol_Name (rq_policy req)) Expired srv) req sess
       else Ok (count_request (pol_Name (rq_policy req)) Authenticated srv, authorize e req roles))"
proof (cases rule: isAuthenticated_cases [of e srv req])
  case (yes reg' roles' sess')
  have "reg' = reg \<and> roles' = roles \<and> sess' = sess"
    using bearer_session_unique [OF assms(2) yes(1)] .
  then show ?thesis
    using assms(1) yes(2) by (simp add: answer_def Let_def updateToken_same authorize_same)
next
  case (no req')
  with assms(2) show ?thesis by blast
qed

text \<open>The four ways through \<open>check\<close>.\<close>

lemma answer_cases:
  obtains (callback) "is_callback req"
      "answer e srv req = finishOidc e (count_request (pol_Name (rq_policy req)) Callback srv) req"
  | (unauthenticated) "\<not> is_callback req" "\<nexists>reg roles sess. bearer_session e srv req reg roles sess"
      "answer e srv req = Ok (count_request (pol_Name (rq_policy req)) Unauthenticated srv, startOidc e req)"
  | (expired) reg roles sess where "\<not> is_callback req" "bearer_session e srv req reg roles sess"
      "isExpired e reg"
      "answer e srv req = updateToken e (count_request (pol_Name (rq_policy req)) Expired srv) req sess"
  | (authenticated) reg roles sess where "\<not> is_callback req" "bearer_session e srv req reg roles sess"
      "\<not> isExpired e reg"
      "answer e srv req = Ok (count_request (pol_Name (rq_policy req)) Authenticated srv, authorize e req roles)"
proof (cases "is_callback req")
  case True
  then show thesis using callback answer_callback by blast
next
  case False
  show thesis
  proof (cases "\<exists>reg roles sess. bearer_session e srv req reg roles sess")
    case True
    then obtain reg roles sess where b: "bearer_session e srv req reg roles sess" by blast
    show thesis
    proof (cases "isExpired e reg")
      case True
      then show thesis using expired [OF False b True] answer_authenticated [OF False b] by simp
    next
      case not_expired: False
      then show thesis using authenticated [OF False b not_expired] answer_authenticated [OF False b] by simp
    qed
  next
    case no: False
    then show thesis using unauthenticated [OF False no] answer_unauthenticated [OF False no] by simp
  qed
qed

section \<open>Statuses, headers and state of each branch\<close>

lemma startOidc_status: "rs_status (startOidc e req) \<in> {303, 403, 500}"
  by (simp add: startOidc_def bare_def Let_def split: sum.splits)

text \<open>Only the node changes when a session is stored.\<close>

definition same_but_node :: "server \<Rightarrow> server \<Rightarrow> bool" where
  "same_but_node srv srv' \<longleftrightarrow> sv_policies srv' = sv_policies srv \<and> sv_reqCount srv' = sv_reqCount srv
     \<and> sv_resCount srv' = sv_resCount srv"

lemma same_but_node_refl [simp]: "same_but_node srv srv"
  by (simp add: same_but_node_def)

lemma same_but_node_store [simp]: "same_but_node srv (store_session e sess srv)"
  by (auto simp: same_but_node_def store_session_def Let_def split: prod.splits)

lemma setToken_Ok:
  assumes "setToken e srv req tok uri = Ok (srv', res)"
  shows "same_but_node srv srv'
    \<and> (rs_status res = 500 \<and> srv' = srv \<and> rs_headers res = Map.empty
       \<or> (\<exists>data t. ev_TokenData e (oi_Provider (pol_Oidc (rq_policy req))) tok = Ok data
            \<and> makeToken e (token_secret req) (BearerClaims (td_subject data) (td_roles data))
                (tok_expiry tok) = Inr t
            \<and> srv' = store_session e \<lparr>sd_session = \<lparr>sess_id = ev_sha512 e t,
                  sess_refresh = tok_refresh tok, sess_expiry = td_expiry data\<rparr>, sd_stamp = zero_stamp\<rparr> srv
            \<and> rs_headers res = [''set-cookie'' \<mapsto> cookie_String \<lparr>ck_Name = bearerCookie, ck_Value = t\<rparr>,
                  ''location'' \<mapsto> (if uri = [] then RequestURI (rq_url req) else uri)]
            \<and> rs_status res = (if uri = [] then 307 else 303)))"
  using assms
  by (cases "ev_TokenData e (oi_Provider (pol_Oidc (rq_policy req))) tok")
     (auto simp: setToken_def bare_def Let_def split: sum.splits if_splits)

lemma setToken_Panic: "setToken e srv req tok uri = Panic \<longleftrightarrow>
    ev_TokenData e (oi_Provider (pol_Oidc (rq_policy req))) tok = Panic"
  by (cases "ev_TokenData e (oi_Provider (pol_Oidc (rq_policy req))) tok")
     (auto simp: setToken_def Let_def split: sum.splits)

lemma setToken_not_Err: "setToken e srv req tok uri \<noteq> Err err"
  by (cases "ev_TokenData e (oi_Provider (pol_Oidc (rq_policy req))) tok")
     (auto simp: setToken_def Let_def split: sum.splits)

lemma finishOidc_cases:
  obtains (exchanged) tok path where
      "finishOidc e srv req = setToken e srv req tok path"
      "\<exists>state cd. Query (rq_url req) ''state'' = Some [state] \<and> Query (rq_url req) ''code'' = Some [cd]
        \<and> parseToken e (jwt_state (ev_jwt e)) (token_secret req) state = Inr path
        \<and> Exchange (ev_oauth2 e) (OAuth2 (pol_Oidc (rq_policy req)) (rq_url req)) cd = Inr tok"
  | (refused) status where "finishOidc e srv req = Ok (srv, bare status)" "status \<in> {400, 403}"
      "\<nexists>state cd path tok. Query (rq_url req) ''state'' = Some [state] \<and> Query (rq_url req) ''code'' = Some [cd]
        \<and> parseToken e (jwt_state (ev_jwt e)) (token_secret req) state = Inr path
        \<and> Exchange (ev_oauth2 e) (OAuth2 (pol_Oidc (rq_policy req)) (rq_url req)) cd = Inr tok"
proof (cases "\<exists>state cd. Query (rq_url req) ''state'' = Some [state] \<and> Query (rq_url req) ''code'' = Some [cd]")
  case True
  then obtain state cd where q: "Query (rq_url req) ''state'' = Some [state]"
    "Query (rq_url req) ''code'' = Some [cd]" by blast
  show thesis
  proof (cases "parseToken e (jwt_state (ev_jwt e)) (token_secret req) state")
    case (Inl err)
    with q refused [of 400] show thesis by (simp add: finishOidc_def)
  next
    case (Inr path)
    show thesis
    proof (cases "Exchange (ev_oauth2 e) (OAuth2 (pol_Oidc (rq_policy req)) (rq_url req)) cd")
      case (Inl err)
      with q Inr refused [of 403] show thesis by (simp add: finishOidc_def)
    next
      case (Inr tok)
      with q \<open>parseToken _ _ _ _ = Inr path\<close> exchanged [of tok path] show thesis
        by (simp add: finishOidc_def)
    qed
  qed
next
  case False
  then have "finishOidc e srv req = Ok (srv, bare 400)"
    by (auto simp: finishOidc_def Let_def split: option.splits list.splits)
  with False refused [of 400] show thesis by auto
qed

lemma updateToken_cases:
  obtains (refreshed) tok where "updateToken e srv req sess = setToken e srv req tok []"
      "RefreshedToken (ev_oauth2 e) (OAuth2 (pol_Oidc (rq_policy req)) (rq_url req)) (sess_refresh sess)
        = Inr tok"
  | (refused) err where "updateToken e srv req sess = Ok (srv, bare 403)"
      "RefreshedToken (ev_oauth2 e) (OAuth2 (pol_Oidc (rq_policy req)) (rq_url req)) (sess_refresh sess)
        = Inl err"
  by (cases "RefreshedToken (ev_oauth2 e) (OAuth2 (pol_Oidc (rq_policy req)) (rq_url req)) (sess_refresh sess)")
     (auto simp: updateToken_def)

lemma finishOidc_same_but_node: "finishOidc e srv req = Ok (srv', res) \<Longrightarrow> same_but_node srv srv'
    \<and> rs_status res \<in> {303, 307, 400, 403, 500}"
  by (cases rule: finishOidc_cases [of e srv req]) (auto simp: bare_def dest!: setToken_Ok split: if_split_asm)

lemma updateToken_same_but_node: "updateToken e srv req sess = Ok (srv', res) \<Longrightarrow> same_but_node srv srv'
    \<and> rs_status res \<in> {307, 403, 500}"
  by (cases rule: updateToken_cases [of e srv req sess]) (auto simp: bare_def dest!: setToken_Ok)

lemma authorize_status: "rs_status (authorize e req roles) = 200 \<longleftrightarrow>
    hasRoles (rt_Roles (rq_route req)) roles (ev_range_roles e roles)"
  by (simp add: authorize_def bare_def Let_def)

lemma authorize_statuses: "rs_status (authorize e req roles) \<in> {200, 403}"
  by (simp add: authorize_def bare_def Let_def)

lemma bearer_session_ranges:
  "orders_ok e \<Longrightarrow> bearer_session e srv req reg roles sess \<Longrightarrow> ranges roles (ev_range_roles e roles)"
  by (auto simp: orders_ok_def bearer_session_def parseToken_Inr_iff)

text \<open>Panics of the parts.\<close>

lemma mask_state_result:
  "mask_state is xs = (if \<forall>i \<in> set is. i < length xs then Ok (foldl (\<lambda>ys i. ys[i := ''-'']) xs is) else Panic)"
  by (induction "is" arbitrary: xs) auto

lemma foldl_length [simp]: "length (foldl (\<lambda>ys i. ys[i := x]) xs is) = length xs"
  by (induction "is" arbitrary: xs) auto

lemma location_Panic:
  "location u = Panic \<longleftrightarrow>
     length (lookup0 [] (Query u) ''state'') < length (lookup0 [] (Query u) ''code'')"
  by (auto simp: location_def Let_def mask_state_result not_less)

lemma location_not_Err: "location u \<noteq> Err err"
  by (simp add: location_def Let_def mask_state_result)

lemma finishOidc_Panic: "is_callback req \<Longrightarrow> finishOidc e srv req = Panic \<longleftrightarrow>
    (\<exists>tok uri. token_obtained e srv req tok uri
       \<and> ev_TokenData e (oi_Provider (pol_Oidc (rq_policy req))) tok = Panic)"
  by (cases rule: finishOidc_cases [of e srv req])
     (auto simp: token_obtained_def setToken_Panic)

lemma count_request_store [simp]:
  "sv_node (count_request p k srv) = sv_node srv" "sv_policies (count_request p k srv) = sv_policies srv"
  "sv_resCount (count_request p k srv) = sv_resCount srv"
  by (simp_all add: count_request_def)

lemma count_response_store [simp]:
  "sv_node (count_response p k srv) = sv_node srv" "sv_policies (count_response p k srv) = sv_policies srv"
  "sv_reqCount (count_response p k srv) = sv_reqCount srv"
  by (simp_all add: count_response_def Let_def)

lemma bearer_session_count [simp]:
  "bearer_session e (count_request p k srv) = bearer_session e srv"
  by (simp add: fun_eq_iff bearer_session_def)

lemma token_obtained_count [simp]:
  "token_obtained e (count_request p k srv) req = token_obtained e srv req"
  by (simp add: fun_eq_iff token_obtained_def)

lemma updateToken_Panic: "\<not> is_callback req \<Longrightarrow> bearer_session e srv req reg roles sess \<Longrightarrow> isExpired e reg \<Longrightarrow>
    updateToken e srv' req sess = Panic \<longleftrightarrow>
    (\<exists>tok uri. token_obtained e srv req tok uri
       \<and> ev_TokenData e (oi_Provider (pol_Oidc (rq_policy req))) tok = Panic)"
  by (cases rule: updateToken_cases [of e srv' req sess])
     (auto simp: token_obtained_def setToken_Panic dest: bearer_session_unique)

section \<open>What is relied on\<close>

text \<open>
  The JOSE library gives back what it signed, when verified under the same key: the path of a login,
  or the roles of a bearer token, as far as they are text that JSON can carry; and a signed token
  is in the compact format. The provider's claims come from JSON, so their roles are such text.
\<close>

definition valid_utf8 :: "string \<Rightarrow> bool" where
  "valid_utf8 s \<longleftrightarrow> string_of_runes (runes_of_string s) = s"

definition valid_roles :: "(string \<rightharpoonup> string list) \<Rightarrow> bool" where
  "valid_roles m \<longleftrightarrow> (\<forall>p rs. m p = Some rs \<longrightarrow> valid_utf8 p \<and> list_all valid_utf8 rs)"

definition env_law :: "('jws, 'reg, 'n) env \<Rightarrow> bool" where
  "env_law e \<longleftrightarrow>
     (\<forall>key cs tok. jwt_sign (ev_jwt e) key cs = Inr tok \<longrightarrow>
        tok \<noteq> [] \<and> list_all token_char tok
        \<and> (\<exists>parsed. jwt_ParseSigned (ev_jwt e) tok = Inr parsed
             \<and> (\<forall>path rest. cs = StateClaims path # rest \<and> valid_utf8 path \<longrightarrow>
                  jwt_state (ev_jwt e) parsed key = Inr path)
             \<and> (\<forall>sub roles rest. cs = BearerClaims sub roles # rest \<and> valid_roles roles \<longrightarrow>
                  (\<exists>reg. jwt_bearer (ev_jwt e) parsed key = Inr (reg, roles)))))
     \<and> (\<forall>op tok data. ev_TokenData e op tok = Ok data \<longrightarrow> valid_roles (td_roles data))"

lemma env_law_sign:
  assumes "env_law e" and "makeToken e key c expiry = Inr tok"
  shows "tok \<noteq> []" and "list_all token_char tok"
    and "c = StateClaims path \<Longrightarrow> valid_utf8 path \<Longrightarrow> parseToken e (jwt_state (ev_jwt e)) key tok = Inr path"
    and "c = BearerClaims sub roles \<Longrightarrow> valid_roles roles \<Longrightarrow>
      \<exists>reg. parseToken e (jwt_bearer (ev_jwt e)) key tok = Inr (reg, roles)"
proof -
  let ?cs = "if expiry \<noteq> zero_time then [c, ExpiryClaims expiry] else [c]"
  have s: "jwt_sign (ev_jwt e) key ?cs = Inr tok" using assms(2) by (simp add: makeToken_Inr_iff)
  obtain rest where cs: "?cs = c # rest" by (cases "expiry = zero_time") auto
  from s assms(1) have l: "tok \<noteq> [] \<and> list_all token_char tok
      \<and> (\<exists>parsed. jwt_ParseSigned (ev_jwt e) tok = Inr parsed
             \<and> (\<forall>path rest. ?cs = StateClaims path # rest \<and> valid_utf8 path \<longrightarrow>
                  jwt_state (ev_jwt e) parsed key = Inr path)
             \<and> (\<forall>sub roles rest. ?cs = BearerClaims sub roles # rest \<and> valid_roles roles \<longrightarrow>
                  (\<exists>reg. jwt_bearer (ev_jwt e) parsed key = Inr (reg, roles))))"
    unfolding env_law_def by blast
  then show "tok \<noteq> []" "list_all token_char tok" by blast+
  show "parseToken e (jwt_state (ev_jwt e)) key tok = Inr path"
    if "c = StateClaims path" "valid_utf8 path"
    using l that unfolding cs by (auto simp: parseToken_Inr_iff)
  show "\<exists>reg. parseToken e (jwt_bearer (ev_jwt e)) key tok = Inr (reg, roles)"
    if "c = BearerClaims sub roles" "valid_roles roles"
    using l that unfolding cs by (auto simp: parseToken_Inr_iff)
qed

section \<open>A small environment\<close>

definition demo_roles :: "string \<rightharpoonup> string list" where
  "demo_roles = [''r:'' \<mapsto> [''user'']]"

definition demo_jwt :: "(string, unit) jwt" where
  "demo_jwt =
     \<lparr>jwt_ParseSigned = (\<lambda>s. if s \<in> {''state'', ''token''} then Inr s else Inl (Foreign ''not a token'')),
      jwt_state = (\<lambda>j k. if j = ''state'' \<and> k = ''key'' then Inr ''/app'' else Inl (Foreign ''bad signature'')),
      jwt_bearer = (\<lambda>j k. if j = ''token'' \<and> k = ''key'' then Inr ((), demo_roles)
                          else Inl (Foreign ''bad signature'')),
      jwt_Validate = (\<lambda>reg now. None),
      jwt_sign = (\<lambda>k cs. if k \<noteq> ''key'' then Inl (Foreign ''unknown key'') else
        (case cs of
           StateClaims path # rest \<Rightarrow> if path = ''/app'' then Inr ''state'' else Inl (Foreign ''path'')
         | BearerClaims sub roles # rest \<Rightarrow>
             if roles = demo_roles then Inr ''token'' else Inl (Foreign ''roles'')
         | _ \<Rightarrow> Inl (Foreign ''claims'')))\<rparr>"

definition demo_env :: "(string, unit, nat) env" where
  "demo_env =
     \<lparr>ev_now = 7, ev_jwt = demo_jwt, ev_sha512 = (\<lambda>s. ''#'' @ s),
      ev_oauth2 =
        \<lparr>AuthCodeURL = (\<lambda>cfg st. AuthURL (oc_Endpoint cfg) @ ''?state='' @ st),
         Exchange = (\<lambda>cfg cd. if cd = ''c'' then Inr demo_tokens else Inl (Foreign ''bad code'')),
         RefreshedToken = (\<lambda>cfg rt. Inl (Foreign ''revoked''))\<rparr>,
      ev_TokenData = (\<lambda>op tok. Ok \<lparr>td_subject = ''alice'', td_expiry = 99, td_roles = demo_roles\<rparr>),
      ev_range_roles = (\<lambda>m. [''r:'']), ev_range_conns = (\<lambda>m. [])\<rparr>"

lemma demo_orders_ok: "orders_ok demo_env"
  by (auto simp: orders_ok_def demo_env_def demo_jwt_def demo_roles_def ranges_def)

lemma demo_env_law: "env_law demo_env"
proof -
  have u: "valid_utf8 ''r:''" "valid_utf8 ''user''"
    by (simp_all add: valid_utf8_def runes_of_ascii string_of_runes_ascii ascii_def del: list.map)
  have t: "list_all token_char ''state''" "list_all token_char ''token''"
    by (simp_all add: token_char_def alphanumeric_def)
  have "valid_roles demo_roles" using u by (simp add: valid_roles_def demo_roles_def)
  with t show ?thesis
    by (auto simp: env_law_def demo_env_def demo_jwt_def split: list.splits token_claims.splits if_splits)
qed

definition demo_accessPolicy :: accessPolicy where
  "demo_accessPolicy =
     \<lparr>pol_Name = ''ns/web'', pol_Oidc = demo_oidc\<lparr>oi_Provider := demo_provider\<rparr>,
      pol_Default = \<lparr>rt_EnableAuthz = True, rt_Roles = [''r:user''],
        rt_Headers = [\<lparr>hd_Name = ''x-user'', hd_Value = ''yes'', hd_Roles = [''r:user'']\<rparr>,
                      \<lparr>hd_Name = ''x-root'', hd_Value = ''yes'', hd_Roles = [''r:root'']\<rparr>]\<rparr>,
      pol_Routes = Map.empty, pol_VirtualHosts = []\<rparr>"

definition demo_server :: server where
  "demo_server =
     \<lparr>sv_node = NewNode ''A'' ''a:1'', sv_policies = [''ns/web'' \<mapsto> demo_accessPolicy],
      sv_reqCount = (\<lambda>_. 0), sv_resCount = (\<lambda>_. 0)\<rparr>"

definition demo_request :: "string \<Rightarrow> string \<Rightarrow> string \<Rightarrow> unit request" where
  "demo_request path query cookie =
     \<lparr>rq_url = empty_url\<lparr>url_Scheme := ''https'', url_Host := ''h'', url_Path := path, url_RawQuery := query\<rparr>,
      rq_cookies = (if cookie = [] then [] else [\<lparr>ck_Name = ''bearer'', ck_Value = cookie\<rparr>]),
      rq_fetchMode = ''navigate'', rq_policy = demo_accessPolicy, rq_route = pol_Default demo_accessPolicy,
      rq_claims = None, rq_session = None\<rparr>"

text \<open>The server after a login: the session of the token is stored.\<close>

definition demo_logged_in :: server where
  "demo_logged_in = store_session demo_env
     \<lparr>sd_session = \<lparr>sess_id = ''#token'', sess_refresh = ''rt'', sess_expiry = 99\<rparr>, sd_stamp = zero_stamp\<rparr>
     demo_server"

lemmas demo_eval =
  demo_env_def demo_jwt_def demo_accessPolicy_def demo_server_def demo_request_def demo_oidc_def
  NewNode_def empty_url_def

lemma check_allows:
  assumes "orders_ok e" and "check e srv req = Ok (srv', res)"
  shows "rs_status res = 200 \<longleftrightarrow>
    \<not> is_callback req
    \<and> (\<exists>reg roles sess. bearer_session e srv req reg roles sess \<and> \<not> isExpired e reg
         \<and> set (rt_Roles (rq_route req)) \<subseteq> granted roles)"
proof -
  from assms(2) obtain srv1 where a: "answer e srv req = Ok (srv1, res)"
    by (auto simp: check_answer)
  show ?thesis
  proof (cases rule: answer_cases [of req e srv])
    case callback
    with a have "rs_status res \<in> {303, 307, 400, 403, 500}"
      using finishOidc_same_but_node by metis
    with callback show ?thesis by auto
  next
    case unauthenticated
    with a have "rs_status res \<in> {303, 403, 500}" using startOidc_status [of e req] by auto
    with unauthenticated show ?thesis by auto
  next
    case (expired reg roles sess)
    with a have "rs_status res \<in> {307, 403, 500}" using updateToken_same_but_node by metis
    with expired show ?thesis by (auto dest: bearer_session_unique)
  next
    case (authenticated reg roles sess)
    with a have "rs_status res = 200 \<longleftrightarrow> set (rt_Roles (rq_route req)) \<subseteq> granted roles"
      using authorize_status hasRoles_iff [OF bearer_session_ranges [OF assms(1) authenticated(2)]] by auto
    with authenticated show ?thesis by (auto dest: bearer_session_unique)
  qed
qed

section \<open>Claims\<close>

text \<open>
  C4: A checked request is allowed exactly when it is not a callback, its bearer cookie verifies
  under the secret of the policy and is the token of a stored session, its claims have not expired,
  and every role of the route is granted by them.
\<close>

theorem check_allows_iff:
  assumes "orders_ok e" and "check e srv req = Ok (srv', res)"
  shows "rs_status res = 200 \<longleftrightarrow>
    \<not> is_callback req
    \<and> (\<exists>reg roles sess. bearer_session e srv req reg roles sess \<and> \<not> isExpired e reg
         \<and> set (rt_Roles (rq_route req)) \<subseteq> granted roles)"
  using assms by (rule check_allows)

lemma demo_session_found: "Get (sv_store demo_logged_in) ''#token'' =
    Some \<lparr>sess_id = ''#token'', sess_refresh = ''rt'', sess_expiry = 99\<rparr>"
  by (simp add: demo_logged_in_def store_session_def demo_server_def NewNode_def store_eval
      Client_SetSession_def getConnections_def demo_env_def List.map_filter_def)

lemma demo_bearer: "bearer_session demo_env demo_logged_in (demo_request ''/app'' q ''token'') () demo_roles
    \<lparr>sess_id = ''#token'', sess_refresh = ''rt'', sess_expiry = 99\<rparr>"
  using demo_session_found
  by (simp add: bearer_session_def bearer_def bearerCookie_def demo_eval parseToken_def token_secret_def)

lemma demo_no_callback: "\<not> is_callback (demo_request ''/app'' q c)"
  by (simp add: is_callback_def IsCallback_def demo_eval)

lemma demo_query: "Query (rq_url (demo_request p [] c)) = Map.empty"
  by (simp add: demo_eval Query_def parseQuery.simps)

lemma demo_check: "\<exists>srv' res. check demo_env srv (demo_request ''/app'' [] ''token'') = Ok (srv', res)"
proof -
  let ?req = "demo_request ''/app'' [] ''token''"
  have "location (rq_url ?req) = (Ok ((rq_url ?req)\<lparr>url_RawQuery := values_Encode Map.empty\<rparr>) :: (go_error, url) res)"
    by (simp add: location_def demo_query Let_def)
  moreover have "\<exists>srv' res. answer demo_env srv ?req = Ok (srv', res)"
    by (cases rule: answer_cases [of ?req demo_env srv])
       (auto simp: demo_no_callback updateToken_def demo_env_def split: sum.splits)
  ultimately show ?thesis by (auto simp: check_answer)
qed

theorem check_allows_iff_witness:
  "\<exists>srv' res. check demo_env demo_logged_in (demo_request ''/app'' [] ''token'') = Ok (srv', res)
     \<and> rs_status res = 200"
proof -
  obtain srv' res where c: "check demo_env demo_logged_in (demo_request ''/app'' [] ''token'') = Ok (srv', res)"
    using demo_check by blast
  have "\<not> isExpired demo_env ()" by (simp add: isExpired_def demo_env_def demo_jwt_def)
  moreover have "set (rt_Roles (rq_route (demo_request ''/app'' [] ''token''))) \<subseteq> granted demo_roles"
    by (auto simp: demo_eval granted_def demo_roles_def)
  ultimately have "rs_status res = 200"
    using check_allows_iff [OF demo_orders_ok c] demo_no_callback demo_bearer by blast
  with c show ?thesis by blast
qed

text \<open>
  Every check counts one request and one response for its policy and changes no other counter;
  the response is one of the counted kinds, so \<open>OtherResponse\<close> is never counted.
\<close>

lemma check_counts_once:
  assumes "check e srv req = Ok (srv', res)"
  shows "\<exists>k r. r \<noteq> OtherResponse
    \<and> sv_reqCount srv' = (sv_reqCount srv)((pol_Name (rq_policy req), k) :=
          sv_reqCount srv (pol_Name (rq_policy req), k) + 1)
    \<and> sv_resCount srv' = (sv_resCount srv)((pol_Name (rq_policy req), r) :=
          sv_resCount srv (pol_Name (rq_policy req), r) + 1)
    \<and> sv_policies srv' = sv_policies srv
    \<and> rs_status res \<in> {200, 303, 307, 400, 403, 500}
    \<and> (k = Callback \<longleftrightarrow> is_callback req) \<and> (r = Allowed \<longleftrightarrow> rs_status res = 200)"
proof -
  let ?p = "pol_Name (rq_policy req)"
  from assms obtain srv1 where a: "answer e srv req = Ok (srv1, res)"
    and srv': "srv' = count_response ?p (rs_status res) srv1"
    by (auto simp: check_answer)
  obtain k where k: "same_but_node (count_request ?p k srv) srv1" "k = Callback \<longleftrightarrow> is_callback req"
    and s: "rs_status res \<in> {200, 303, 307, 400, 403, 500}"
  proof (cases rule: answer_cases [of req e srv])
    case callback
    with a that [of Callback] finishOidc_same_but_node show thesis by fastforce
  next
    case unauthenticated
    with a that [of Unauthenticated] startOidc_status [of e req] show thesis by auto
  next
    case (expired reg roles sess)
    with a that [of Expired] updateToken_same_but_node show thesis by fastforce
  next
    case (authenticated reg roles sess)
    with a that [of Authenticated] authorize_statuses [of e req roles] show thesis by auto
  qed
  define r where "r = response_kind_of (rs_status res)"
  have r: "r \<noteq> OtherResponse" "r = Allowed \<longleftrightarrow> rs_status res = 200"
    using s by (auto simp: r_def response_kind_of_def)
  have "sv_resCount srv' = (sv_resCount srv1)((?p, r) := sv_resCount srv1 (?p, r) + 1)"
    by (simp add: srv' count_response_def r_def Let_def)
  note r = r this
  show ?thesis
    using k s r by (intro exI [of _ k] exI [of _ r]) (auto simp: same_but_node_def srv' count_request_def)
qed

lemma check_counts_once_witness:
  "\<exists>srv' res r. check demo_env demo_logged_in (demo_request ''/app'' [] ''token'') = Ok (srv', res)
     \<and> sv_resCount srv' (''ns/web'', r) = 1 \<and> r \<noteq> OtherResponse"
proof -
  obtain srv' res where c: "check demo_env demo_logged_in (demo_request ''/app'' [] ''token'') = Ok (srv', res)"
    using demo_check by blast
  moreover have "sv_resCount demo_logged_in = (\<lambda>_. 0)"
    by (simp add: demo_logged_in_def store_session_def demo_server_def split: prod.split)
  moreover have "pol_Name (rq_policy (demo_request ''/app'' [] ''token'')) = ''ns/web''"
    by (simp add: demo_eval)
  ultimately show ?thesis using check_counts_once [OF c] by fastforce
qed

text \<open>
  C12: Checking a request panics exactly when its query has more \<^verbatim>\<open>code\<close> than \<^verbatim>\<open>state\<close> parameters, or
  when reading the data of the token that the provider gave for the callback or the refresh panics.
  The first needs no login: any client can crash the server with one request.
\<close>

theorem check_panics_iff:
  "check e srv req = Panic \<longleftrightarrow>
     length (lookup0 [] (Query (rq_url req)) ''state'') < length (lookup0 [] (Query (rq_url req)) ''code'')
     \<or> (\<exists>tok uri. token_obtained e srv req tok uri
          \<and> ev_TokenData e (oi_Provider (pol_Oidc (rq_policy req))) tok = Panic)"
proof -
  have "answer e srv req = Panic \<longleftrightarrow> (\<exists>tok uri. token_obtained e srv req tok uri
          \<and> ev_TokenData e (oi_Provider (pol_Oidc (rq_policy req))) tok = Panic)"
  proof (cases rule: answer_cases [of req e srv])
    case callback
    then show ?thesis by (simp add: finishOidc_Panic)
  next
    case unauthenticated
    then show ?thesis by (simp add: token_obtained_def)
  next
    case (expired reg roles sess)
    then show ?thesis by (simp add: updateToken_Panic)
  next
    case (authenticated reg roles sess)
    then show ?thesis by (auto simp: token_obtained_def dest: bearer_session_unique)
  qed
  moreover have "check e srv req = Panic \<longleftrightarrow>
      (location (rq_url req) :: (go_error, url) res) = Panic \<or> answer e srv req = Panic"
    by (cases "location (rq_url req) :: (go_error, url) res")
       (auto simp: check_answer res_bind_eq_Panic location_not_Err)
  ultimately show ?thesis by (simp add: location_Panic)
qed

end
