(* ===== verification/Auth_Login.thy ===== *)
theory Auth_Login
  imports Auth_Claims
begin

text \<open>
  The flows that span several requests: a login from its start to the first authenticated request,
  a refresh, the headers an allowed request gets, and the call of Envoy from its attributes to its
  answer.
\<close>

section \<open>Headers\<close>

lemma allowed_headers_result:
  "allowed_headers has hs m name =
     (case find (\<lambda>h. hd_Name h = name \<and> has (hd_Roles h)) (rev hs) of
        None \<Rightarrow> m name | Some h \<Rightarrow> Some (hd_Value h))"
  by (induction hs arbitrary: m) (auto simp: find_snoc split: option.splits)

lemma check_authenticated:
  assumes "check e srv req = Ok (srv', res)" and "\<not> is_callback req"
    and "bearer_session e srv req reg roles sess" and "\<not> isExpired e reg"
  shows "res = authorize e req roles" and "sv_node srv' = sv_node srv"
  using assms answer_authenticated [OF assms(2,3)] by (auto simp: check_answer)

lemma check_headers:
  assumes "orders_ok e" and "check e srv req = Ok (srv', res)" and "\<not> is_callback req"
    and "bearer_session e srv req reg roles sess" and "\<not> isExpired e reg"
  shows "rs_headers res = (if rs_status res = 200
    then (\<lambda>name. map_option hd_Value
        (find (\<lambda>h. hd_Name h = name \<and> set (hd_Roles h) \<subseteq> granted roles) (rev (rt_Headers (rq_route req)))))
    else Map.empty)"
proof -
  have r: "hasRoles required roles (ev_range_roles e roles) \<longleftrightarrow> set required \<subseteq> granted roles" for required
    by (rule hasRoles_iff [OF bearer_session_ranges [OF assms(1,4)]])
  have "res = authorize e req roles" by (rule check_authenticated [OF assms(2-5)])
  then show ?thesis
    by (auto simp: authorize_def bare_def Let_def r allowed_headers_result map_option_case fun_eq_iff
        split: option.split)
qed

text \<open>
  An allowed request gets a header of the route exactly when its roles are granted to the user;
  with several headers of a name, the last one that is granted counts. A refused request gets no
  header at all.
\<close>

lemma allowed_headers_are_granted:
  assumes "orders_ok e" and "check e srv req = Ok (srv', res)" and "\<not> is_callback req"
    and "bearer_session e srv req reg roles sess" and "\<not> isExpired e reg"
  shows "rs_headers res = (if rs_status res = 200
    then (\<lambda>name. map_option hd_Value
        (find (\<lambda>h. hd_Name h = name \<and> set (hd_Roles h) \<subseteq> granted roles) (rev (rt_Headers (rq_route req)))))
    else Map.empty)"
  using assms by (rule check_headers)

lemma allowed_headers_are_granted_witness:
  "\<exists>srv' res. check demo_env demo_logged_in (demo_request ''/app'' [] ''token'') = Ok (srv', res)
     \<and> (if rs_status res = 200 then rs_headers res ''x-user'' = Some ''yes'' \<and> rs_headers res ''x-root'' = None
        else rs_headers res = Map.empty)"
proof -
  obtain srv' res where c: "check demo_env demo_logged_in (demo_request ''/app'' [] ''token'') = Ok (srv', res)"
    using demo_check by blast
  have "\<not> isExpired demo_env ()" by (simp add: isExpired_def demo_env_def demo_jwt_def)
  from allowed_headers_are_granted [OF demo_orders_ok c demo_no_callback demo_bearer this] c
  show ?thesis by (auto simp: demo_eval granted_def demo_roles_def)
qed

section \<open>Sessions\<close>

lemma spawn_all_store: "nd_store (fold (\<lambda>c. spawn (SendSession c y)) cs n) = nd_store n"
  by (induction cs arbitrary: n) auto

lemma check_stores:
  assumes "check e srv req = Ok (srv', res)"
  obtains (same) "sv_node srv' = sv_node srv"
      "rs_headers res ''set-cookie'' = None \<or> rs_status res \<notin> {303, 307}"
  | (stored) tok uri data t where "token_obtained e srv req tok uri"
      "ev_TokenData e (oi_Provider (pol_Oidc (rq_policy req))) tok = Ok data"
      "makeToken e (token_secret req) (BearerClaims (td_subject data) (td_roles data)) (tok_expiry tok) = Inr t"
      "sv_store srv' = fst (Set (sv_store srv) \<lparr>sd_session = \<lparr>sess_id = ev_sha512 e t,
          sess_refresh = tok_refresh tok, sess_expiry = td_expiry data\<rparr>, sd_stamp = zero_stamp\<rparr>)"
      "rs_headers res = [''set-cookie'' \<mapsto> cookie_String \<lparr>ck_Name = bearerCookie, ck_Value = t\<rparr>,
          ''location'' \<mapsto> (if uri = [] then RequestURI (rq_url req) else uri)]"
      "rs_status res = (if uri = [] then 307 else 303)"
proof -
  obtain srv1 where a: "answer e srv req = Ok (srv1, res)" and n: "sv_node srv' = sv_node srv1"
    using assms by (auto simp: check_answer)
  have store: "nd_store (sv_node (store_session e x s)) = fst (Set (sv_store s) x)" for x s
    by (simp add: store_session_def Client_SetSession_def Let_def spawn_all_store split: prod.split)
  have set: thesis if s: "setToken e srv2 req tok uri = Ok (srv1, res)"
    and o: "token_obtained e srv req tok uri" and m: "sv_node srv2 = sv_node srv" for srv2 tok uri
    using setToken_Ok [OF s]
  proof (elim conjE disjE exE)
    assume "rs_status res = 500" "srv1 = srv2"
    with m n same show thesis by simp
  next
    fix data t
    assume "ev_TokenData e (oi_Provider (pol_Oidc (rq_policy req))) tok = Ok data"
      "makeToken e (token_secret req) (BearerClaims (td_subject data) (td_roles data)) (tok_expiry tok) = Inr t"
      "srv1 = store_session e \<lparr>sd_session = \<lparr>sess_id = ev_sha512 e t,
                  sess_refresh = tok_refresh tok, sess_expiry = td_expiry data\<rparr>, sd_stamp = zero_stamp\<rparr> srv2"
      "rs_headers res = [''set-cookie'' \<mapsto> cookie_String \<lparr>ck_Name = bearerCookie, ck_Value = t\<rparr>,
                  ''location'' \<mapsto> (if uri = [] then RequestURI (rq_url req) else uri)]"
      "rs_status res = (if uri = [] then 307 else 303)"
    with stored [OF o] n m store show thesis by simp
  qed
  show thesis
  proof (cases rule: answer_cases [of req e srv])
    case callback
    show thesis
    proof (cases rule: finishOidc_cases [of e "count_request (pol_Name (rq_policy req)) Callback srv" req])
      case (exchanged tok path)
      then show thesis using set [of _ tok path] a callback by (auto simp: token_obtained_def)
    next
      case (refused status)
      then show thesis using a callback same n by (auto simp: bare_def)
    qed
  next
    case unauthenticated
    then have "rs_headers res ''set-cookie'' = None" "srv1 = count_request (pol_Name (rq_policy req)) Unauthenticated srv"
      using a by (auto simp: startOidc_def bare_def Let_def split: sum.splits)
    then show thesis using same n by simp
  next
    case (expired reg roles sess)
    show thesis
    proof (cases rule: updateToken_cases [of e "count_request (pol_Name (rq_policy req)) Expired srv" req sess])
      case (refreshed tok)
      then have "token_obtained e srv req tok []"
        using expired by (auto simp: token_obtained_def)
      then show thesis using set [of _ tok "[]"] a expired refreshed by simp
    next
      case (refused err)
      then show thesis using a expired same n by (auto simp: bare_def)
    qed
  next
    case (authenticated reg roles sess)
    then have "rs_status res \<in> {200, 403}" "sv_node srv1 = sv_node srv"
      using a authorize_statuses [of e req roles] by auto
    then show thesis using same n by auto
  qed
qed

text \<open>
  C11: Checking a request leaves the sessions, the connections and the tasks of the node as they
  are, unless the provider gave a token for it: at a callback whose state verifies under the secret
  of the policy, or for a stored session whose bearer token has expired.
\<close>

theorem only_tokens_change_sessions:
  assumes "check e srv req = Ok (srv', res)" and "sv_node srv' \<noteq> sv_node srv"
  shows "(\<exists>tok uri data. token_obtained e srv req tok uri
      \<and> ev_TokenData e (oi_Provider (pol_Oidc (rq_policy req))) tok = Ok data)
    \<and> rs_status res \<in> {303, 307}"
  using assms(1)
proof (cases rule: check_stores)
  case same
  with assms(2) show ?thesis by simp
next
  case (stored tok uri data t)
  then show ?thesis by auto
qed

text \<open>The callback of a login in the small environment.\<close>

abbreviation demo_callback :: "unit request" where
  "demo_callback \<equiv> demo_request ''/oidc/callback'' ''state=state&code=c'' []"

lemma demo_callback_query:
  "Query (rq_url demo_callback) ''state'' = Some [''state'']"
  "Query (rq_url demo_callback) ''code'' = Some [''c'']"
  by (simp_all add: demo_eval) code_simp+

lemma demo_is_callback: "is_callback demo_callback"
  by (simp add: is_callback_def IsCallback_def demo_eval)

lemma location_Ok: "length (lookup0 [] (Query u) ''code'') \<le> length (lookup0 [] (Query u) ''state'') \<Longrightarrow>
    \<exists>loc. location u = (Ok loc :: (go_error, url) res)"
  using location_Panic [of u, where ?'a = go_error] location_not_Err [of u, where ?'a = go_error]
  by (cases "location u :: (go_error, url) res") auto

lemma demo_callback_check:
  "\<exists>srv' res. check demo_env srv demo_callback = Ok (srv', res) \<and> rs_status res = 303
     \<and> rs_headers res = [''set-cookie'' \<mapsto> ''bearer=token; Path=/; HttpOnly'', ''location'' \<mapsto> ''/app'']
     \<and> sv_store srv' = fst (Set (sv_store srv) \<lparr>sd_session = \<lparr>sess_id = ''#token'', sess_refresh = ''rt'',
         sess_expiry = 99\<rparr>, sd_stamp = zero_stamp\<rparr>)"
proof -
  let ?srv = "count_request ''ns/web'' Callback srv"
  have ck: "cookie_String \<lparr>ck_Name = bearerCookie, ck_Value = ''token''\<rparr> = ''bearer=token; Path=/; HttpOnly''"
    by code_simp
  have "\<exists>srv1 res. finishOidc demo_env ?srv demo_callback = Ok (srv1, res) \<and> rs_status res = 303
     \<and> rs_headers res = [''set-cookie'' \<mapsto> ''bearer=token; Path=/; HttpOnly'', ''location'' \<mapsto> ''/app'']
     \<and> sv_store srv1 = fst (Set (sv_store srv) \<lparr>sd_session = \<lparr>sess_id = ''#token'', sess_refresh = ''rt'',
         sess_expiry = 99\<rparr>, sd_stamp = zero_stamp\<rparr>)"
  proof -
    have 1: "parseToken demo_env (jwt_state (ev_jwt demo_env)) (token_secret demo_callback) ''state'' = Inr ''/app''"
      and 2: "Exchange (ev_oauth2 demo_env) (OAuth2 (pol_Oidc (rq_policy demo_callback)) (rq_url demo_callback)) ''c''
        = Inr demo_tokens"
      and 3: "makeToken demo_env (token_secret demo_callback) (BearerClaims ''alice'' demo_roles)
        (tok_expiry demo_tokens) = Inr ''token''"
      and 4: "ev_TokenData demo_env op tok =
        Ok \<lparr>td_subject = ''alice'', td_expiry = 99, td_roles = demo_roles\<rparr>"
      and 5: "ev_sha512 demo_env ''token'' = ''#token''" "tok_refresh demo_tokens = ''rt''" for op tok
      by (simp_all add: parseToken_def makeToken_def token_secret_def demo_eval demo_tokens_def)
    show ?thesis
      by (simp add: finishOidc_def Let_def demo_callback_query 1 2)
         (simp add: setToken_def 3 4 5 ck Let_def store_session_def Client_SetSession_def spawn_all_store
           split: prod.split)
  qed
  moreover have "pol_Name (rq_policy demo_callback) = ''ns/web''" by (simp add: demo_eval)
  moreover obtain loc where "location (rq_url demo_callback) = (Ok loc :: (go_error, url) res)"
    using location_Ok [of "rq_url demo_callback"] demo_callback_query by auto
  ultimately show ?thesis
    using answer_callback [OF demo_is_callback, of demo_env srv] by (auto simp: check_answer)
qed

theorem only_tokens_change_sessions_witness:
  "\<exists>srv' res tok uri. check demo_env demo_server demo_callback = Ok (srv', res)
     \<and> token_obtained demo_env demo_server demo_callback tok uri"
proof -
  obtain srv' res where c: "check demo_env demo_server demo_callback = Ok (srv', res)"
    and s: "sv_store srv' = fst (Set (sv_store demo_server) \<lparr>sd_session = \<lparr>sess_id = ''#token'',
      sess_refresh = ''rt'', sess_expiry = 99\<rparr>, sd_stamp = zero_stamp\<rparr>)"
    using demo_callback_check [of demo_server] by blast
  have "Get (sv_store srv') ''#token'' \<noteq> Get (sv_store demo_server) ''#token''"
    by (simp add: s demo_server_def NewNode_def store_eval)
  then have "sv_node srv' \<noteq> sv_node demo_server" by auto
  from only_tokens_change_sessions [OF c this] c show ?thesis by blast
qed

text \<open>The outcome of storing a new session, told by the last session of the instance's own list.\<close>

lemma Get_after_new:
  fixes ss s
  defines "own \<equiv> peer_list ss (ss_id ss)"
  assumes "sd_stamp x = zero_stamp"
  shows "Get (fst (Set ss x)) (id_of x) =
    (if own \<noteq> [] \<and> ss_curr ss + 1 \<le> serial (last own) then Get ss (id_of x) else Some (sd_session x))"
proof (cases "snd (Set ss x)")
  case (Inl err)
  then have "own \<noteq> [] \<and> ss_curr ss + 1 \<le> serial (last own)"
    using Set_rejects_iff [of ss x] assms by (auto simp: Let_def assign_stamp_def)
  with Get_after_Set_error [of ss x _ err] Inl show ?thesis by (metis prod.collapse)
next
  case (Inr y)
  then have "\<not> (own \<noteq> [] \<and> ss_curr ss + 1 \<le> serial (last own))"
    using Set_rejects_iff [of ss x] assms by (auto simp: Let_def assign_stamp_def)
  with Get_after_Set [of ss x _ y] Inr show ?thesis by (metis prod.collapse)
qed

text \<open>
  C10: A response that sets the cookie hands out a login for as long as the session is stored. The cookie
  is the bearer cookie with a token; a later request for the policy that brings it back in its
  \<^verbatim>\<open>Cookie\<close> header has a verified bearer token with the roles that the provider's token gave and a
  session, whatever happened in between, exactly when the store has the session of the token. The check
  stores this session, with the refresh token and the expiry of the provider's token, unless the last session of the instance's own list has a serial beyond the next one, and
  then it sets the cookie all the same; this happens only when the counter wraps around or a peer sent
  a session under the identity of this instance (\<open>store_disciplined\<close> is the absence of the latter).
\<close>

theorem set_cookie_logs_in:
  assumes "env_law e" and "check e srv req = Ok (srv', res)" and "rs_status res \<in> {303, 307}"
    and "rs_headers res ''set-cookie'' = Some ck"
    and "own = peer_list (sv_store srv) (ss_id (sv_store srv))"
  shows "\<exists>tok reg token uri data sess. ck = ''bearer='' @ tok @ ''; Path=/; HttpOnly''
    \<and> token_obtained e srv req token uri
    \<and> ev_TokenData e (oi_Provider (pol_Oidc (rq_policy req))) token = Ok data
    \<and> sess = \<lparr>sess_id = ev_sha512 e tok, sess_refresh = tok_refresh token, sess_expiry = td_expiry data\<rparr>
    \<and> (\<forall>srv2 req2 s. rq_policy req2 = rq_policy req \<and> rq_cookies req2 = readCookies (''bearer='' @ tok) \<longrightarrow>
         (bearer_session e srv2 req2 reg (td_roles data) s \<longleftrightarrow> Get (sv_store srv2) (ev_sha512 e tok) = Some s))
    \<and> Get (sv_store srv') (ev_sha512 e tok) =
        (if own \<noteq> [] \<and> ss_curr (sv_store srv) + 1 \<le> serial (last own)
         then Get (sv_store srv) (ev_sha512 e tok) else Some sess)
    \<and> ((\<exists>me. store_disciplined me (sv_store srv)) \<and> ss_curr (sv_store srv) \<noteq> - 1 \<longrightarrow>
         Get (sv_store srv') (ev_sha512 e tok) = Some sess)"
  using assms(2)
proof (cases rule: check_stores)
  case same
  with assms(3,4) show ?thesis by simp
next
  case (stored tok uri data t)
  have "valid_roles (td_roles data)" using assms(1) stored(2) by (auto simp: env_law_def)
  then obtain reg where p: "parseToken e (jwt_bearer (ev_jwt e)) (token_secret req) t = Inr (reg, td_roles data)"
    using env_law_sign(4) [OF assms(1) stored(3) refl] by blast
  note t = env_law_sign(1,2) [OF assms(1) stored(3)]
  have n: "isCookieNameValid ''bearer''" "list_all visible ''bearer''"
    by (simp_all add: isCookieNameValid_def isToken_def alphanumeric_def visible_def)
  have ck: "ck = ''bearer='' @ t @ ''; Path=/; HttpOnly''"
    using assms(4) stored(5) n(1) sanitize_token [OF t(2)] by (simp add: cookie_String_def bearerCookie_def)
  have "readCookies (''bearer'' @ ''='' @ t) = [\<lparr>ck_Name = ''bearer'', ck_Value = t\<rparr>]"
    using n t by (intro read_token_cookie) auto
  then have c: "readCookies (''bearer='' @ t) = [\<lparr>ck_Name = ''bearer'', ck_Value = t\<rparr>]" by simp
  let ?x = "\<lparr>sd_session = \<lparr>sess_id = ev_sha512 e t, sess_refresh = tok_refresh tok,
      sess_expiry = td_expiry data\<rparr>, sd_stamp = zero_stamp\<rparr>"
  have later: "bearer_session e srv2 req2 reg (td_roles data) s \<longleftrightarrow> Get (sv_store srv2) (ev_sha512 e t) = Some s"
    if "rq_policy req2 = rq_policy req" "rq_cookies req2 = readCookies (''bearer='' @ t)" for srv2 req2 s
    using that c p t(1) by (simp add: bearer_session_def bearer_def bearerCookie_def token_secret_def)
  have now: "Get (sv_store srv') (ev_sha512 e t) =
      (if own \<noteq> [] \<and> ss_curr (sv_store srv) + 1 \<le> serial (last own)
       then Get (sv_store srv) (ev_sha512 e t) else Some (sd_session ?x))"
    using Get_after_new [of ?x "sv_store srv"] stored(4) assms(5) by simp
  have disciplined: "Get (sv_store srv') (ev_sha512 e t) = Some (sd_session ?x)"
    if d: "store_disciplined me (sv_store srv)" "ss_curr (sv_store srv) \<noteq> - 1" for me
  proof -
    obtain ss' y where "Set (sv_store srv) ?x = (ss', Inr y)"
      using Set_local [OF store_disciplined_bounded [OF d(1)] d(2), of ?x] by auto
    then show ?thesis using stored(4) Get_after_Set [of "sv_store srv" ?x ss' y "ev_sha512 e t"] by simp
  qed
  show ?thesis
    by (intro exI [of _ t] exI [of _ reg] exI [of _ tok] exI [of _ uri] exI [of _ data] exI [of _ "sd_session ?x"]
          conjI refl)
       (use ck stored(1,2) later now disciplined in auto)
qed

theorem set_cookie_logs_in_witness:
  "\<exists>srv' res reg roles sess. check demo_env demo_server demo_callback = Ok (srv', res)
     \<and> bearer_session demo_env srv' (demo_request ''/app'' [] ''token'') reg roles sess"
proof -
  obtain srv' res where c: "check demo_env demo_server demo_callback = Ok (srv', res)"
    and s: "rs_status res \<in> {303, 307}"
    and h: "rs_headers res ''set-cookie'' = Some ''bearer=token; Path=/; HttpOnly''"
    using demo_callback_check [of demo_server] by auto
  have d: "store_disciplined ''A'' (sv_store demo_server)" "ss_curr (sv_store demo_server) \<noteq> - 1"
    using store_disciplined.start [of "''A''"] by (simp_all add: demo_server_def NewNode_def NewSessionStore_def)
  obtain tok reg roles sess where tok: "''bearer=token; Path=/; HttpOnly'' = ''bearer='' @ tok @ ''; Path=/; HttpOnly''"
    and r: "\<And>srv2 req2 x. rq_policy req2 = rq_policy demo_callback \<Longrightarrow>
      rq_cookies req2 = readCookies (''bearer='' @ tok) \<Longrightarrow>
      bearer_session demo_env srv2 (req2 :: unit request) reg roles x
        \<longleftrightarrow> Get (sv_store srv2) (ev_sha512 demo_env tok) = Some x"
    and now: "Get (sv_store srv') (ev_sha512 demo_env tok) = Some sess"
    using set_cookie_logs_in [OF demo_env_law c s h refl] d by blast
  have "tok @ ''; Path=/; HttpOnly'' = ''token'' @ ''; Path=/; HttpOnly''" using tok by simp
  then have "tok = ''token''" by (simp only: append_same_eq)
  moreover have "readCookies (''bearer='' @ ''token'') = [\<lparr>ck_Name = ''bearer'', ck_Value = ''token''\<rparr>]"
    using read_token_cookie [of "''bearer''" "''token''"]
    by (simp add: isCookieNameValid_def isToken_def alphanumeric_def visible_def token_char_def)
  ultimately have "bearer_session demo_env srv' (demo_request ''/app'' [] ''token'') reg roles sess"
    using now by (subst r) (simp_all add: demo_eval)
  with c show ?thesis by blast
qed

text \<open>
  C36: A login ends where it began: the state that an unauthenticated request hands to the provider
  verifies at the callback, and a callback with this state that gets a token redirects the browser
  to the path of the first request, verbatim and without its query.
\<close>

theorem login_returns_to_start:
  assumes "env_law e" and "check e srv req = Ok (srv', res)" and "\<not> is_callback req"
    and "\<nexists>reg roles sess. bearer_session e srv req reg roles sess" and "rs_status res = 303"
    and "valid_utf8 (url_Path (rq_url req))" and "url_Path (rq_url req) \<noteq> []"
  shows "\<exists>state. rs_headers res ''location'' =
        Some (AuthCodeURL (ev_oauth2 e) (OAuth2 (pol_Oidc (rq_policy req)) (rq_url req)) state)
    \<and> (\<forall>srv2 req2 srv3 res2. is_callback req2 \<and> rq_policy req2 = rq_policy req
         \<and> Query (rq_url req2) ''state'' = Some [state]
         \<and> check e srv2 req2 = Ok (srv3, res2) \<and> rs_status res2 \<in> {303, 307} \<longrightarrow>
         rs_status res2 = 303 \<and> rs_headers res2 ''location'' = Some (url_Path (rq_url req)))"
proof -
  have "res = startOidc e req"
    using assms(2) answer_unauthenticated [OF assms(3,4)] by (auto simp: check_answer)
  with assms(5) obtain state where
    m: "makeToken e (token_secret req) (StateClaims (url_Path (rq_url req))) zero_time = Inr state"
    and l: "rs_headers res ''location'' =
        Some (AuthCodeURL (ev_oauth2 e) (OAuth2 (pol_Oidc (rq_policy req)) (rq_url req)) state)"
    by (auto simp: startOidc_def bare_def Let_def split: if_splits sum.splits)
  have p: "parseToken e (jwt_state (ev_jwt e)) (token_secret req) state = Inr (url_Path (rq_url req))"
    using env_law_sign(3) [OF assms(1) m refl assms(6)] .
  have "rs_status res2 = 303 \<and> rs_headers res2 ''location'' = Some (url_Path (rq_url req))"
    if r: "is_callback req2" "rq_policy req2 = rq_policy req" "Query (rq_url req2) ''state'' = Some [state]"
      and c: "check e srv2 req2 = Ok (srv3, res2)" and s: "rs_status res2 \<in> {303, 307}"
    for srv2 req2 srv3 res2
    using c
  proof (cases rule: check_stores)
    case same
    obtain srv4 where f: "finishOidc e (count_request (pol_Name (rq_policy req2)) Callback srv2) req2 = Ok (srv4, res2)"
      using c answer_callback [OF r(1), of e srv2] by (auto simp: check_answer)
    show ?thesis
    proof (cases rule: finishOidc_cases [of e "count_request (pol_Name (rq_policy req2)) Callback srv2" req2])
      case (exchanged tok path)
      with f have "setToken e (count_request (pol_Name (rq_policy req2)) Callback srv2) req2 tok path = Ok (srv4, res2)"
        by simp
      then show ?thesis using same(2) s by (auto dest!: setToken_Ok)
    next
      case (refused status)
      then show ?thesis using f s by (auto simp: bare_def)
    qed
  next
    case (stored tok uri data t)
    have "uri = url_Path (rq_url req)"
      using stored(1) r p by (auto simp: token_obtained_def token_secret_def)
    with stored assms(7) show ?thesis by simp
  qed
  with l show ?thesis by blast
qed

theorem login_returns_to_start_witness:
  "\<exists>state srv2 res2. check demo_env demo_server demo_callback = Ok (srv2, res2)
     \<and> Query (rq_url demo_callback) ''state'' = Some [state]
     \<and> rs_headers res2 ''location'' = Some ''/app''"
proof -
  let ?req = "demo_request ''/app'' [] []"
  have nb: "\<nexists>reg roles sess. bearer_session demo_env demo_server ?req reg roles sess"
    by (simp add: bearer_session_def bearer_def demo_request_def)
  obtain loc where "location (rq_url ?req) = (Ok loc :: (go_error, url) res)"
    using location_Ok [of "rq_url ?req"] by (auto simp: demo_query)
  then obtain srv' where c: "check demo_env demo_server ?req = Ok (srv', startOidc demo_env ?req)"
    using answer_unauthenticated [OF demo_no_callback nb] by (simp add: check_answer)
  have st: "makeToken demo_env (token_secret ?req) (StateClaims (url_Path (rq_url ?req))) zero_time = Inr ''state''"
    by (simp add: makeToken_def token_secret_def demo_eval)
  then have s: "rs_status (startOidc demo_env ?req) = 303"
    and l: "rs_headers (startOidc demo_env ?req) ''location'' =
      Some (AuthCodeURL (ev_oauth2 demo_env) (OAuth2 (pol_Oidc (rq_policy ?req)) (rq_url ?req)) ''state'')"
    by (simp_all add: startOidc_def demo_request_def)
  have u: "valid_utf8 (url_Path (rq_url ?req))" "url_Path (rq_url ?req) \<noteq> []"
    by (simp_all add: demo_eval valid_utf8_def runes_of_ascii string_of_runes_ascii ascii_def del: list.map)
  obtain state where "Some (AuthCodeURL (ev_oauth2 demo_env) (OAuth2 (pol_Oidc (rq_policy ?req)) (rq_url ?req)) ''state'') =
      Some (AuthCodeURL (ev_oauth2 demo_env) (OAuth2 (pol_Oidc (rq_policy ?req)) (rq_url ?req)) state)"
    and r: "\<And>srv2 req2 srv3 res2. is_callback req2 \<Longrightarrow> rq_policy req2 = rq_policy ?req \<Longrightarrow>
      Query (rq_url req2) ''state'' = Some [state] \<Longrightarrow> check demo_env srv2 req2 = Ok (srv3, res2) \<Longrightarrow>
      rs_status res2 \<in> {303, 307} \<Longrightarrow> rs_headers res2 ''location'' = Some (url_Path (rq_url ?req))"
    using login_returns_to_start [OF demo_env_law c demo_no_callback nb s u] unfolding l by blast
  then have "state = ''state''" by (simp add: demo_env_def)
  moreover obtain srv2 res2 where "check demo_env demo_server demo_callback = Ok (srv2, res2)" "rs_status res2 = 303"
    using demo_callback_check [of demo_server] by blast
  ultimately show ?thesis
    using r [OF demo_is_callback] demo_callback_query(1) by (auto simp: demo_request_def)
qed

end
