(* ===== verification/Auth_Envoy.thy ===== *)
theory Auth_Envoy
  imports Auth_Login
begin

text \<open>
  The call of Envoy as a whole (\<^verbatim>\<open>src/auth/{server,serverv2,traceing}.go\<close>): from the attributes of an
  HTTP request to the answer that lets it through or not.
\<close>

section \<open>Making the request\<close>

text \<open>The address, the policy and the route the attributes name.\<close>

definition named_address :: "httpAttributes \<Rightarrow> string" where
  "named_address http =
     lookup0 [] (at_Headers http) ''x-forwarded-proto'' @ ''://'' @ at_Host http @ at_Path http"

definition named_route :: "accessPolicy \<Rightarrow> string \<Rightarrow> route option" where
  "named_route ap key = (if key = [] then Some (pol_Default ap) else pol_Routes ap key)"

lemma newRequest_Inr_iff:
  "newRequest srv addr cookies mode meta = Inr req \<longleftrightarrow>
     (\<exists>u ap route. url_Parse addr = Inr u
        \<and> Get_policy (sv_policies srv) (lookup0 [] meta NameKey) = Some ap
        \<and> named_route ap (lookup0 [] meta RouteKey) = Some route
        \<and> req = \<lparr>rq_url = u, rq_cookies = readCookies cookies, rq_fetchMode = mode, rq_policy = ap,
                rq_route = route, rq_claims = None, rq_session = None\<rparr>)"
  by (auto simp: newRequest_def named_route_def Let_def split: sum.splits option.splits)

lemma Check_http:
  "cq_Http creq = Some http \<Longrightarrow> Check e srv creq rh =
     res_bind
       (case newRequest srv (named_address http) (lookup0 [] (at_Headers http) ''cookie'')
               (lookup0 [] (at_Headers http) ''sec-fetch-mode'') (cq_ContextExtensions creq) of
          Inl err \<Rightarrow> Ok (srv, bare 400)
        | Inr data \<Rightarrow> check e srv data) (\<lambda>(srv', r).
     let hs = map (\<lambda>k. (k, lookup0 [] (rs_headers r) k)) (rh (rs_headers r))
     in Ok (srv', if rs_status r = 200 then OkResponse hs else DeniedResponse (rs_status r) hs))"
  by (simp add: Check_def named_address_def Let_def)

lemma Check_passes:
  fixes e :: "('jws, 'reg, 'n) env"
  assumes "orders_ok e" and "Check e srv creq rh = Ok (srv', OkResponse hs)"
    and "\<forall>m. set (rh m) \<subseteq> dom m"
  shows "\<exists>http u ap route reg roles sess token.
      cq_Http creq = Some http \<and> url_Parse (named_address http) = Inr u
      \<and> Get_policy (sv_policies srv) (lookup0 [] (cq_ContextExtensions creq) NameKey) = Some ap
      \<and> named_route ap (lookup0 [] (cq_ContextExtensions creq) RouteKey) = Some route
      \<and> \<not> IsCallback (pol_Oidc ap) u
      \<and> token = bearer_of (readCookies (lookup0 [] (at_Headers http) ''cookie'')) \<and> token \<noteq> []
      \<and> parseToken e (jwt_bearer (ev_jwt e)) (oi_TokenSecret (pol_Oidc ap)) token = Inr (reg, roles)
      \<and> Get (sv_store srv) (ev_sha512 e token) = Some sess
      \<and> \<not> isExpired e reg
      \<and> set (rt_Roles route) \<subseteq> granted roles
      \<and> (\<forall>(k, v) \<in> set hs. \<exists>h \<in> set (rt_Headers route).
           hd_Name h = k \<and> hd_Value h = v \<and> set (hd_Roles h) \<subseteq> granted roles)
      \<and> sv_node srv' = sv_node srv"
proof -
  obtain http where h: "cq_Http creq = Some http"
    using assms(2) by (cases "cq_Http creq") (auto simp: Check_def)
  obtain req where n: "newRequest srv (named_address http) (lookup0 [] (at_Headers http) ''cookie'')
      (lookup0 [] (at_Headers http) ''sec-fetch-mode'') (cq_ContextExtensions creq) = (Inr req :: go_error + 'reg request)"
    using assms(2) by (auto simp: Check_http [OF h] bare_def Let_def split: sum.splits)
  obtain res where c: "check e srv req = Ok (srv', res)" and s: "rs_status res = 200"
    and hs: "hs = map (\<lambda>k. (k, lookup0 [] (rs_headers res) k)) (rh (rs_headers res))"
    using assms(2) by (auto simp: Check_http [OF h] n Let_def split: if_splits)
  obtain u ap route where r: "url_Parse (named_address http) = Inr u"
    "Get_policy (sv_policies srv) (lookup0 [] (cq_ContextExtensions creq) NameKey) = Some ap"
    "named_route ap (lookup0 [] (cq_ContextExtensions creq) RouteKey) = Some route"
    and req: "rq_url req = u" "rq_policy req = ap" "rq_route req = route"
      "rq_cookies req = readCookies (lookup0 [] (at_Headers http) ''cookie'')"
    using n by (auto simp: newRequest_Inr_iff)
  obtain reg roles sess where b: "\<not> is_callback req" "bearer_session e srv req reg roles sess"
    "\<not> isExpired e reg" "set (rt_Roles route) \<subseteq> granted roles"
    using check_allows [OF assms(1) c] s req by auto
  have rh: "rs_headers res = (\<lambda>name. map_option hd_Value
      (find (\<lambda>h. hd_Name h = name \<and> set (hd_Roles h) \<subseteq> granted roles) (rev (rt_Headers route))))"
    using check_headers [OF assms(1) c b(1-3)] s req by simp
  have headers: "\<forall>(k, v) \<in> set hs. \<exists>h \<in> set (rt_Headers route).
      hd_Name h = k \<and> hd_Value h = v \<and> set (hd_Roles h) \<subseteq> granted roles"
  proof clarify
    fix k v
    assume kv: "(k, v) \<in> set hs"
    then have "k \<in> set (rh (rs_headers res))" and v: "v = lookup0 [] (rs_headers res) k"
      by (auto simp: hs)
    then have "k \<in> dom (rs_headers res)" using assms(3) by blast
    then obtain h where "find (\<lambda>h. hd_Name h = k \<and> set (hd_Roles h) \<subseteq> granted roles) (rev (rt_Headers route)) = Some h"
      by (auto simp: rh)
    moreover from this have "v = hd_Value h" by (simp add: v rh)
    ultimately show "\<exists>h \<in> set (rt_Headers route). hd_Name h = k \<and> hd_Value h = v \<and> set (hd_Roles h) \<subseteq> granted roles"
      by (auto dest!: find_SomeD)
  qed
  have tok: "bearer req = bearer_of (readCookies (lookup0 [] (at_Headers http) ''cookie''))"
    by (simp add: bearer_def req)
  have sec: "token_secret req = oi_TokenSecret (pol_Oidc ap)" by (simp add: token_secret_def req)
  have cb: "\<not> IsCallback (pol_Oidc ap) u" using b(1) by (simp add: is_callback_def req)
  note node = check_authenticated(2) [OF c b(1-3)]
  show ?thesis
    by (intro exI [of _ http] exI [of _ u] exI [of _ ap] exI [of _ route] exI [of _ reg] exI [of _ roles]
        exI [of _ sess] exI [of _ "bearer req"] conjI h r cb tok b(3,4) headers node)
       (use b(2) in \<open>simp_all add: bearer_session_def sec\<close>)
qed

section \<open>Claims\<close>

text \<open>
  C2: Nobody gets past the server without the rights. When a call is answered with OK, the named
  policy and route exist, the path is not the callback, the \<^verbatim>\<open>Cookie\<close> header has a bearer token that
  verifies under the secret of this policy, the session of exactly this token is stored, the claims
  have not expired, and they grant every role of the route. The headers that are added are those of
  the route whose roles are granted too, and no state but the counters changes.
\<close>

theorem no_pass_without_rights:
  fixes e :: "('jws, 'reg, 'n) env"
  assumes "orders_ok e" and "Check e srv creq rh = Ok (srv', OkResponse hs)"
    and "\<forall>m. set (rh m) \<subseteq> dom m"
  shows "\<exists>http u ap route reg roles sess token.
      cq_Http creq = Some http \<and> url_Parse (named_address http) = Inr u
      \<and> Get_policy (sv_policies srv) (lookup0 [] (cq_ContextExtensions creq) NameKey) = Some ap
      \<and> named_route ap (lookup0 [] (cq_ContextExtensions creq) RouteKey) = Some route
      \<and> \<not> IsCallback (pol_Oidc ap) u
      \<and> token = bearer_of (readCookies (lookup0 [] (at_Headers http) ''cookie'')) \<and> token \<noteq> []
      \<and> parseToken e (jwt_bearer (ev_jwt e)) (oi_TokenSecret (pol_Oidc ap)) token = Inr (reg, roles)
      \<and> Get (sv_store srv) (ev_sha512 e token) = Some sess
      \<and> \<not> isExpired e reg
      \<and> set (rt_Roles route) \<subseteq> granted roles
      \<and> (\<forall>(k, v) \<in> set hs. \<exists>h \<in> set (rt_Headers route).
           hd_Name h = k \<and> hd_Value h = v \<and> set (hd_Roles h) \<subseteq> granted roles)
      \<and> sv_node srv' = sv_node srv"
  using assms by (rule Check_passes)

definition demo_call :: "string \<Rightarrow> checkRequest" where
  "demo_call policy =
     \<lparr>cq_Http = Some \<lparr>at_Headers = [''x-forwarded-proto'' \<mapsto> ''https'', ''cookie'' \<mapsto> ''bearer=token'',
         ''sec-fetch-mode'' \<mapsto> ''navigate''], at_Host = ''h'', at_Path = ''/app''\<rparr>,
      cq_ContextExtensions = [''accessPolicy'' \<mapsto> policy]\<rparr>"

definition demo_range_headers :: "(string \<rightharpoonup> string) \<Rightarrow> string list" where
  "demo_range_headers m = filter (\<lambda>k. k \<in> dom m) [''x-user'']"

lemma demo_call_request:
  "newRequest demo_logged_in ''https://h/app'' ''bearer=token'' ''navigate'' [''accessPolicy'' \<mapsto> ''ns/web'']
     = Inr (demo_request ''/app'' [] ''token'')"
proof -
  have u: "url_Parse ''https://h/app'' =
      Inr (empty_url\<lparr>url_Scheme := ''https'', url_Host := ''h'', url_Path := ''/app'', url_RawQuery := []\<rparr>)"
    by code_simp
  have c: "readCookies (''bearer'' @ ''='' @ ''token'') = [\<lparr>ck_Name = ''bearer'', ck_Value = ''token''\<rparr>]"
    by (rule read_token_cookie)
       (simp_all add: isCookieNameValid_def isToken_def alphanumeric_def visible_def token_char_def)
  have "sv_policies demo_logged_in = [''ns/web'' \<mapsto> demo_accessPolicy]"
    by (simp add: demo_logged_in_def store_session_def demo_server_def split: prod.split)
  with u c show ?thesis
    by (simp add: newRequest_def Let_def NameKey_def RouteKey_def Get_policy_def demo_request_def)
qed

theorem no_pass_without_rights_witness:
  "\<exists>srv' hs sess. Check demo_env demo_logged_in (demo_call ''ns/web'') demo_range_headers = Ok (srv', OkResponse hs)
     \<and> Get (sv_store demo_logged_in) ''#token'' = Some sess"
proof -
  obtain srv' res where c: "check demo_env demo_logged_in (demo_request ''/app'' [] ''token'') = Ok (srv', res)"
    using demo_check by blast
  have "\<not> isExpired demo_env ()" by (simp add: isExpired_def demo_env_def demo_jwt_def)
  moreover have "set (rt_Roles (rq_route (demo_request ''/app'' [] ''token''))) \<subseteq> granted demo_roles"
    by (auto simp: demo_eval granted_def demo_roles_def)
  ultimately have s: "rs_status res = 200"
    using check_allows [OF demo_orders_ok c] demo_no_callback demo_bearer by blast
  have "\<exists>hs. Check demo_env demo_logged_in (demo_call ''ns/web'') demo_range_headers = Ok (srv', OkResponse hs)"
    by (simp add: Check_def demo_call_def demo_call_request c s)
  then obtain hs where ok: "Check demo_env demo_logged_in (demo_call ''ns/web'') demo_range_headers = Ok (srv', OkResponse hs)"
    by blast
  have r: "\<forall>m. set (demo_range_headers m) \<subseteq> dom m" by (auto simp: demo_range_headers_def)
  have t: "bearer_of (readCookies ''bearer=token'') = ''token''"
    using read_token_cookie [of "''bearer''" "''token''"]
    by (simp add: isCookieNameValid_def isToken_def alphanumeric_def visible_def token_char_def bearerCookie_def)
  have "\<exists>sess. Get (sv_store demo_logged_in) (ev_sha512 demo_env ''token'') = Some sess"
    using no_pass_without_rights [OF demo_orders_ok ok r] t by (auto simp: demo_call_def)
  with ok show ?thesis by (auto simp: demo_env_def)
qed

text \<open>
  A call is refused with status 400, without a header and without a change of any state, exactly
  for a missing policy, a missing route or a bad address, as far as the request cannot be made; it
  never fails with an error, and it panics on its own only when the HTTP attributes are absent.
\<close>

lemma bad_calls_are_refused:
  fixes e :: "('jws, 'reg, 'n) env"
  assumes "cq_Http creq = Some http" and "rh Map.empty = []"
    and "(\<exists>err. url_Parse (named_address http) = Inl err)
      \<or> sv_policies srv (lookup0 [] (cq_ContextExtensions creq) NameKey) = None
      \<or> (\<exists>ap. sv_policies srv (lookup0 [] (cq_ContextExtensions creq) NameKey) = Some ap
           \<and> named_route ap (lookup0 [] (cq_ContextExtensions creq) RouteKey) = None)"
  shows "Check e srv creq rh = Ok (srv, DeniedResponse 400 [])"
proof -
  have "\<exists>err. newRequest srv (named_address http) (lookup0 [] (at_Headers http) ''cookie'')
      (lookup0 [] (at_Headers http) ''sec-fetch-mode'') (cq_ContextExtensions creq)
      = (Inl err :: go_error + 'reg request)"
  proof (rule ccontr)
    assume "\<not> ?thesis"
    then obtain req where "newRequest srv (named_address http) (lookup0 [] (at_Headers http) ''cookie'')
      (lookup0 [] (at_Headers http) ''sec-fetch-mode'') (cq_ContextExtensions creq)
      = (Inr req :: go_error + 'reg request)"
      using sum.exhaust by metis
    with assms(3) show False by (auto simp: newRequest_Inr_iff Get_policy_def)
  qed
  then obtain err where n: "newRequest srv (named_address http) (lookup0 [] (at_Headers http) ''cookie'')
      (lookup0 [] (at_Headers http) ''sec-fetch-mode'') (cq_ContextExtensions creq)
      = (Inl err :: go_error + 'reg request)" by blast
  show ?thesis
    unfolding Check_http [OF assms(1)] n using assms(2) by (simp add: bare_def del: res_bind_eq_Ok)
qed

lemma bad_calls_are_refused_witness:
  "Check demo_env demo_logged_in (demo_call ''ns/other'') demo_range_headers
     = Ok (demo_logged_in, DeniedResponse 400 [])"
proof (rule bad_calls_are_refused)
  show "cq_Http (demo_call ''ns/other'') = Some \<lparr>at_Headers = [''x-forwarded-proto'' \<mapsto> ''https'',
      ''cookie'' \<mapsto> ''bearer=token'', ''sec-fetch-mode'' \<mapsto> ''navigate''], at_Host = ''h'', at_Path = ''/app''\<rparr>"
    by (simp add: demo_call_def)
  show "demo_range_headers Map.empty = []" by (simp add: demo_range_headers_def)
  have "sv_policies demo_logged_in = [''ns/web'' \<mapsto> demo_accessPolicy]"
    by (simp add: demo_logged_in_def store_session_def demo_server_def split: prod.split)
  then show "(\<exists>err. url_Parse (named_address \<lparr>at_Headers = [''x-forwarded-proto'' \<mapsto> ''https'',
        ''cookie'' \<mapsto> ''bearer=token'', ''sec-fetch-mode'' \<mapsto> ''navigate''], at_Host = ''h'', at_Path = ''/app''\<rparr>) = Inl err)
      \<or> sv_policies demo_logged_in (lookup0 [] (cq_ContextExtensions (demo_call ''ns/other'')) NameKey) = None
      \<or> (\<exists>ap. sv_policies demo_logged_in (lookup0 [] (cq_ContextExtensions (demo_call ''ns/other'')) NameKey) = Some ap
           \<and> named_route ap (lookup0 [] (cq_ContextExtensions (demo_call ''ns/other'')) RouteKey) = None)"
    by (simp add: demo_call_def NameKey_def)
qed

lemma RoundTrip_headers_set:
  "set (RoundTrip_headers (Some m)) = {(k, v). k \<in> set fwd \<and> v \<in> set (lookup0 [] m k)}"
  by (auto simp: RoundTrip_headers_def)

end
