(* ===== verification/System_Claims.thy ===== *)
theory System_Claims
  imports Controller_Watch Policy_Worker Filter_Reconciler Auth_Envoy
begin

text \<open>
  Properties of several components together: which changes of the cluster wake which controller, and
  how the filters that a controller writes fit the policies that the auth server has.
\<close>

section \<open>Reads and watches\<close>

lemma Map_policies_mem:
  "ListPolicies K c (Some (mo_Namespace obj)) = Inr ps \<Longrightarrow> p \<in> set ps \<Longrightarrow> rel obj (po_Policy p) \<Longrightarrow>
     policy_key (po_Policy p) \<in> set (Map_policies K True rel c obj)"
  by (auto simp: Map_policies_def)

lemma Map_policies_memD:
  assumes "k \<in> set (Map_policies K True rel c obj)"
  shows "\<exists>ps p. ListPolicies K c (Some (mo_Namespace obj)) = Inr ps \<and> p \<in> set ps
    \<and> policy_key (po_Policy p) = k \<and> rel obj (po_Policy p)"
  using assms by (cases "ListPolicies K c (Some (mo_Namespace obj))") (auto simp: Map_policies_def)

lemma provider_key_slash:
  assumes "provider_key ap = Some key"
  shows "CHR ''/'' \<notin> set (nn_Name key)
    \<and> (CHR ''/'' \<notin> set (ao_Provider (as_OIDC (ap_Spec ap))) \<longrightarrow>
         nn_Namespace key = ap_Namespace ap \<and> nn_Name key = ao_Provider (as_OIDC (ap_Spec ap)))"
proof -
  have no: "name_part x \<Longrightarrow> CHR ''/'' \<notin> set x" for x
    using slash_classes(2) by (auto simp: name_part_def list_all_iff)
  show ?thesis
    using assms by (cases "CHR ''/'' \<in> set (ao_Provider (as_OIDC (ap_Spec ap)))")
      (auto simp: provider_key_cut cut_id dest: no split: prod.splits option.splits if_splits)
qed

text \<open>Names of policies are unique in a namespace, as the API server promises.\<close>

definition keys_unique :: "'c kube \<Rightarrow> 'c \<Rightarrow> bool" where
  "keys_unique K c \<longleftrightarrow>
     (\<forall>ns ns' ps qs p q. ListPolicies K c ns = Inr ps \<and> ListPolicies K c ns' = Inr qs
        \<and> p \<in> set ps \<and> q \<in> set qs \<and> policy_key (po_Policy q) = policy_key (po_Policy p) \<longrightarrow> q = p)"

text \<open>
  C28: What a policy depends on wakes its controller, with one gap. A change of the gateway or of the
  secret that a policy reads is mapped to the policy. A change of the provider it reads is mapped to
  it exactly when the policy names the provider without a namespace; when the name has a namespace,
  even that of the policy, the policy goes on with the old provider.
\<close>

theorem reads_are_mapped:
  assumes "ListPolicies K c (Some (ap_Namespace ap)) = Inr ps" and "p \<in> set ps" and "po_Policy p = ap"
    and "keys_unique K c"
  shows "(mo_Namespace obj = nn_Namespace (gateway_key ap) \<and> mo_Name obj = nn_Name (gateway_key ap) \<longrightarrow>
        policy_key ap \<in> set (newGatewayMapper K c obj))
    \<and> (mo_Namespace obj = nn_Namespace (secret_key ap) \<and> mo_Name obj = nn_Name (secret_key ap) \<longrightarrow>
        policy_key ap \<in> set (newSecretMapper K c obj))
    \<and> (\<forall>key. provider_key ap = Some key \<and> mo_Namespace obj = nn_Namespace key
          \<and> mo_Name obj = nn_Name key \<longrightarrow>
        (policy_key ap \<in> set (newOpenIdProviderMapper K c obj) \<longleftrightarrow>
           CHR ''/'' \<notin> set (ao_Provider (as_OIDC (ap_Spec ap)))))"
proof (intro conjI impI allI)
  assume "mo_Namespace obj = nn_Namespace (gateway_key ap) \<and> mo_Name obj = nn_Name (gateway_key ap)"
  then show "policy_key ap \<in> set (newGatewayMapper K c obj)"
    using Map_policies_mem [of K c obj ps p gwIsRelated] assms(1-3)
    by (simp add: newGatewayMapper_def gwIsRelated_def gateway_key_def)
next
  assume "mo_Namespace obj = nn_Namespace (secret_key ap) \<and> mo_Name obj = nn_Name (secret_key ap)"
  then show "policy_key ap \<in> set (newSecretMapper K c obj)"
    using Map_policies_mem [of K c obj ps p secretIsRelated] assms(1-3)
    by (simp add: newSecretMapper_def secretIsRelated_def secret_key_def)
next
  fix key
  assume key: "provider_key ap = Some key \<and> mo_Namespace obj = nn_Namespace key \<and> mo_Name obj = nn_Name key"
  note slash = provider_key_slash [of ap key]
  show "policy_key ap \<in> set (newOpenIdProviderMapper K c obj) \<longleftrightarrow>
      CHR ''/'' \<notin> set (ao_Provider (as_OIDC (ap_Spec ap)))"
  proof
    assume "policy_key ap \<in> set (newOpenIdProviderMapper K c obj)"
    then obtain qs q where "ListPolicies K c (Some (mo_Namespace obj)) = Inr qs" "q \<in> set qs"
      "policy_key (po_Policy q) = policy_key ap" "opIsRelated obj (po_Policy q)"
      unfolding newOpenIdProviderMapper_def by (blast dest: Map_policies_memD)
    moreover from this have "q = p" using assms unfolding keys_unique_def by blast
    ultimately have "opIsRelated obj (po_Policy p)" by simp
    then show "CHR ''/'' \<notin> set (ao_Provider (as_OIDC (ap_Spec ap)))"
      using slash key assms(3) by (simp add: opIsRelated_def)
  next
    assume "CHR ''/'' \<notin> set (ao_Provider (as_OIDC (ap_Spec ap)))"
    then show "policy_key ap \<in> set (newOpenIdProviderMapper K c obj)"
      using slash key Map_policies_mem [of K c obj ps p opIsRelated] assms(1-3)
      by (simp add: newOpenIdProviderMapper_def opIsRelated_def)
  qed
qed

definition demo_provider_change :: map_object where
  "demo_provider_change =
     \<lparr>mo_Namespace = ''ns'', mo_Name = ''idp'', mo_Labels = Map.empty,
      mo_Object = ProviderObject demo_op\<rparr>"

theorem reads_are_mapped_witness:
  "provider_key demo_policy = Some \<lparr>nn_Namespace = ''ns'', nn_Name = ''idp''\<rparr>
   \<and> policy_key demo_policy \<notin>
       set (newOpenIdProviderMapper (demo_kube [demo_object] None []) () demo_provider_change)"
proof -
  let ?K = "demo_kube [demo_object] None []"
  have l: "ListPolicies ?K () (Some (ap_Namespace demo_policy)) = Inr [demo_object]"
    by (simp add: demo_kube_def demo_object_def)
  have u: "keys_unique ?K ()"
    by (auto simp: keys_unique_def demo_kube_def split: if_splits)
  have o: "po_Policy demo_object = demo_policy" by (simp add: demo_object_def)
  have mem: "demo_object \<in> set [demo_object]" by simp
  let ?key = "\<lparr>nn_Namespace = ''ns'', nn_Name = ''idp''\<rparr>"
  have key: "provider_key demo_policy = Some ?key \<and> mo_Namespace demo_provider_change = nn_Namespace ?key
      \<and> mo_Name demo_provider_change = nn_Name ?key"
    by (simp only: demo_provider_key) (simp add: demo_provider_change_def)
  have slash: "CHR ''/'' \<in> set (ao_Provider (as_OIDC (ap_Spec demo_policy)))"
    by (simp add: demo_policy_def)
  note m = reads_are_mapped [OF l mem o u, where obj = demo_provider_change, THEN conjunct2,
      THEN conjunct2, THEN spec [where x = ?key], THEN mp, OF key]
  show ?thesis
    using m slash by (simp only: demo_provider_key) blast
qed

section \<open>Filters and the auth server\<close>

text \<open>The two conversions of a resource, with and without its secret, differ in the credentials only.\<close>

lemma New_policy_routes_same:
  assumes "New_policy ap s = Ok pol" and "New_policy ap s' = Ok pol'"
  shows "pol_Name pol' = pol_Name pol \<and> pol_Default pol' = pol_Default pol
    \<and> pol_Routes pol' = pol_Routes pol \<and> pol_VirtualHosts pol' = pol_VirtualHosts pol"
  using assms by (auto simp: New_policy_def convert_policy_def split: prod.splits)

lemma New_policy_route_named:
  assumes "New_policy ap s = Ok pol" and "pol_Routes pol r = Some rt"
  shows "r \<noteq> []"
  using assms by (auto simp: New_policy_def convert_policy_def convert_routes_result)

text \<open>A rule that turns the check on names an enforcing route of its policy.\<close>

lemma policy_rules_check:
  assumes "(t, Some (n, r)) \<in> set (policy_rules ks pol)" and "New_policy ap s = Ok pol"
  shows "n = pol_Name pol \<and> (\<exists>route. named_route pol r = Some route \<and> rt_EnableAuthz route)"
proof -
  have "pol_Routes pol [] = None"
    using New_policy_route_named [OF assms(2)] by (cases "pol_Routes pol []") auto
  with assms(1) show ?thesis
    by (auto simp: policy_rules_def vhost_rules_def check_of_def named_route_def
        split: option.splits if_splits)
qed

lemma filter_patch_rule:
  assumes "Envoy_Filter.newEnvoyFilter cfg ks ef pols = Ok ef'" and "p \<in> set (ef_ConfigPatches ef')"
    and "patch_rule p = Some x"
  shows "\<exists>pol \<in> set pols. x \<in> set (policy_rules ks pol)"
proof -
  obtain cs f d ps where ef': "ef' = ef\<lparr>ef_ConfigPatches := cs @ [f, d] @ ps\<rparr>"
    and early: "map patch_rule (cs @ [f, d]) = replicate (length cs + 2) None"
    and rules: "map patch_rule ps = map Some (concat (map (policy_rules ks) pols))"
    using newEnvoyFilter_result [of cfg ks ef pols] assms(1) by auto
  have "patch_rule q = None" if "q \<in> set (cs @ [f, d])" for q
    using early that by (metis image_eqI in_set_replicate set_map)
  with assms(2,3) ef' have "p \<in> set ps" by auto
  then have "Some x \<in> set (map patch_rule ps)" using assms(3) by force
  then show ?thesis by (auto simp: rules)
qed

text \<open>A policy of a filter, of which the auth server has the conversion of the same resource.\<close>

definition in_force ::
  "'c kube \<Rightarrow> 'b worker_env \<Rightarrow> server \<Rightarrow> accessPolicy \<Rightarrow> bool" where
  "in_force K we srv pol \<longleftrightarrow>
     (\<exists>c ap pol2. New_policy ap None = Ok pol \<and> converted K we c ap pol2
        \<and> Get_policy (sv_policies srv) (pol_Name pol2) = Some pol2)"

text \<open>
  C21: The filters and the auth server agree. Take a filter built from policies whose resources the
  auth server has converted too. Whenever one of its patches turns the check on for a virtual host or a
  route, the call that Envoy makes with the names in the patch finds the policy and an enforcing route
  of it, so it is never refused for an unknown policy or route.
\<close>

theorem filters_name_known_routes:
  fixes e :: "('jws, 'reg, 'n) env"
  assumes "Envoy_Filter.newEnvoyFilter cfg ks ef pols = Ok ef'"
    and "\<forall>pol \<in> set pols. in_force K we srv pol"
    and "p \<in> set (ef_ConfigPatches ef')" and "patch_target p = Some t" and "patch_check p = Some (n, r)"
    and "cq_ContextExtensions creq = [NameKey \<mapsto> n, RouteKey \<mapsto> r]" and "cq_Http creq = Some http"
    and "url_Parse (named_address http) = Inr u"
  shows "\<exists>pol route req. Get_policy (sv_policies srv) n = Some pol \<and> named_route pol r = Some route
    \<and> rt_EnableAuthz route \<and> rq_url req = u \<and> rq_policy req = pol \<and> rq_route req = route
    \<and> Check e srv creq rh = res_bind (check e srv req) (\<lambda>(srv', res).
        let hs = map (\<lambda>k. (k, lookup0 [] (rs_headers res) k)) (rh (rs_headers res))
        in Ok (srv', if rs_status res = 200 then OkResponse hs else DeniedResponse (rs_status res) hs))"
proof -
  have "patch_rule p = Some (t, Some (n, r))" using assms(4,5) by (simp add: patch_rule_def)
  then obtain pol where pol: "pol \<in> set pols" "(t, Some (n, r)) \<in> set (policy_rules ks pol)"
    using filter_patch_rule [OF assms(1,3)] by blast
  obtain c ap pol2 where ap: "New_policy ap None = Ok pol" and conv: "converted K we c ap pol2"
    and get: "Get_policy (sv_policies srv) (pol_Name pol2) = Some pol2"
    using assms(2) pol(1) unfolding in_force_def by blast
  obtain route where n: "n = pol_Name pol" and route: "named_route pol r = Some route" "rt_EnableAuthz route"
    using policy_rules_check [OF pol(2) ap] by blast
  have same: "pol_Name pol2 = pol_Name pol \<and> pol_Default pol2 = pol_Default pol
      \<and> pol_Routes pol2 = pol_Routes pol"
    using conv New_policy_routes_same [OF ap] by (auto simp: converted_def)
  then have route2: "named_route pol2 r = Some route"
    using route(1) by (auto simp: named_route_def split: if_splits)
  have "newRequest srv (named_address http) (lookup0 [] (at_Headers http) ''cookie'')
      (lookup0 [] (at_Headers http) ''sec-fetch-mode'') (cq_ContextExtensions creq) =
    Inr (\<lparr>rq_url = u, rq_cookies = readCookies (lookup0 [] (at_Headers http) ''cookie''),
      rq_fetchMode = lookup0 [] (at_Headers http) ''sec-fetch-mode'', rq_policy = pol2,
      rq_route = route, rq_claims = None, rq_session = None\<rparr> :: 'reg request)"
    (is "_ = Inr ?req")
    unfolding newRequest_Inr_iff
    using assms(6,8) get route2 n same keys_differ by auto
  then have "Check e srv creq rh = res_bind (check e srv ?req) (\<lambda>(srv', res).
      let hs = map (\<lambda>k. (k, lookup0 [] (rs_headers res) k)) (rh (rs_headers res))
      in Ok (srv', if rs_status res = 200 then OkResponse hs else DeniedResponse (rs_status res) hs))"
    by (simp add: Check_http [OF assms(7)])
  with get route2 route(2) n same show ?thesis
    by (intro exI [of _ pol2] exI [of _ route] exI [of _ ?req]) simp
qed

lemma demo_selected_converted:
  "\<exists>pol. converted (demo_kube ps (Some demo_secret) efs) demo_worker c (po_Policy demo_selected) pol"
proof -
  have spec: "ap_Spec (po_Policy demo_selected) = ap_Spec demo_policy"
    "ap_Namespace (po_Policy demo_selected) = ap_Namespace demo_policy"
    by (simp_all add: demo_selected_def)
  have key: "provider_key (po_Policy demo_selected) = provider_key demo_policy"
    "named_secret (po_Policy demo_selected) = named_secret demo_policy"
    unfolding provider_key_def spec by simp_all
  obtain newAp where "New_policy (po_Policy demo_selected) (Some demo_secret) = Ok newAp"
    by (simp add: New_policy_def convert_policy_def convert_oidc_def demo_callback_parses
        demo_selected_def demo_policy_def demo_secret_def split: prod.splits)
  moreover have "named_secret demo_policy = \<lparr>nn_Namespace = ''ns'', nn_Name = ''s''\<rparr>"
    by (simp add: demo_policy_def)
  ultimately show ?thesis
    by (auto simp: converted_def demo_provider_key key demo_kube_def demo_op_def data_map_def
        New_provider_def convert_provider_def doJsonRequest_def demo_worker_def convert_mappings_def)
qed

lemma demo_selected_policy:
  "\<exists>pol. New_policy (po_Policy demo_selected) None = Ok pol \<and> pol_Name pol = ''ns/web''
     \<and> rt_EnableAuthz (pol_Default pol) \<and> pol_VirtualHosts pol = [''a.io:443'']"
  by (simp add: New_policy_def convert_policy_def convert_oidc_def demo_callback_parses convert_route_def
      demo_selected_def demo_policy_def split: prod.splits)

theorem filters_name_known_routes_witness:
  "\<exists>(srv :: server) ef' pol p pol2 route.
     Envoy_Filter.newEnvoyFilter (fe_ExtAuthz demo_filter_env) (fe_range_routes demo_filter_env)
       (demo_filter ''f'' 5) [pol] = Ok ef'
     \<and> p \<in> set (ef_ConfigPatches ef') \<and> patch_check p = Some (''ns/web'', [])
     \<and> Get_policy (sv_policies srv) ''ns/web'' = Some pol2 \<and> named_route pol2 [] = Some route
     \<and> rt_EnableAuthz route"
proof -
  let ?ks = "fe_range_routes demo_filter_env"
  let ?K = "demo_kube [] (Some demo_secret) []"
  obtain pol where pol: "New_policy (po_Policy demo_selected) None = Ok pol" "pol_Name pol = ''ns/web''"
    "rt_EnableAuthz (pol_Default pol)" "pol_VirtualHosts pol = [''a.io:443'']"
    using demo_selected_policy by blast
  obtain pol2 where conv: "converted ?K demo_worker () (po_Policy demo_selected) pol2"
    using demo_selected_converted by blast
  have name2: "pol_Name pol2 = ''ns/web''"
    using converted_Name [OF conv] by (simp add: demo_selected_def demo_policy_def)
  define srv where "srv = demo_server\<lparr>sv_policies := [''ns/web'' \<mapsto> pol2]\<rparr>"
  have force: "\<forall>q \<in> set [pol]. in_force ?K demo_worker srv q"
    using pol(1) conv name2 by (auto simp: in_force_def srv_def Get_policy_def)
  obtain cs f d ps where new: "Envoy_Filter.newEnvoyFilter (fe_ExtAuthz demo_filter_env) ?ks
      (demo_filter ''f'' 5) [pol] = Ok (demo_filter ''f'' 5\<lparr>ef_ConfigPatches := cs @ [f, d] @ ps\<rparr>)"
    (is "_ = Ok ?ef'")
    and rules: "map patch_rule ps = map Some (concat (map (policy_rules ?ks) [pol]))"
    using newEnvoyFilter_result by blast
  have "Some ((''a.io:443'', None), Some (''ns/web'', [])) \<in> set (map patch_rule ps)"
    unfolding rules using pol by (auto simp: policy_rules_def vhost_rules_def check_of_def)
  then obtain p where p: "p \<in> set ps" "patch_rule p = Some ((''a.io:443'', None), Some (''ns/web'', []))"
    by auto
  then have target: "patch_target p = Some (''a.io:443'', None)" "patch_check p = Some (''ns/web'', [])"
    by (auto simp: patch_rule_def)
  have mem: "p \<in> set (ef_ConfigPatches ?ef')" using p(1) by simp
  define creq where "creq = \<lparr>cq_Http = cq_Http (demo_call ''ns/web''),
    cq_ContextExtensions = [NameKey \<mapsto> ''ns/web'', RouteKey \<mapsto> []]\<rparr>"
  obtain http where http: "cq_Http creq = Some http" "named_address http = ''https://h/app''"
    by (simp add: creq_def demo_call_def named_address_def)
  have u: "url_Parse (named_address http) =
      Inr (empty_url\<lparr>url_Scheme := ''https'', url_Host := ''h'', url_Path := ''/app'', url_RawQuery := []\<rparr>)"
    unfolding http(2) by code_simp
  have ext: "cq_ContextExtensions creq = [NameKey \<mapsto> ''ns/web'', RouteKey \<mapsto> []]"
    by (simp add: creq_def)
  from filters_name_known_routes [where e = demo_env, OF new force mem target ext http(1) u]
  obtain pol3 route where "Get_policy (sv_policies srv) ''ns/web'' = Some pol3"
    "named_route pol3 [] = Some route" "rt_EnableAuthz route" by blast
  with new mem target(2) show ?thesis
    by (intro exI [of _ srv] exI [of _ ?ef'] exI [of _ pol] exI [of _ p] exI [of _ pol3]
        exI [of _ route] conjI)
qed

section \<open>Policies that do not convert\<close>

definition bad_callback :: "apiAccessPolicy \<Rightarrow> bool" where
  "bad_callback ap \<longleftrightarrow> \<not> callback_ok (ao_CallbackPath (as_OIDC (ap_Spec ap)))"

lemma bad_callback_not_converted: "bad_callback ap \<Longrightarrow> New_policy ap s \<noteq> Ok pol"
  using new_policy_succeeds_iff [of ap s] by (auto simp: bad_callback_def)

lemma New_policy_hosts: "New_policy ap s = Ok pol \<Longrightarrow> pol_VirtualHosts pol = st_VirtualHosts (ap_Status ap)"
  by (auto simp: New_policy_def convert_policy_def split: prod.splits)

lemma filter_policies_source:
  assumes "pol \<in> set (filter_policies ef ps)"
  obtains p where "p \<in> set ps" and "policy_selector (po_Policy p) = filter_selector ef"
    and "New_policy (po_Policy p) None = Ok pol"
proof -
  obtain p where "p \<in> set ps" "policy_selector (po_Policy p) = filter_selector ef" "converts p = Some pol"
    using assms by (auto simp: filter_policies_def List.map_filter_def)
  moreover from this(3) have "New_policy (po_Policy p) None = Ok pol"
    by (simp add: converts_def split: res.splits)
  ultimately show thesis using that by blast
qed

lemma policy_rules_hosts: "((v, r), x) \<in> set (policy_rules ks pol) \<Longrightarrow> v \<in> set (pol_VirtualHosts pol)"
  by (auto simp: policy_rules_def vhost_rules_def)

lemma newEnvoyFilter_disables:
  assumes "Envoy_Filter.newEnvoyFilter cfg ks ef pols = Ok ef'"
  shows "\<exists>d \<in> set (ef_ConfigPatches ef'). cp_ApplyTo d = VIRTUAL_HOST \<and> patch_disables d
    \<and> cp_Match d = Some \<lparr>ma_Context = GATEWAY, ma_ObjectTypes = None\<rparr>"
proof -
  obtain cs f d ps where ef': "ef' = ef\<lparr>ef_ConfigPatches := cs @ [f, d] @ ps\<rparr>"
    and d: "cp_ApplyTo d = VIRTUAL_HOST \<and> patch_disables d
      \<and> cp_Match d = Some \<lparr>ma_Context = GATEWAY, ma_ObjectTypes = None\<rparr>"
    using newEnvoyFilter_result [of cfg ks ef pols] assms by auto
  have "d \<in> set (ef_ConfigPatches ef')" by (simp add: ef')
  with d show ?thesis by blast
qed

text \<open>
  C3: A policy that does not convert leaves its virtual hosts open. When every policy of a filter that
  lists a virtual host has a callback path that does not parse, the next successful reconciliation of
  the filter removes it, or writes it with the check turned off for all virtual hosts and with no rule
  for this one, so Envoy lets its requests through without asking the auth server.
\<close>

theorem bad_callback_opens_host:
  assumes "GetFilter K (w_cluster w) req = Found ef" and "Reconcile_filter K e req w = (w', Ok ())"
    and "ListPolicies K (w_cluster w) None = Inr ps"
    and "\<forall>p \<in> set ps. policy_selector (po_Policy p) = filter_selector ef
        \<and> v \<in> set (st_VirtualHosts (ap_Status (po_Policy p))) \<longrightarrow> bad_callback (po_Policy p)"
  shows "adds w w' [RemoveFilter ef]
    \<or> (\<exists>ef'. adds w w' [WriteFilter ef']
         \<and> (\<exists>d \<in> set (ef_ConfigPatches ef'). cp_ApplyTo d = VIRTUAL_HOST \<and> patch_disables d
              \<and> cp_Match d = Some \<lparr>ma_Context = GATEWAY, ma_ObjectTypes = None\<rparr>)
         \<and> (\<forall>x \<in> set (ef_ConfigPatches ef'). \<forall>r. patch_target x \<noteq> Some (v, r)))"
proof -
  have "adds w w' [RemoveFilter ef]
      \<or> (\<exists>ef'. adds w w' [WriteFilter ef']
           \<and> Envoy_Filter.newEnvoyFilter (fe_ExtAuthz e) (fe_range_routes e) ef (filter_policies ef ps) = Ok ef')"
    using Reconcile_filter_outcome [OF assms(1,2)] assms(3) by (auto split: if_splits)
  then show ?thesis
  proof (elim disjE exE conjE)
    fix ef'
    assume sent: "adds w w' [WriteFilter ef']"
      and new: "Envoy_Filter.newEnvoyFilter (fe_ExtAuthz e) (fe_range_routes e) ef (filter_policies ef ps) = Ok ef'"
    have "patch_target x \<noteq> Some (v, r)" if x: "x \<in> set (ef_ConfigPatches ef')" for x r
    proof
      assume "patch_target x = Some (v, r)"
      then obtain pol where pol: "pol \<in> set (filter_policies ef ps)"
        and rule: "((v, r), patch_check x) \<in> set (policy_rules (fe_range_routes e) pol)"
        using filter_patch_rule [OF new x] by (auto simp: patch_rule_def)
      obtain p where p: "p \<in> set ps" "policy_selector (po_Policy p) = filter_selector ef"
        "New_policy (po_Policy p) None = Ok pol"
        by (rule filter_policies_source [OF pol])
      have "v \<in> set (st_VirtualHosts (ap_Status (po_Policy p)))"
        using policy_rules_hosts [OF rule] New_policy_hosts [OF p(3)] by simp
      with assms(4) p(1,2) have "bad_callback (po_Policy p)" by blast
      with p(3) bad_callback_not_converted show False by blast
    qed
    with sent newEnvoyFilter_disables [OF new] show ?thesis by blast
  qed blast
qed

definition demo_broken :: policy_object where
  "demo_broken = demo_selected\<lparr>po_Policy := (po_Policy demo_selected)\<lparr>
     ap_Spec := (ap_Spec demo_policy)\<lparr>as_OIDC := (as_OIDC (ap_Spec demo_policy))\<lparr>ao_CallbackPath := ''%''\<rparr>\<rparr>,
     ap_Status := \<lparr>st_Ingress = \<lparr>ai_Selector = Some [''istio'' \<mapsto> ''gw'']\<rparr>, st_VirtualHosts = [''b.io:443'']\<rparr>\<rparr>\<rparr>"

theorem bad_callback_opens_host_witness:
  "\<exists>w' ef'. Reconcile_filter (demo_kube [demo_broken, demo_selected] None [demo_filter ''f'' 5]) demo_filter_env
       \<lparr>nn_Namespace = ''istio-system'', nn_Name = ''f''\<rparr> demo_world = (w', Ok ())
     \<and> adds demo_world w' [WriteFilter ef']
     \<and> (\<forall>x \<in> set (ef_ConfigPatches ef'). \<forall>r. patch_target x \<noteq> Some (''b.io:443'', r))"
proof -
  let ?K = "demo_kube [demo_broken, demo_selected] None [demo_filter ''f'' 5]"
  let ?ef = "demo_filter ''f'' 5"
  have bad: "bad_callback (po_Policy demo_broken)"
    unfolding bad_callback_def callback_ok_def demo_broken_def by code_simp
  have keep: "filter_policies ?ef [demo_broken, demo_selected] \<noteq> []"
    using demo_filter_policies [of "''f''" 5]
    by (auto simp: filter_policies_def map_filter_simps split: if_splits option.splits)
  then obtain w' where run: "Reconcile_filter ?K demo_filter_env
      \<lparr>nn_Namespace = ''istio-system'', nn_Name = ''f''\<rparr> demo_world = (w', Ok ())"
    using demo_filter_run by blast
  have get: "GetFilter ?K (w_cluster demo_world) \<lparr>nn_Namespace = ''istio-system'', nn_Name = ''f''\<rparr> = Found ?ef"
    by (simp add: demo_filter_defs)
  have ps: "ListPolicies ?K (w_cluster demo_world) None = Inr [demo_broken, demo_selected]"
    by (simp add: demo_kube_def)
  have hosts: "\<forall>p \<in> set [demo_broken, demo_selected].
      policy_selector (po_Policy p) = filter_selector ?ef
        \<and> ''b.io:443'' \<in> set (st_VirtualHosts (ap_Status (po_Policy p))) \<longrightarrow> bad_callback (po_Policy p)"
    using bad by (simp add: demo_selected_def)
  have sort: "fe_sort demo_filter_env (same_selector ?ef [?ef]) = [?ef]"
    by (simp add: demo_filter_env_def same_selector_def)
  have "\<not> adds demo_world w' [RemoveFilter ?ef]"
  proof
    assume "adds demo_world w' [RemoveFilter ?ef]"
    moreover from Reconcile_filter_outcome [OF get run] keep ps have "\<exists>ef'. adds demo_world w' [WriteFilter ef']"
      unfolding demo_filter_list using sort by (auto split: if_splits)
    ultimately show False by (auto simp: adds_def)
  qed
  with bad_callback_opens_host [OF get run ps hosts] run show ?thesis by blast
qed

end
