(* ===== verification/Controller_Role.thy ===== *)
theory Controller_Role
  imports Policy_Worker Filter_Reconciler Controller_Watch
begin

text \<open>
  The permissions of the controllers (\<^verbatim>\<open>src/controller/role.go\<close>, from which the cluster role of the
  deployment is generated), the permission that each call needs, and what an API server that enforces
  the role makes of the reconcilers.
\<close>

section \<open>The role\<close>

record permission =
  pm_Group :: string
  pm_Resource :: string
  pm_Verbs :: "string list"

definition cluster_role :: "permission list" where
  "cluster_role =
     [\<lparr>pm_Group = [], pm_Resource = ''configmaps'', pm_Verbs = [''create'', ''get'', ''update'']\<rparr>,
      \<lparr>pm_Group = ''krsdev.app'', pm_Resource = ''openidproviders'',
       pm_Verbs = [''get'', ''list'', ''watch'']\<rparr>,
      \<lparr>pm_Group = ''krsdev.app'', pm_Resource = ''accesspolicies'',
       pm_Verbs = [''get'', ''list'', ''update'', ''watch'']\<rparr>,
      \<lparr>pm_Group = ''krsdev.app'', pm_Resource = ''accesspolicies/status'', pm_Verbs = [''update'']\<rparr>,
      \<lparr>pm_Group = ''networking.istio.io'', pm_Resource = ''gateways'',
       pm_Verbs = [''get'', ''list'', ''watch'']\<rparr>,
      \<lparr>pm_Group = ''networking.istio.io'', pm_Resource = ''envoyfilters'',
       pm_Verbs = [''create'', ''get'', ''list'', ''update'', ''watch'']\<rparr>,
      \<lparr>pm_Group = [], pm_Resource = ''secrets'',
       pm_Verbs = [''create'', ''get'', ''list'', ''update'', ''watch'']\<rparr>,
      \<lparr>pm_Group = [], pm_Resource = ''events'', pm_Verbs = [''create'', ''patch'']\<rparr>]"

text \<open>Which request a call sends: its API group, resource and verb.\<close>

fun call_request :: "call \<Rightarrow> string \<times> string \<times> string" where
  "call_request (Event obj etype reason msg) = ([], ''events'', ''create'')"
| "call_request (WritePolicy p) = (''krsdev.app'', ''accesspolicies'', ''update'')"
| "call_request (WriteStatus p) = (''krsdev.app'', ''accesspolicies/status'', ''update'')"
| "call_request (WriteSecret sc) = ([], ''secrets'', ''update'')"
| "call_request (NewFilter ef) = (''networking.istio.io'', ''envoyfilters'', ''create'')"
| "call_request (WriteFilter ef) = (''networking.istio.io'', ''envoyfilters'', ''update'')"
| "call_request (RemoveFilter ef) = (''networking.istio.io'', ''envoyfilters'', ''delete'')"

definition permits :: "permission list \<Rightarrow> string \<times> string \<times> string \<Rightarrow> bool" where
  "permits role rq =
     (case rq of (grp, resource, verb) \<Rightarrow>
        list_ex (\<lambda>pm. pm_Group pm = grp \<and> pm_Resource pm = resource \<and> verb \<in> set (pm_Verbs pm)) role)"

text \<open>
  An API server that enforces a role: a request that no rule permits is answered with an error and
  changes nothing. The events go through a recorder of their own.
\<close>

definition forbidden :: go_error where
  "forbidden = Foreign ''forbidden''"

definition guard_get :: "bool \<Rightarrow> ('c \<Rightarrow> named \<Rightarrow> 'a got) \<Rightarrow> 'c \<Rightarrow> named \<Rightarrow> 'a got" where
  "guard_get ok get = (\<lambda>c k. if ok then get c k else Failed forbidden)"

definition guard_write :: "bool \<Rightarrow> ('a \<Rightarrow> 'c \<Rightarrow> 'c \<times> (go_error + 'a)) \<Rightarrow> 'a \<Rightarrow> 'c \<Rightarrow> 'c \<times> (go_error + 'a)" where
  "guard_write ok write = (\<lambda>x c. if ok then write x c else (c, Inl forbidden))"

definition under_role :: "permission list \<Rightarrow> 'c kube \<Rightarrow> 'c kube" where
  "under_role role K =
     \<lparr>GetPolicy = guard_get (permits role (''krsdev.app'', ''accesspolicies'', ''get'')) (GetPolicy K),
      ListPolicies = (\<lambda>c ns. if permits role (''krsdev.app'', ''accesspolicies'', ''list'')
          then ListPolicies K c ns else Inl forbidden),
      UpdatePolicy = guard_write (permits role (''krsdev.app'', ''accesspolicies'', ''update'')) (UpdatePolicy K),
      UpdatePolicyStatus =
        guard_write (permits role (''krsdev.app'', ''accesspolicies/status'', ''update'')) (UpdatePolicyStatus K),
      GetGateway = guard_get (permits role (''networking.istio.io'', ''gateways'', ''get'')) (GetGateway K),
      GetProvider = guard_get (permits role (''krsdev.app'', ''openidproviders'', ''get'')) (GetProvider K),
      GetSecret = guard_get (permits role ([], ''secrets'', ''get'')) (GetSecret K),
      UpdateSecret = guard_write (permits role ([], ''secrets'', ''update'')) (UpdateSecret K),
      GetFilter = guard_get (permits role (''networking.istio.io'', ''envoyfilters'', ''get'')) (GetFilter K),
      ListFilters = (\<lambda>c ns ls. if permits role (''networking.istio.io'', ''envoyfilters'', ''list'')
          then ListFilters K c ns ls else Inl forbidden),
      CreateFilter = guard_write (permits role (''networking.istio.io'', ''envoyfilters'', ''create'')) (CreateFilter K),
      UpdateFilter = guard_write (permits role (''networking.istio.io'', ''envoyfilters'', ''update'')) (UpdateFilter K),
      DeleteFilter = guard_write (permits role (''networking.istio.io'', ''envoyfilters'', ''delete'')) (DeleteFilter K)\<rparr>"

text \<open>
  The manager answers reads from a cache that it fills by listing and watching; it watches the kinds
  that the controllers register.
\<close>

fun source_resource :: "source \<Rightarrow> string \<times> string" where
  "source_resource PolicyKind = (fst GroupVersion, ''accesspolicies'')"
| "source_resource ProviderKind = (fst GroupVersion, ''openidproviders'')"
| "source_resource GatewayKind = (''networking.istio.io'', ''gateways'')"
| "source_resource SecretKind = ([], ''secrets'')"
| "source_resource FilterKind = (''networking.istio.io'', ''envoyfilters'')"

definition watchable :: "permission list \<Rightarrow> source \<Rightarrow> bool" where
  "watchable role kind \<longleftrightarrow>
     (case source_resource kind of (grp, resource) \<Rightarrow>
        permits role (grp, resource, ''list'') \<and> permits role (grp, resource, ''watch''))"

abbreviation permitted :: "call \<Rightarrow> bool" where
  "permitted c \<equiv> permits cluster_role (call_request c)"

lemma permitted_iff: "permitted c \<longleftrightarrow> (\<forall>ef. c \<noteq> RemoveFilter ef)"
  by (cases c) (simp_all add: permits_def cluster_role_def)

section \<open>The calls of a run\<close>

text \<open>
  \<open>calls_only P w r\<close>: a run from \<open>w\<close> with the result \<open>r\<close> added only calls with \<open>P\<close>; \<open>makes\<close> says
  that it left the policy store alone, too.
\<close>

definition calls_only :: "(call \<Rightarrow> bool) \<Rightarrow> 'c world \<Rightarrow> 'c world \<times> 'r \<Rightarrow> bool" where
  "calls_only P w r \<longleftrightarrow> (\<exists>cs. w_calls (fst r) = w_calls w @ cs \<and> list_all P cs)"

definition makes :: "(call \<Rightarrow> bool) \<Rightarrow> 'c world \<Rightarrow> 'c world \<times> 'r \<Rightarrow> bool" where
  "makes P w r \<longleftrightarrow> (\<exists>cs. adds w (fst r) cs \<and> list_all P cs)"

named_theorems makes_intros

lemma makes_same [makes_intros]: "makes P w (w, r)"
  by (auto simp: makes_def intro: adds_refl)

lemma makes_return [makes_intros]: "makes P w (act_return x w)"
  by (auto simp: makes_def act_return_def intro: adds_refl)

lemma makes_fail [makes_intros]: "makes P w (act_fail err w)"
  by (auto simp: makes_def act_fail_def intro: adds_refl)

lemma makes_record [makes_intros]: "list_all P cs \<Longrightarrow> makes P w (record_calls cs w)"
  by (auto simp: makes_def record_calls_def adds_def)

lemma makes_send [makes_intros]: "P (mk_call x) \<Longrightarrow> makes P w (send write mk_call on_err x w)"
  by (simp add: makes_def adds_def send_calls)

lemma makes_trans: "makes P w (w1, r1) \<Longrightarrow> makes P w1 r2 \<Longrightarrow> makes P w r2"
  by (fastforce simp: makes_def intro: adds_trans)

lemma makes_bind [makes_intros]:
  assumes "makes P w (m w)" and "\<And>x w'. makes P w' (f x w')"
  shows "makes P w (act_bind m f w)"
proof (cases "m w")
  case (Pair w' r)
  show ?thesis
  proof (cases r)
    case (Ok x)
    with Pair have "makes P w (f x w')" using makes_trans [OF _ assms(2)] assms(1) by fastforce
    with Pair Ok show ?thesis by (simp add: act_bind_def)
  qed (use assms(1) Pair in \<open>simp_all add: act_bind_def makes_def\<close>)
qed

lemma makes_calls_only: "makes P w r \<Longrightarrow> (\<And>c. P c \<Longrightarrow> Q c) \<Longrightarrow> calls_only Q w r"
  unfolding makes_def adds_def calls_only_def by (meson list.pred_mono_strong)

lemma calls_only_mono: "calls_only P w r \<Longrightarrow> (\<And>c. P c \<Longrightarrow> Q c) \<Longrightarrow> calls_only Q w r"
  unfolding calls_only_def by (meson list.pred_mono_strong)

lemma makes_policies: "makes P w r \<Longrightarrow> w_policies (fst r) = w_policies w"
  by (auto simp: makes_def adds_def)

lemma permitted_writes [simp]:
  "permits cluster_role ([], ''events'', ''create'')"
  "permits cluster_role (''krsdev.app'', ''accesspolicies'', ''update'')"
  "permits cluster_role (''krsdev.app'', ''accesspolicies/status'', ''update'')"
  "permits cluster_role ([], ''secrets'', ''update'')"
  "permits cluster_role (''networking.istio.io'', ''envoyfilters'', ''create'')"
  by (simp_all add: permits_def cluster_role_def)

lemma Reconcile_leader_makes: "makes permitted w (Reconcile_leader K e req w)"
proof -
  have spec: "makes permitted w (reconcileSpec K p w)" for p w
    unfolding reconcileSpec_def
    by (intro makes_intros) (auto simp: list_all_iff policy_event_def)
  have event: "permitted (policy_event ap et r m)" and event': "permitted (secret_event sc et r m)"
    for ap sc et r m
    by (simp_all add: policy_event_def secret_event_def)
  have status: "makes permitted w (reconcileStatus K e p w)" for p w
    unfolding reconcileStatus_def Let_def
    by (simp split: got.split res.split)
       (intro conjI allI impI makes_intros; simp add: event)
  have update: "makes permitted w (update_secret K e ap sc w)" for ap sc w
    unfolding update_secret_def write_secret_def Let_def
    by (simp split: option.split sum.split)
       (intro conjI allI impI makes_intros; simp add: both_events_def event event')
  have secret: "makes permitted w (reconcileSecret K e ap w)" for ap w
    unfolding reconcileSecret_def Let_def
    by (simp split: got.split)
       (intro conjI allI impI makes_intros update; simp add: both_events_def event event')
  have filter: "makes permitted w (reconcileEnvoyFilter K e ap w)" for ap w
    unfolding reconcileEnvoyFilter_def Let_def
    by (simp split: sum.split) (intro conjI allI impI makes_intros; simp)
  have live: "makes permitted w (reconcile_live K e p w)" for p w
    unfolding reconcile_live_def by (intro makes_intros spec status secret filter)
  show ?thesis
    by (auto simp: Reconcile_leader_def intro!: makes_intros live split: got.splits)
qed

lemma Reconcile_worker_calls:
  "calls_only (\<lambda>c. \<exists>obj t r m. c = Event obj t r m) w (Reconcile_worker K e req w)"
  by (auto simp: calls_only_def Reconcile_worker_def reconcileAuth_def deleteAuth_def warn_def
      record_calls_def policy_event_def provider_event_def
      split: got.splits option.splits res.splits)

lemma Reconcile_filter_makes:
  "makes (\<lambda>c. (\<exists>ef. c = WriteFilter ef) \<or> (\<exists>ef. c = RemoveFilter ef)) w (Reconcile_filter K e req w)"
proof -
  have dup: "makes P w (isDuplicate K e ef w)" for P ef w
    by (auto simp: isDuplicate_def intro!: makes_intros split: sum.splits list.splits)
  have fetch: "makes P w (fetchAccessPolicies K ef w)" for P ef w
    by (auto simp: fetchAccessPolicies_def intro!: makes_intros split: sum.splits)
  show ?thesis
    by (auto simp: Reconcile_filter_def intro!: makes_intros dup fetch split: got.splits res.splits)
qed

section \<open>The contract of a reconciler\<close>

text \<open>
  What the three reconcilers have in common: each makes calls of certain kinds only and keeps a
  property of the world, and so does any sequence of reconciliations, whatever their results.
\<close>

lemma calls_only_trans:
  "calls_only P w (w1, r1) \<Longrightarrow> calls_only P w1 r2 \<Longrightarrow> calls_only P w r2"
  by (auto simp: calls_only_def)

locale reconciler =
  fixes run :: "named \<Rightarrow> 'c world \<Rightarrow> 'c world \<times> (go_error, unit) res"
    and may :: "call \<Rightarrow> bool"
    and keeps :: "'c world \<Rightarrow> bool"
  assumes run_calls: "calls_only may w (run req w)"
    and run_keeps: "keeps w \<Longrightarrow> keeps (fst (run req w))"
begin

definition work :: "named list \<Rightarrow> 'c world \<Rightarrow> 'c world" where
  "work reqs w = fold (\<lambda>req w. fst (run req w)) reqs w"

lemma work_calls: "calls_only may w (work reqs w, ())"
proof (induction reqs arbitrary: w)
  case Nil
  show ?case by (simp add: work_def calls_only_def)
next
  case (Cons req reqs)
  have "calls_only may w (fst (run req w), ())"
    using run_calls [of w req] by (simp add: calls_only_def)
  from calls_only_trans [OF this Cons.IH] show ?case by (simp add: work_def)
qed

lemma work_keeps: "keeps w \<Longrightarrow> keeps (work reqs w)"
  by (induction reqs arbitrary: w) (simp_all add: work_def run_keeps)

end

interpretation leader: reconciler "Reconcile_leader K e" permitted "\<lambda>w. w_policies w = s0" for K e s0
  by unfold_locales
     (auto intro: makes_calls_only [OF Reconcile_leader_makes] simp: makes_policies [OF Reconcile_leader_makes])

interpretation worker: reconciler "Reconcile_worker K e" "\<lambda>c. \<exists>obj t r m. c = Event obj t r m"
    "\<lambda>w. w_cluster w \<in> C \<and> policies_converted K e C (w_policies w)" for K e C
  by unfold_locales (auto intro: Reconcile_worker_calls Reconcile_worker_converted)

interpretation filler: reconciler "Reconcile_filter K e"
    "\<lambda>c. (\<exists>ef. c = WriteFilter ef) \<or> (\<exists>ef. c = RemoveFilter ef)" "\<lambda>w. w_policies w = s0" for K e s0
  by unfold_locales
     (auto intro: makes_calls_only [OF Reconcile_filter_makes] simp: makes_policies [OF Reconcile_filter_makes])

section \<open>A server that enforces the role\<close>

text \<open>The law of role-based access control: a request that no rule of the role permits is refused.\<close>

definition refuses :: "(call \<Rightarrow> bool) \<Rightarrow> ('a \<Rightarrow> 'c \<Rightarrow> 'c \<times> (go_error + 'a)) \<Rightarrow> ('a \<Rightarrow> call) \<Rightarrow> bool" where
  "refuses P write mk_call \<longleftrightarrow>
     (\<forall>x c. \<not> P (mk_call x) \<longrightarrow> (\<exists>err. write x c = (c, Inl err)))"

definition enforces_role :: "'c kube \<Rightarrow> bool" where
  "enforces_role K \<longleftrightarrow>
     refuses permitted (UpdatePolicy K) WritePolicy
     \<and> refuses permitted (UpdatePolicyStatus K) WriteStatus
     \<and> refuses permitted (UpdateSecret K) WriteSecret
     \<and> refuses permitted (CreateFilter K) NewFilter
     \<and> refuses permitted (UpdateFilter K) WriteFilter
     \<and> refuses permitted (DeleteFilter K) RemoveFilter"

lemma delete_refused:
  assumes "enforces_role K"
  shows "\<exists>err. send (DeleteFilter K) RemoveFilter g ef w =
    (w\<lparr>w_calls := w_calls w @ [RemoveFilter ef]\<rparr>, Err (g err))"
proof -
  obtain err where "DeleteFilter K ef (w_cluster w) = (w_cluster w, Inl err)"
    using assms permitted_iff [of "RemoveFilter ef"]
    unfolding enforces_role_def refuses_def by blast
  then show ?thesis by (auto simp: send_def)
qed

section \<open>What the cluster role takes away\<close>

text \<open>Under the cluster role a client can do all that it could do without, except delete filters.\<close>

lemma under_cluster_role:
  "under_role cluster_role K = K\<lparr>DeleteFilter := \<lambda>x c. (c, Inl forbidden)\<rparr>"
  by (cases K) (simp add: under_role_def guard_get_def guard_write_def permits_def cluster_role_def)

lemma under_cluster_role_enforces: "enforces_role (under_role cluster_role K)"
  by (auto simp: under_cluster_role enforces_role_def refuses_def permitted_iff)

lemma other_operations:
  "GetPolicy (K\<lparr>DeleteFilter := d\<rparr>) = GetPolicy K" "ListPolicies (K\<lparr>DeleteFilter := d\<rparr>) = ListPolicies K"
  "UpdatePolicy (K\<lparr>DeleteFilter := d\<rparr>) = UpdatePolicy K"
  "UpdatePolicyStatus (K\<lparr>DeleteFilter := d\<rparr>) = UpdatePolicyStatus K"
  "GetGateway (K\<lparr>DeleteFilter := d\<rparr>) = GetGateway K" "GetProvider (K\<lparr>DeleteFilter := d\<rparr>) = GetProvider K"
  "GetSecret (K\<lparr>DeleteFilter := d\<rparr>) = GetSecret K" "UpdateSecret (K\<lparr>DeleteFilter := d\<rparr>) = UpdateSecret K"
  "GetFilter (K\<lparr>DeleteFilter := d\<rparr>) = GetFilter K" "ListFilters (K\<lparr>DeleteFilter := d\<rparr>) = ListFilters K"
  "CreateFilter (K\<lparr>DeleteFilter := d\<rparr>) = CreateFilter K" "UpdateFilter (K\<lparr>DeleteFilter := d\<rparr>) = UpdateFilter K"
  by simp_all

lemma leader_deletes_nothing: "Reconcile_leader (K\<lparr>DeleteFilter := d\<rparr>) e req w = Reconcile_leader K e req w"
proof -
  have spec: "reconcileSpec (K\<lparr>DeleteFilter := d\<rparr>) = reconcileSpec K"
    unfolding fun_eq_iff reconcileSpec_def other_operations by simp
  have status: "reconcileStatus (K\<lparr>DeleteFilter := d\<rparr>) = reconcileStatus K"
    unfolding fun_eq_iff reconcileStatus_def other_operations by simp
  have written: "write_secret (K\<lparr>DeleteFilter := d\<rparr>) = write_secret K"
    unfolding fun_eq_iff write_secret_def other_operations by simp
  have update: "update_secret (K\<lparr>DeleteFilter := d\<rparr>) = update_secret K"
    unfolding fun_eq_iff update_secret_def written by simp
  have secret: "reconcileSecret (K\<lparr>DeleteFilter := d\<rparr>) = reconcileSecret K"
    unfolding fun_eq_iff reconcileSecret_def other_operations update by simp
  have filter: "reconcileEnvoyFilter (K\<lparr>DeleteFilter := d\<rparr>) = reconcileEnvoyFilter K"
    unfolding fun_eq_iff reconcileEnvoyFilter_def other_operations by simp
  have live: "reconcile_live (K\<lparr>DeleteFilter := d\<rparr>) = reconcile_live K"
    unfolding fun_eq_iff reconcile_live_def spec status secret filter by simp
  show ?thesis unfolding Reconcile_leader_def other_operations live by simp
qed

lemma worker_deletes_nothing: "Reconcile_worker (K\<lparr>DeleteFilter := d\<rparr>) e req w = Reconcile_worker K e req w"
proof -
  have auth: "reconcileAuth (K\<lparr>DeleteFilter := d\<rparr>) = reconcileAuth K"
    unfolding fun_eq_iff reconcileAuth_def other_operations by simp
  show ?thesis unfolding Reconcile_worker_def other_operations auth by simp
qed

lemma delete_recorded:
  "w_calls (fst (act_bind (send (DeleteFilter K) RemoveFilter g ef) (\<lambda>_. act_return ()) w))
    = w_calls w @ [RemoveFilter ef]"
  by (auto simp: act_bind_def act_return_def send_def split: prod.split sum.split)

lemma filter_or_deletes:
  "Reconcile_filter (K\<lparr>DeleteFilter := d\<rparr>) e req w = Reconcile_filter K e req w
   \<or> (\<exists>ef. w_calls (fst (Reconcile_filter K e req w)) = w_calls w @ [RemoveFilter ef])"
proof (cases "GetFilter K (w_cluster w) req")
  case (Found ef)
  have parts: "isDuplicate (K\<lparr>DeleteFilter := d\<rparr>) e ef = isDuplicate K e ef"
    "fetchAccessPolicies (K\<lparr>DeleteFilter := d\<rparr>) ef = fetchAccessPolicies K ef"
    unfolding fun_eq_iff isDuplicate_def fetchAccessPolicies_def other_operations by simp_all
  obtain dup_res where dup: "isDuplicate K e ef w = (w, dup_res)"
    using isDuplicate_world [of K e ef w] by (metis prod.collapse)
  obtain pol_res where pol: "fetchAccessPolicies K ef w = (w, pol_res)"
    by (cases "ListPolicies K (w_cluster w) None") (simp_all add: fetchAccessPolicies_def)
  consider (deletes) "dup_res = Ok True \<or> dup_res = Ok False \<and> pol_res = Ok []"
    | (other) "dup_res \<noteq> Ok True \<and> (dup_res = Ok False \<longrightarrow> pol_res \<noteq> Ok [])"
    by blast
  then show ?thesis
  proof cases
    case deletes
    then have "w_calls (fst (Reconcile_filter K e req w)) = w_calls w @ [RemoveFilter ef]"
      by (auto simp: Reconcile_filter_def Found act_bind_def [of "isDuplicate K e ef"] dup
          act_bind_def [of "fetchAccessPolicies K ef"] pol delete_recorded)
    then show ?thesis by blast
  next
    case other
    then show ?thesis
      by (cases dup_res; cases pol_res)
         (auto simp: Reconcile_filter_def Found act_bind_def [of "isDuplicate K e ef"] dup
          act_bind_def [of "fetchAccessPolicies K ef"] pol parts split: res.split)
  qed
qed (simp_all add: Reconcile_filter_def)

section \<open>Claims\<close>

text \<open>
  C27: The cluster role is enough for the controllers, with one exception. Against a server that enforces
  it, which refuses every read and write that no rule permits, the leader, the worker and the mappers
  do exactly what they do with all rights; so does the filter controller, unless it deletes a filter,
  which no rule permits. Every call of any sequence of reconciliations is permitted but for these
  deletions, the events included, and so are listing and watching every kind that is watched.
\<close>

theorem calls_within_role:
  "Reconcile_leader (under_role cluster_role K) le req w = Reconcile_leader K le req w
   \<and> Reconcile_worker (under_role cluster_role K) we req w = Reconcile_worker K we req w
   \<and> (Reconcile_filter (under_role cluster_role K) fe req w = Reconcile_filter K fe req w
      \<or> (\<exists>ef. w_calls (fst (Reconcile_filter K fe req w)) = w_calls w @ [RemoveFilter ef]))
   \<and> Map_policies (under_role cluster_role K) = Map_policies K
   \<and> Map_filters (under_role cluster_role K) = Map_filters K
   \<and> calls_only permitted w (fold (\<lambda>req w. fst (Reconcile_leader K le req w)) reqs w, ())
   \<and> calls_only permitted w (fold (\<lambda>req w. fst (Reconcile_worker K we req w)) reqs w, ())
   \<and> calls_only (\<lambda>c. permitted c \<noteq> (\<exists>ef. c = RemoveFilter ef)) w
       (fold (\<lambda>req w. fst (Reconcile_filter K fe req w)) reqs w, ())
   \<and> (\<forall>kind. watchable cluster_role kind)"
proof (intro conjI allI)
  show "watchable cluster_role kind" for kind
    by (cases kind) (simp_all add: watchable_def permits_def cluster_role_def GroupVersion_def)
  show "Map_policies (under_role cluster_role K) = Map_policies K"
    "Map_filters (under_role cluster_role K) = Map_filters K"
    unfolding under_cluster_role fun_eq_iff Map_policies_def Map_filters_def other_operations by simp_all
  show "calls_only permitted w (fold (\<lambda>req w. fst (Reconcile_leader K le req w)) reqs w, ())"
    using leader.work_calls [of w K le reqs] by (simp add: leader.work_def)
  show "calls_only permitted w (fold (\<lambda>req w. fst (Reconcile_worker K we req w)) reqs w, ())"
    using calls_only_mono [OF worker.work_calls, of permitted w K we reqs]
    by (auto simp: permitted_iff worker.work_def)
  show "calls_only (\<lambda>c. permitted c \<noteq> (\<exists>ef. c = RemoveFilter ef)) w
      (fold (\<lambda>req w. fst (Reconcile_filter K fe req w)) reqs w, ())"
    using calls_only_mono [OF filler.work_calls, of "\<lambda>c. permitted c \<noteq> (\<exists>ef. c = RemoveFilter ef)" w K fe reqs]
    by (auto simp: permitted_iff filler.work_def)
  show "Reconcile_filter (under_role cluster_role K) fe req w = Reconcile_filter K fe req w
      \<or> (\<exists>ef. w_calls (fst (Reconcile_filter K fe req w)) = w_calls w @ [RemoveFilter ef])"
    unfolding under_cluster_role by (rule filter_or_deletes)
qed (simp_all add: under_cluster_role leader_deletes_nothing worker_deletes_nothing)

text \<open>
  With a server that enforces the cluster role, a filter that should go stays: the reconciliation
  of a duplicate, or of a filter whose policies are gone, sends the deletion, fails with an error and
  leaves the cluster as it was, so the reconciliation is tried again and again.
\<close>

lemma deletions_are_refused:
  assumes "enforces_role K" and "GetFilter K (w_cluster w) req = Found ef"
    and "isDuplicate K e ef w = (w, Ok dup)"
    and "ListPolicies K (w_cluster w) None = Inr ps"
    and "dup \<or> filter_policies ef ps = []"
  shows "\<exists>err. Reconcile_filter K e req w =
    (w\<lparr>w_calls := w_calls w @ [RemoveFilter ef]\<rparr>, Err err)"
proof (cases dup)
  case True
  obtain err where "send (DeleteFilter K) RemoveFilter (failed ''failed deleting EnvoyFilter'') ef w =
      (w\<lparr>w_calls := w_calls w @ [RemoveFilter ef]\<rparr>, Err (failed ''failed deleting EnvoyFilter'' err))"
    using delete_refused [OF assms(1)] by blast
  with True assms(2,3) show ?thesis by (simp add: Reconcile_filter_def act_bind_def)
next
  case False
  obtain err where "send (DeleteFilter K) RemoveFilter (\<lambda>err. err) ef w =
      (w\<lparr>w_calls := w_calls w @ [RemoveFilter ef]\<rparr>, Err err)"
    using delete_refused [OF assms(1), of "\<lambda>err. err"] by blast
  moreover have "fetchAccessPolicies K ef w = (w, Ok [])"
    using False assms(4,5) by (simp add: fetchAccessPolicies_Ok_iff)
  ultimately show ?thesis using False assms(2,3) by (simp add: Reconcile_filter_def act_bind_def)
qed

text \<open>The example server with the deletion of filters refused.\<close>

definition demo_strict_kube :: "envoy_filter list \<Rightarrow> unit kube" where
  "demo_strict_kube efs =
     (demo_kube [] None efs)\<lparr>DeleteFilter := \<lambda>x c. (c, Inl (Foreign ''forbidden''))\<rparr>"

lemma deletions_are_refused_witness:
  "\<exists>err. Reconcile_filter (demo_strict_kube [demo_filter ''f'' 5]) demo_filter_env
     \<lparr>nn_Namespace = ''istio-system'', nn_Name = ''f''\<rparr> demo_world =
       (demo_world\<lparr>w_calls := w_calls demo_world @ [RemoveFilter (demo_filter ''f'' 5)]\<rparr>, Err err)"
proof -
  let ?K = "demo_strict_kube [demo_filter ''f'' 5]"
  let ?req = "\<lparr>nn_Namespace = ''istio-system'', nn_Name = ''f''\<rparr>"
  have strict: "enforces_role ?K"
    by (simp add: enforces_role_def refuses_def permitted_iff demo_strict_kube_def)
  have get: "GetFilter ?K (w_cluster demo_world) ?req = Found (demo_filter ''f'' 5)"
    by (simp add: demo_strict_kube_def demo_filter_defs)
  have lists: "ListFilters ?K (w_cluster demo_world) (IstioRootNamespace (fe_Controller demo_filter_env))
      (EnvoyFilterLabels (fe_Controller demo_filter_env)) = Inr [demo_filter ''f'' 5]"
    using demo_filter_list [of "[]" None "''f''" 5 "()"] by (simp add: demo_strict_kube_def)
  have dup: "isDuplicate ?K demo_filter_env (demo_filter ''f'' 5) demo_world = (demo_world, Ok False)"
    unfolding isDuplicate_Ok_iff lists by (simp add: demo_filter_defs)
  have ps: "ListPolicies ?K (w_cluster demo_world) None = Inr []"
    by (simp add: demo_strict_kube_def demo_kube_def)
  show ?thesis
    by (rule deletions_are_refused [OF strict get dup ps]) (simp add: filter_policies_def map_filter_simps)
qed

end
