(* ===== verification/Replication_Claims.thy ===== *)
theory Replication_Claims
  imports Replication_Node
begin

text \<open>
  What the replication protocol achieves between two nodes, and where it fails: a first
  synchronisation copies a store; a second one fails; the map of connections follows the lookup;
  handshakes and broadcasts.
\<close>

section \<open>Streams\<close>

text \<open>Everything that a stream of the whole store delivers.\<close>

definition stored_stamps :: "sessionStore \<Rightarrow> stamp set" where
  "stored_stamps ss = {sd_stamp v | v p. v \<in> set (peer_list ss p)}"

definition as_received :: "'ts streamSessionsResponse list \<Rightarrow> 'ts recv list" where
  "as_received ms = map Recv ms"

lemma Stream_stored: "v \<in> set (Stream ss from0 ks) \<Longrightarrow> sd_stamp v \<in> stored_stamps ss"
  by (auto simp: Stream_def stored_stamps_def)

lemma Stream_from_nothing:
  "store_inv ss \<Longrightarrow> ranges (ss_store ss) ks \<Longrightarrow>
    filter (\<lambda>v. peer_of v = p) (Stream ss Map.empty ks) = peer_list ss p"
  by (simp add: Stream_of_peer)

lemma latestFromProto_Nil [simp]: "latestFromProto [] = Map.empty"
  by (simp add: latestFromProto_def)

lemma peer_list_New [simp]: "peer_list (NewSessionStore i) p = []"
  by (simp add: NewSessionStore_def peer_list_def)

text \<open>
  C16: A new instance that asks a peer for its sessions gets all of them: the stream ends without an
  error, every list of the peer is copied as it is, every session the peer stores can be looked up,
  and no goroutine is started to repair the connection.
\<close>

theorem initial_sync_copies_store:
  assumes "ts_law ts" and "store_reachable a (nd_store n)" and "ranges (ss_store (nd_store n)) ks"
    and "zero_stamp \<notin> stored_stamps (nd_store n)" and "\<And>e. sendable e"
    and "Server_StreamSessions sendable ts (stream_request (NewNode b adv) []) ks n = (ms, ok)"
  shows "\<exists>b'. streamSessions ts c (Reply (as_received ms)) (NewNode b adv) = Ok (b', True)
    \<and> (\<forall>p. peer_list (nd_store b') p = peer_list (nd_store n) p)
    \<and> (\<forall>p. \<forall>v \<in> set (peer_list (nd_store n) p). Get (nd_store b') (id_of v) \<noteq> None)
    \<and> nd_tasks b' = []"
proof -
  let ?xs = "Stream (nd_store n) Map.empty ks"
  have inv: "store_inv (nd_store n)" using assms(2) by (rule store_reachable_store_inv)
  have f: "filter (\<lambda>v. peer_of v = p) ?xs = peer_list (nd_store n) p" for p
    using inv assms(3) by (rule Stream_from_nothing)
  have ms: "ms = map (stream_response ts) ?xs"
    using assms(6) by (simp add: Server_StreamSessions_def stream_request_def latestToProto_def
        send_all [of sendable, OF assms(5)])
  have "ordered p (peer_list (nd_store (NewNode b adv)) p @ filter (\<lambda>v. peer_of v = p) ?xs)" for p
    using inv by (simp add: f NewNode_def store_inv_def)
  moreover have "\<forall>x \<in> set ?xs. sd_stamp x \<noteq> zero_stamp"
    using assms(4) Stream_stored by fastforce
  moreover have "store_inv (nd_store (NewNode b adv))" by (simp add: NewNode_def store_inv_New)
  ultimately obtain b' where b': "recv_loop ts c (map (\<lambda>x. Recv (stream_response ts x)) ?xs) (NewNode b adv) = Ok (b', True)"
    "\<forall>p. peer_list (nd_store b') p = peer_list (nd_store (NewNode b adv)) p @ filter (\<lambda>v. peer_of v = p) ?xs"
    "\<forall>x \<in> set ?xs. Get (nd_store b') (id_of x) \<noteq> None" "nd_tasks b' = nd_tasks (NewNode b adv)"
    using recv_in_order [OF assms(1), of "NewNode b adv" ?xs c] by blast
  have "v \<in> set ?xs" if "v \<in> set (peer_list (nd_store n) p)" for v p
    using that unfolding f [of p, symmetric] by simp
  with b' show ?thesis
    by (intro exI [of _ b'])
       (auto simp: f streamSessions_def as_received_def ms NewNode_def comp_def)
qed

definition demo_source :: node where
  "demo_source = (NewNode ''A'' ''a:1'')\<lparr>nd_store :=
     fst (Set (NewSessionStore ''A'') (fresh (demo_session ''s1'' 5)))\<rparr>"

theorem initial_sync_copies_store_witness:
  "\<exists>b' ms ok. Server_StreamSessions (\<lambda>e. True) demo_timestamps (stream_request (NewNode ''B'' ''b:1'') [])
       [''A''] demo_source = (ms, ok)
     \<and> streamSessions demo_timestamps 0 (Reply (as_received ms)) (NewNode ''B'' ''b:1'') = Ok (b', True)
     \<and> Get (nd_store b') ''s1'' \<noteq> None"
proof -
  have st: "store_reachable ''A'' (nd_store demo_source)"
    by (simp add: demo_source_def) (intro store_reachable.intros)
  have r: "ranges (ss_store (nd_store demo_source)) [''A'']"
    by (simp add: demo_source_def store_eval ranges_def)
  have l: "peer_list (nd_store demo_source) p = (if p = ''A'' then
      [\<lparr>sd_session = demo_session ''s1'' 5, sd_stamp = \<lparr>st_peer = ''A'', st_serial = 1\<rparr>\<rparr>] else [])" for p
    by (simp add: demo_source_def store_eval)
  have z: "zero_stamp \<notin> stored_stamps (nd_store demo_source)"
    by (auto simp: stored_stamps_def l zero_stamp_def split: if_splits)
  obtain ms ok where m: "Server_StreamSessions (\<lambda>e. True) demo_timestamps
      (stream_request (NewNode ''B'' ''b:1'') []) [''A''] demo_source = (ms, ok)" by force
  from initial_sync_copies_store [OF demo_ts_law st r z _ m, of 0] obtain b' where
    "streamSessions demo_timestamps 0 (Reply (as_received ms)) (NewNode ''B'' ''b:1'') = Ok (b', True)"
    "\<forall>p. \<forall>v \<in> set (peer_list (nd_store demo_source) p). Get (nd_store b') (id_of v) \<noteq> None" by auto
  with m show ?thesis by (auto simp: l demo_session_def)
qed

section \<open>Streaming again\<close>

text \<open>Receiving keeps what a list has, so a session that was received is rejected later.\<close>

lemma recv_loop_keeps:
  "recv_loop ts c es n = Ok (n', ok) \<Longrightarrow> store_inv (nd_store n) \<Longrightarrow>
    nd_self n' = nd_self n \<and> store_inv (nd_store n')
    \<and> (\<forall>p. set (peer_list (nd_store n) p) \<subseteq> set (peer_list (nd_store n') p))"
proof (induction ts c es n arbitrary: n' ok rule: recv_loop.induct)
  case (3 ts c m es n)
  then obtain s st where s: "sessionFromProto ts (tr_Session m) = (Ok s :: (exit_status, _) res)"
    and st: "stampFromProto (tr_Stamp m) = (Ok st :: (exit_status, _) res)" by auto
  let ?x = "\<lparr>sd_session = s, sd_stamp = st\<rparr>"
  obtain ss r where set: "Set (nd_store n) ?x = (ss, r)" by force
  have i: "store_inv ss" using sess.set_inv [OF 3(3), of ?x] set by simp
  have grow: "set (peer_list (nd_store n) p) \<subseteq> set (peer_list ss p)" for p
    using peer_list_Set [OF set, of p] by auto
  show ?case
  proof (cases r)
    case (Inl e)
    with 3(2) s st set i show ?thesis by (auto intro: subsetD [OF grow])
  next
    case (Inr y)
    with 3(2) s st set have "recv_loop ts c es (n\<lparr>nd_store := ss\<rparr>) = Ok (n', ok)" by simp
    from 3(1) [OF s st set [symmetric] Inr this] i
    have "nd_self n' = nd_self n \<and> store_inv (nd_store n')
        \<and> (\<forall>p. set (peer_list ss p) \<subseteq> set (peer_list (nd_store n') p))" by simp
    then show ?thesis using subset_trans [OF grow] by blast
  qed
qed auto

lemma recv_all_stored:
  assumes "ts_law ts"
    and "recv_loop ts c (map (\<lambda>x. Recv (stream_response ts x)) xs) n = Ok (n', True)"
    and "x \<in> set xs" and "sd_stamp x \<noteq> zero_stamp" and "store_inv (nd_store n)"
  shows "x \<in> set (peer_list (nd_store n') (peer_of x))"
  using assms(2,3,5)
proof (induction xs arbitrary: n)
  case (Cons y xs)
  obtain ss r where set: "Set (nd_store n) y = (ss, r)" by force
  with Cons.prems(1) obtain z where r: "r = Inr z"
    and l: "recv_loop ts c (map (\<lambda>x. Recv (stream_response ts x)) xs) (n\<lparr>nd_store := ss\<rparr>) = Ok (n', True)"
    by (auto simp: recv_stream_response [OF assms(1)] simp del: recv_loop.simps split: sum.splits)
  have i: "store_inv ss" using sess.set_inv [OF Cons.prems(3), of y] set by simp
  show ?case
  proof (cases "x = y")
    case True
    have "z = y" using Set_result [of "nd_store n" y ss z] set r assms(4) True by (simp add: assign_stamp_def)
    then have "x \<in> set (peer_list ss (peer_of x))"
      using peer_list_Set [OF set, of "peer_of y"] r True by simp
    then show ?thesis using recv_loop_keeps [OF l] i by auto
  next
    case False
    with Cons.IH [OF l] Cons.prems(2) i show ?thesis by simp
  qed
qed simp

lemma Set_again_rejected:
  assumes "store_inv ss" and "x \<in> set (peer_list ss (peer_of x))" and "sd_stamp x \<noteq> zero_stamp"
  shows "\<exists>ss' e. Set ss x = (ss', Inl e)"
proof -
  have "serial x \<le> serial (last (peer_list ss (peer_of x)))"
    using assms(1,2) ordered_last by (fastforce simp: store_inv_def)
  then have "\<exists>e. snd (Set ss x) = Inl e"
    using assms(2,3) by (auto simp: Set_rejects_iff Let_def assign_stamp_def)
  then show ?thesis by (metis prod.collapse)
qed

lemma recv_again_fails:
  assumes "ts_law ts" and "x \<in> set ys" and "sd_stamp x \<noteq> zero_stamp"
    and "store_inv (nd_store n)" and "x \<in> set (peer_list (nd_store n) (peer_of x))"
  shows "\<exists>n'. recv_loop ts c (map (\<lambda>x. Recv (stream_response ts x)) ys @ es) n = Ok (n', False)
    \<and> nd_tasks n' = nd_tasks n @ [Reestablish c Unknown]"
  using assms(2,4,5)
proof (induction ys arbitrary: n)
  case (Cons y ys)
  obtain ss r where set: "Set (nd_store n) y = (ss, r)" by force
  note first = recv_stream_response [OF assms(1), of c y]
  show ?case
  proof (cases r)
    case (Inl e)
    with set show ?thesis by (simp add: first del: recv_loop.simps)
  next
    case (Inr z)
    have "y \<noteq> x" using Set_again_rejected [OF Cons.prems(2,3) assms(3)] set Inr by auto
    then have "x \<in> set ys" using Cons.prems(1) by simp
    moreover have "store_inv ss" using sess.set_inv [OF Cons.prems(2), of y] set by simp
    moreover have "set (peer_list (nd_store n) p) \<subseteq> set (peer_list ss p)" for p
      using peer_list_Set [OF set, of p] by auto
    then have "x \<in> set (peer_list ss (peer_of x))" using Cons.prems(3) by blast
    ultimately show ?thesis
      using Cons.IH [of "n\<lparr>nd_store := ss\<rparr>"] set Inr by (simp add: first del: recv_loop.simps)
  qed
qed simp

text \<open>
  C17: Once a node has received a stream, a stream that has any of the sessions it received at any place
  fails: the connection is not live, and a goroutine starts to reestablish it; when the stream begins with
  such a session nothing at all is stored. The request the node sends is the same as before the first
  stream, because streaming does not record the serials it received, and so is whether it asks for the
  sessions; a peer that streams its sessions again thus streams the ones that make the stream fail.
\<close>

theorem streaming_again_fails:
  assumes "ts_law ts" and "store_reachable b (nd_store n)"
    and "streamSessions ts c (Reply (as_received (map (stream_response ts) xs))) n = Ok (n', True)"
    and "x \<in> set xs" and "x \<in> set ys" and "sd_stamp x \<noteq> zero_stamp"
  shows "\<exists>n''. streamSessions ts c (Reply (as_received (map (stream_response ts) ys) @ es)) n' = Ok (n'', False)
    \<and> nd_tasks n'' = nd_tasks n' @ [Reestablish c Unknown]
    \<and> (hd ys = x \<longrightarrow> Get (nd_store n'') = Get (nd_store n') \<and> peer_list (nd_store n'') = peer_list (nd_store n'))
    \<and> stream_request n' ks = stream_request n ks
    \<and> needsUpdate (nd_self n') latest ks = needsUpdate (nd_self n) latest ks"
proof -
  have l: "recv_loop ts c (map (\<lambda>x. Recv (stream_response ts x)) xs) n = Ok (n', True)"
    using assms(3) by (simp add: streamSessions_def as_received_def comp_def)
  note inv = store_reachable_store_inv [OF assms(2)]
  note keeps = recv_loop_keeps [OF l inv]
  have stored: "x \<in> set (peer_list (nd_store n') (peer_of x))"
    using recv_all_stored [OF assms(1) l assms(4,6) inv] .
  obtain n'' where again: "recv_loop ts c (map (\<lambda>x. Recv (stream_response ts x)) ys @ es) n' = Ok (n'', False)"
    and tasks: "nd_tasks n'' = nd_tasks n' @ [Reestablish c Unknown]"
    using recv_again_fails [OF assms(1,5,6) _ stored] keeps by blast
  have "Get (nd_store n'') = Get (nd_store n') \<and> peer_list (nd_store n'') = peer_list (nd_store n')"
    if first: "hd ys = x"
  proof -
    obtain zs where ys: "ys = x # zs" using first assms(5) by (cases ys) auto
    obtain ss e where set: "Set (nd_store n') x = (ss, Inl e)"
      using Set_again_rejected keeps assms(6) stored by blast
    have "nd_store n'' = ss"
      using again set by (auto simp: ys recv_stream_response [OF assms(1)] simp del: recv_loop.simps)
    then show ?thesis
      using Get_after_Set_error [OF set] peer_list_Set [OF set] by auto
  qed
  with again tasks keeps show ?thesis
    by (intro exI [of _ n'']) (simp add: streamSessions_def as_received_def comp_def stream_request_def copyLatest_def)
qed

theorem streaming_again_fails_witness:
  "\<exists>n' n''. streamSessions demo_timestamps 0
       (Reply (as_received (map (stream_response demo_timestamps) [demo_stamped]))) (NewNode ''A'' ''a:1'') = Ok (n', True)
     \<and> streamSessions demo_timestamps 0
       (Reply (as_received (map (stream_response demo_timestamps)
         [demo_stamped\<lparr>sd_stamp := \<lparr>st_peer = ''C'', st_serial = 5\<rparr>\<rparr>, demo_stamped]))) n' = Ok (n'', False)"
proof -
  have nz: "sd_stamp demo_stamped \<noteq> zero_stamp" by (simp add: demo_stamped_def zero_stamp_def)
  have st: "store_reachable ''A'' (nd_store (NewNode ''A'' ''a:1''))"
    by (simp add: NewNode_def store_reachable.start)
  obtain n' where n': "streamSessions demo_timestamps 0
      (Reply (as_received (map (stream_response demo_timestamps) [demo_stamped]))) (NewNode ''A'' ''a:1'') = Ok (n', True)"
    using recv_in_order [OF demo_ts_law, of "NewNode ''A'' ''a:1''" "[demo_stamped]" 0] nz
    by (fastforce simp: streamSessions_def as_received_def NewNode_def store_inv_New ordered_def
        simp del: recv_loop.simps)
  with streaming_again_fails [OF demo_ts_law st n', of demo_stamped
      "[demo_stamped\<lparr>sd_stamp := \<lparr>st_peer = ''C'', st_serial = 5\<rparr>\<rparr>, demo_stamped]" "[]"] nz
  show ?thesis by auto
qed

section \<open>Connections\<close>

lemma disconnect_simps [simp]:
  "nd_conns (disconnect c n) = nd_conns n" "length (nd_heap (disconnect c n)) = length (nd_heap n)"
  "nd_self (disconnect c n) = nd_self n" "nd_tasks (disconnect c n) = nd_tasks n"
  by (simp_all add: disconnect_def set_conn_def)

lemma conn_disconnect:
  "c < length (nd_heap n) \<Longrightarrow> conn (disconnect c n) d =
     (if d = c then (conn n c)\<lparr>cn_dead := True, cn_open := False\<rparr> else conn n d)"
  by (simp add: disconnect_def set_conn_def conn_def)

text \<open>The connections after the loop of \<^verbatim>\<open>refresh\<close> has visited some endpoints.\<close>

lemma refresh_fold:
  assumes "node_inv me n"
  shows "nd_conns (fold (refresh_conn keep) ks n) = nd_conns n |` (- (set ks - keep))
    \<and> (\<forall>ep c. nd_conns n ep = Some c \<longrightarrow>
          conn (fold (refresh_conn keep) ks n) c =
            (if ep \<in> set ks - keep then (conn n c)\<lparr>cn_dead := True, cn_open := False\<rparr> else conn n c))"
  using assms
proof (induction ks rule: rev_induct)
  case (snoc k ks)
  define m where "m = fold (refresh_conn keep) ks n"
  have inv: "node_inv me m" unfolding m_def using snoc.prems by (rule node_inv_refresh_fold)
  have m: "nd_conns m = nd_conns n |` (- (set ks - keep))"
    and mc: "\<And>ep c. nd_conns n ep = Some c \<Longrightarrow> conn m c =
      (if ep \<in> set ks - keep then (conn n c)\<lparr>cn_dead := True, cn_open := False\<rparr> else conn n c)"
    using snoc.IH [OF snoc.prems] by (auto simp: m_def)
  have f: "fold (refresh_conn keep) (ks @ [k]) n = refresh_conn keep k m" by (simp add: m_def)
  show ?case
  proof (cases "nd_conns m k = None \<or> k \<in> keep")
    case True
    then have "refresh_conn keep k m = m" by (auto simp: refresh_conn_def split: option.splits)
    moreover have "nd_conns n k = None \<or> k \<in> keep \<or> k \<in> set ks"
      using True m by (auto simp: restrict_map_def split: if_splits)
    ultimately show ?thesis
      using m mc unfolding f by (auto simp: restrict_map_def fun_eq_iff)
  next
    case False
    then obtain c where c: "nd_conns m k = Some c" "k \<notin> keep" by auto
    then have r: "refresh_conn keep k m = (disconnect c m)\<lparr>nd_conns := (nd_conns m)(k := None)\<rparr>"
      by (simp add: refresh_conn_def)
    have nk: "nd_conns n k = Some c" "k \<notin> set ks"
      using c m by (auto simp: restrict_map_def split: if_splits)
    have other: "d \<noteq> c" if "nd_conns n ep = Some d" "ep \<noteq> k" for ep d
      using node_inv_conn [OF snoc.prems nk(1)] node_inv_conn [OF snoc.prems that(1)] that(2) by auto
    have cc: "conn (refresh_conn keep k m) d =
        (if d = c then (conn m c)\<lparr>cn_dead := True, cn_open := False\<rparr> else conn m d)" for d
      using conn_disconnect [of c m d] node_inv_conn [OF inv c(1)] by (simp add: r conn_def)
    have "nd_conns (refresh_conn keep k m) = nd_conns n |` (- (set (ks @ [k]) - keep))"
      using m c by (auto simp: r restrict_map_def fun_eq_iff)
    moreover have "conn (refresh_conn keep k m) d =
        (if ep \<in> set (ks @ [k]) - keep then (conn n d)\<lparr>cn_dead := True, cn_open := False\<rparr> else conn n d)"
      if "nd_conns n ep = Some d" for ep d
    proof (cases "ep = k")
      case True
      then have "d = c" using that nk by simp
      then show ?thesis using cc mc [OF nk(1)] nk c True by simp
    next
      case False
      then show ?thesis using other [OF that] cc mc [OF that] by simp
    qed
    ultimately show ?thesis unfolding f by blast
  qed
qed (simp add: restrict_map_def)

text \<open>
  After a refresh, in whatever order the map is visited, exactly the connections to listed
  endpoints are left and none of these was touched; every other connection was closed and is dead.
\<close>

lemma refresh_keeps_exactly_listed:
  assumes "node_reachable l ts me adv n" and "ranges (nd_conns n) ks"
    and "refresh_peers l r ks n = (n', Ok eps)"
  shows "lookupEndpoints l r = Ok eps
    \<and> nd_conns n' = nd_conns n |` set eps
    \<and> (\<forall>ep c. nd_conns n ep = Some c \<longrightarrow>
          (if ep \<in> set eps then conn n' c = conn n c
           else \<not> cn_open (conn n' c) \<and> cn_dead (conn n' c)))"
proof -
  have e: "lookupEndpoints l r = Ok eps" "n' = fold (refresh_conn (set eps)) ks n"
    using assms(3) by (auto simp: refresh_peers_def split: res.splits)
  note f = refresh_fold [OF node_reachable_inv [OF assms(1)], of "set eps" ks]
  have d: "dom (nd_conns n) = set ks" using assms(2) by (simp add: ranges_def)
  have "nd_conns n' = nd_conns n |` set eps"
    using f d by (auto simp: e restrict_map_def fun_eq_iff domIff)
  moreover have "ep \<in> set ks" if "nd_conns n ep = Some c" for ep c using that d by blast
  ultimately show ?thesis using f e by simp
qed

lemma refresh_keeps_exactly_listed_witness:
  "\<exists>n'. refresh_peers (demo_lookup\<lparr>lookupEndpoints := \<lambda>r. Ok []\<rparr>) undefined [''b:1''] demo_node
       = (n', Ok [])
     \<and> nd_conns n' = Map.empty \<and> cn_dead (conn n' 0)"
proof -
  let ?l = "demo_lookup\<lparr>lookupEndpoints := \<lambda>r. Ok []\<rparr>"
  have "demo_node = fst (Server_Handshake ?l
     \<lparr>hq_PeerId = ''B'', hq_PeerEndpoint = ''b:1'', hq_Latest = []\<rparr> [] (NewNode ''A'' ''a:1''))"
    by (simp add: demo_node_def Server_Handshake_def getConnection_def demo_lookup_def NewNode_def)
  then have "node_step ?l demo_timestamps (NewNode ''A'' ''a:1'') demo_node"
    by (metis called_handshake prod.collapse)
  then have r: "node_reachable ?l demo_timestamps ''A'' ''a:1'' demo_node"
    using node_reachable.start node_reachable.step by blast
  have d: "nd_conns demo_node = [''b:1'' \<mapsto> 0]"
    by (simp add: demo_node_def Server_Handshake_def NewNode_def NewSelf_def getConnection_def
      newConnection_def Let_def spawn_def)
  then have k: "ranges (nd_conns demo_node) [''b:1'']" by (simp add: ranges_def)
  obtain n' where n': "refresh_peers ?l undefined [''b:1''] demo_node = (n', Ok [])"
    by (simp add: refresh_peers_def)
  from refresh_keeps_exactly_listed [OF r k n'] n' d show ?thesis by auto
qed

text \<open>
  A handshake is refused exactly when the peer has this instance's own identity, and then
  nothing changes. Otherwise the answer tells this instance's identity, endpoint and latest serials,
  the peer's endpoint has a connection afterwards, a connection that was there is kept, and the
  peer's report is handed to a new goroutine exactly when the connection was live.
\<close>

lemma handshake_answer:
  assumes "Server_Handshake l req ks n = (n', r)" and "ranges (self_latest (nd_self n)) ks"
  shows "if hq_PeerId req = self_id (nd_self n) then r = Fail PermissionDenied \<and> n' = n
    else (\<exists>h c. r = Reply h \<and> hr_PeerId h = self_id (nd_self n)
        \<and> hr_PeerEndpoint h = self_ep (nd_self n)
        \<and> latestFromProto (hr_Latest h) = self_latest (nd_self n)
        \<and> nd_conns n' = (nd_conns n)(hq_PeerEndpoint req \<mapsto> c)
        \<and> (case nd_conns n (hq_PeerEndpoint req) of
             None \<Rightarrow> nd_tasks n' = nd_tasks n @ [Handshake c]
           | Some d \<Rightarrow> c = d \<and> nd_heap n' = nd_heap n \<and> nd_tasks n' = nd_tasks n
               @ (if cn_live (conn n c) then [Update c (hq_Latest req)] else [])))"
proof (cases "hq_PeerId req = self_id (nd_self n)")
  case True
  with assms(1) show ?thesis by (auto simp: Server_Handshake_def)
next
  case False
  show ?thesis
  proof (cases "nd_conns n (hq_PeerEndpoint req)")
    case None
    with False assms show ?thesis
      by (auto simp: Server_Handshake_def getConnection_def newConnection_def Let_def conn_def
          latest_roundtrip copyLatest_def)
  next
    case (Some c)
    with False assms show ?thesis
      by (auto simp: Server_Handshake_def getConnection_def Let_def latest_roundtrip copyLatest_def
          fun_upd_idem)
  qed
qed

theorem handshake_answer_witness:
  "snd (Server_Handshake demo_lookup \<lparr>hq_PeerId = ''A'', hq_PeerEndpoint = ''b:1'', hq_Latest = []\<rparr> []
     (NewNode ''A'' ''a:1'')) = Fail PermissionDenied"
proof -
  obtain n' r where h: "Server_Handshake demo_lookup
      \<lparr>hq_PeerId = ''A'', hq_PeerEndpoint = ''b:1'', hq_Latest = []\<rparr> [] (NewNode ''A'' ''a:1'') = (n', r)"
    by force
  have "ranges (self_latest (nd_self (NewNode ''A'' ''a:1''))) []"
    by (simp add: NewNode_def NewSelf_def)
  from handshake_answer [OF h this] h show ?thesis by (simp add: NewNode_def NewSelf_def)
qed

section \<open>Sending a session\<close>

lemma spawn_all:
  "nd_tasks (fold (\<lambda>c. spawn (f c)) cs n) = nd_tasks n @ map f cs
   \<and> nd_self (fold (\<lambda>c. spawn (f c)) cs n) = nd_self n
   \<and> nd_conns (fold (\<lambda>c. spawn (f c)) cs n) = nd_conns n"
  by (induction cs arbitrary: n) auto

lemma getConnections_ranges:
  "ranges (nd_conns n) ks \<Longrightarrow> set (getConnections n ks) = ran (nd_conns n)"
  by (force simp: getConnections_def List.map_filter_def ranges_def ran_def domIff)

text \<open>
  Sending a session starts one goroutine for each connection, and no other, whatever the order
  in which the map is visited; and the node knows its own serial from then on.
\<close>

lemma broadcast_reaches_every_connection:
  assumes "node_reachable l ts me adv n" and "ranges (nd_conns n) ks"
  shows "\<exists>cs. distinct cs \<and> set cs = ran (nd_conns n)
    \<and> nd_tasks (Client_SetSession y ks n) = nd_tasks n @ map (\<lambda>c. SendSession c y) cs
    \<and> serial y \<le> known (nd_self (Client_SetSession y ks n)) me
    \<and> nd_conns (Client_SetSession y ks n) = nd_conns n"
proof -
  let ?n = "n\<lparr>nd_self := update_self me (serial y) (nd_self n)\<rparr>"
  have inv: "node_inv me n" using assms(1) by (rule node_reachable_inv)
  have C: "Client_SetSession y ks n = fold (\<lambda>c. spawn (SendSession c y)) (getConnections n ks) ?n"
    using inv by (simp add: Client_SetSession_def Let_def node_inv_def getConnections_def)
  have "inj_on (the \<circ> nd_conns n) (set ks)"
  proof (rule inj_onI)
    fix a b
    assume "a \<in> set ks" "b \<in> set ks" and e: "(the \<circ> nd_conns n) a = (the \<circ> nd_conns n) b"
    then obtain c d where a: "nd_conns n a = Some c" and b: "nd_conns n b = Some d"
      using assms(2) by (auto simp: ranges_def)
    with e have "c = d" by simp
    then show "a = b" using node_inv_conn [OF inv a] node_inv_conn [OF inv b] by simp
  qed
  moreover have "getConnections n ks = map (the \<circ> nd_conns n) ks"
    using assms(2) by (auto simp: getConnections_def List.map_filter_def ranges_def domIff
        filter_id_conv intro!: filter_True)
  ultimately have "distinct (getConnections n ks)"
    using assms(2) by (simp add: distinct_map ranges_def)
  then show ?thesis
    using getConnections_ranges [OF assms(2)] spawn_all [of "\<lambda>c. SendSession c y" _ ?n]
    by (intro exI [of _ "getConnections n ks"]) (simp add: C known_update)
qed

lemma broadcast_reaches_every_connection_witness:
  "\<exists>cs. set cs = {0} \<and> nd_tasks (Client_SetSession demo_stamped [''b:1''] demo_node)
     = nd_tasks demo_node @ map (\<lambda>c. SendSession c demo_stamped) cs"
proof -
  have d: "nd_conns demo_node = [''b:1'' \<mapsto> 0]"
    by (simp add: demo_node_def Server_Handshake_def NewNode_def NewSelf_def getConnection_def
      newConnection_def Let_def spawn_def)
  then have "ranges (nd_conns demo_node) [''b:1'']" by (simp add: ranges_def)
  from broadcast_reaches_every_connection [OF demo_node_reachable [of demo_timestamps] this, of demo_stamped]
  show ?thesis using d by auto
qed

end
