(* ===== verification/Replication_Worker.thy ===== *)
theory Replication_Worker
  imports Replication_Claims
begin

text \<open>
  The worker that keeps the connections up to date and the goroutines that watch a connection until
  it is live (\<^verbatim>\<open>src/replication/worker.go\<close>), with the condition variables of the connections, and the
  probes that tell whether the instance is ready (\<^verbatim>\<open>src/telemetry/probes.go\<close>).

  \<^verbatim>\<open>Broadcast\<close> wakes who is asleep at that moment and takes no lock; whoever locks and sleeps later
  is not woken by it.
\<close>

section \<open>State\<close>

text \<open>
  Where the worker is: before a refresh; in the loop over the endpoints that are left; between
  \<^verbatim>\<open>getConnection\<close> and \<^verbatim>\<open>Wait\<close>; asleep in \<^verbatim>\<open>Wait\<close>. A tracker checks, is about to sleep, or sleeps.
\<close>

datatype phase = Idle | Looping "string list" | Locking nat "string list" | Asleep nat "string list"

datatype tracker = Checking | TrackLocking | TrackAsleep

record wsys =
  ws_node :: node
  ws_phase :: phase
  ws_trackers :: "(nat \<times> tracker) list"
  ws_closed :: bool

definition NewWorker :: "node \<Rightarrow> wsys" where
  "NewWorker n = \<lparr>ws_node = n, ws_phase = Idle, ws_trackers = [], ws_closed = False\<rparr>"

text \<open>\<^verbatim>\<open>closer.close\<close>: the \<^verbatim>\<open>Once\<close> closes the channel the first time and does nothing later.\<close>

definition closer_close :: "wsys \<Rightarrow> wsys" where
  "closer_close s = (if ws_closed s then s else s\<lparr>ws_closed := True\<rparr>)"

text \<open>The broadcasts of a step: the worker goes on and starts a tracker, trackers check again.\<close>

definition wake :: "nat list \<Rightarrow> wsys \<Rightarrow> wsys" where
  "wake bs s =
     (let ts = map (\<lambda>(c, p). if p = TrackAsleep \<and> c \<in> set bs then (c, Checking) else (c, p))
                 (ws_trackers s)
      in case ws_phase s of
           Asleep c eps \<Rightarrow>
             (if c \<in> set bs
              then s\<lparr>ws_phase := Looping eps, ws_trackers := ts @ [(c, Checking)]\<rparr>
              else s\<lparr>ws_trackers := ts\<rparr>)
         | _ \<Rightarrow> s\<lparr>ws_trackers := ts\<rparr>)"

definition delivered :: "node \<Rightarrow> node \<Rightarrow> nat list" where
  "delivered n n' = drop (length (nd_broadcasts n)) (nd_broadcasts n')"

section \<open>Operations\<close>

text \<open>\<^verbatim>\<open>refresh\<close> of the worker up to its loop.\<close>

definition worker_refresh :: "endpointLookup \<Rightarrow> resolver \<Rightarrow> string list \<Rightarrow> wsys \<Rightarrow> wsys" where
  "worker_refresh l r ks s =
     (case refresh_peers l r ks (ws_node s) of
        (n', Ok eps) \<Rightarrow>
          (let s' = s\<lparr>ws_node := n', ws_phase := Looping eps\<rparr>
           in if length eps = 0 then closer_close s' else s')
      | (n', _) \<Rightarrow> s\<lparr>ws_node := n'\<rparr>)"

text \<open>One round of the loop up to the lock, or its end.\<close>

definition worker_next :: "endpointLookup \<Rightarrow> wsys \<Rightarrow> wsys" where
  "worker_next l s =
     (case ws_phase s of
        Looping [] \<Rightarrow> s\<lparr>ws_phase := Idle\<rparr>
      | Looping (ep # eps) \<Rightarrow>
          (case getConnection l ep (ws_node s) of
             (n', c, isNew) \<Rightarrow>
               s\<lparr>ws_node := n', ws_phase := (if isNew then Locking c eps else Looping eps)\<rparr>)
      | _ \<Rightarrow> s)"

definition worker_sleep :: "wsys \<Rightarrow> wsys" where
  "worker_sleep s = (case ws_phase s of Locking c eps \<Rightarrow> s\<lparr>ws_phase := Asleep c eps\<rparr> | _ \<Rightarrow> s)"

text \<open>One round of \<^verbatim>\<open>track\<close> for the tracker at position \<open>i\<close>; it ends when it is left out.\<close>

definition remove_nth :: "nat \<Rightarrow> 'a list \<Rightarrow> 'a list" where
  "remove_nth i xs = take i xs @ drop (Suc i) xs"

definition track :: "nat \<Rightarrow> wsys \<Rightarrow> wsys" where
  "track i s =
     (if i < length (ws_trackers s) then
        (case ws_trackers s ! i of
           (c, Checking) \<Rightarrow>
             (if cn_live (conn (ws_node s) c)
              then closer_close (s\<lparr>ws_trackers := remove_nth i (ws_trackers s)\<rparr>)
              else if cn_dead (conn (ws_node s) c)
                then s\<lparr>ws_trackers := remove_nth i (ws_trackers s)\<rparr>
              else s\<lparr>ws_trackers := (ws_trackers s)[i := (c, TrackLocking)]\<rparr>)
         | (c, TrackLocking) \<Rightarrow> s\<lparr>ws_trackers := (ws_trackers s)[i := (c, TrackAsleep)]\<rparr>
         | (c, TrackAsleep) \<Rightarrow> s)
      else s)"

section \<open>The probes\<close>

definition health_status :: nat where "health_status = 200"

record ready =
  rd_ready :: bool

text \<open>The status and the body of \<^verbatim>\<open>/ready\<close>.\<close>

definition ready_ServeHTTP :: "ready \<Rightarrow> nat \<times> string" where
  "ready_ServeHTTP r = (if rd_ready r then (200, ''Ready'') else (503, ''Unavailable''))"

text \<open>\<^verbatim>\<open>wait\<close> blocks, as \<open>None\<close>, until the channel is closed.\<close>

definition ready_wait :: "bool \<Rightarrow> ready \<Rightarrow> ready option" where
  "ready_wait closed r = (if closed then Some (r\<lparr>rd_ready := True\<rparr>) else None)"

section \<open>Steps\<close>

inductive worker_step :: "endpointLookup \<Rightarrow> 'ts timestamps \<Rightarrow> wsys \<Rightarrow> wsys \<Rightarrow> bool" for l ts where
  refresh: "ws_phase s = Idle \<Longrightarrow> ranges (nd_conns (ws_node s)) ks \<Longrightarrow>
    worker_step l ts s (worker_refresh l r ks s)"
| next_endpoint: "ws_phase s = Looping eps \<Longrightarrow> worker_step l ts s (worker_next l s)"
| sleep: "worker_step l ts s (worker_sleep s)"
| track: "worker_step l ts s (track i s)"
| other: "node_step l ts (ws_node s) n' \<Longrightarrow>
    worker_step l ts s (wake (delivered (ws_node s) n') (s\<lparr>ws_node := n'\<rparr>))"

inductive worker_reachable ::
  "endpointLookup \<Rightarrow> 'ts timestamps \<Rightarrow> string \<Rightarrow> string \<Rightarrow> wsys \<Rightarrow> bool" for l ts me adv where
  start: "worker_reachable l ts me adv (NewWorker (NewNode me adv))"
| step: "worker_reachable l ts me adv s \<Longrightarrow> worker_step l ts s s' \<Longrightarrow> worker_reachable l ts me adv s'"

section \<open>Facts\<close>

lemma wake_simps [simp]:
  "ws_node (wake bs s) = ws_node s" "ws_closed (wake bs s) = ws_closed s"
  by (auto simp: wake_def Let_def split: phase.splits)

lemma closer_close_simps [simp]:
  "ws_node (closer_close s) = ws_node s" "ws_closed (closer_close s)"
  "ws_phase (closer_close s) = ws_phase s" "ws_trackers (closer_close s) = ws_trackers s"
  by (simp_all add: closer_close_def)

lemma worker_sleep_simps [simp]:
  "ws_node (worker_sleep s) = ws_node s" "ws_closed (worker_sleep s) = ws_closed s"
  by (auto simp: worker_sleep_def split: phase.splits)

lemma track_node [simp]: "ws_node (track i s) = ws_node s"
  by (auto simp: track_def split: prod.splits tracker.splits)

lemma worker_next_closed [simp]: "ws_closed (worker_next l s) = ws_closed s"
  by (auto simp: worker_next_def split: phase.splits list.splits prod.splits)

lemma track_closed: "ws_closed (track i s) \<longleftrightarrow> ws_closed s \<or>
    (\<exists>c. i < length (ws_trackers s) \<and> ws_trackers s ! i = (c, Checking) \<and> cn_live (conn (ws_node s) c))"
  by (auto simp: track_def split: prod.splits tracker.splits)

lemma worker_refresh_closed: "ws_closed (worker_refresh l r ks s) \<longleftrightarrow>
    ws_closed s \<or> (\<exists>n'. refresh_peers l r ks (ws_node s) = (n', Ok []))"
  by (auto simp: worker_refresh_def Let_def split: prod.splits res.splits)

text \<open>The node of the worker goes only through states that a node can reach.\<close>

lemma worker_step_node_inv:
  "worker_step l ts s s' \<Longrightarrow> node_inv me (ws_node s) \<Longrightarrow> node_inv me (ws_node s')"
proof (induction rule: worker_step.induct)
  case (refresh s ks r)
  then show ?case
    by (auto simp: worker_refresh_def Let_def intro: node_inv_refresh split: prod.splits res.splits)
next
  case (next_endpoint s eps)
  then show ?case
    by (auto simp: worker_next_def intro: node_inv_getConnection(1) split: list.splits prod.splits)
next
  case (other s n')
  then show ?case by (simp add: node_inv_step)
qed simp_all

lemma worker_node_inv: "worker_reachable l ts me adv s \<Longrightarrow> node_inv me (ws_node s)"
  by (induction rule: worker_reachable.induct)
     (auto simp: NewWorker_def node_inv_NewNode intro: worker_step_node_inv)

section \<open>Claims\<close>

text \<open>
  The channel that makes the instance ready stays closed once it is closed. A step closes it
  only when the lookup of the endpoints gave an empty list, or when a tracked connection is live.
\<close>

lemma ready_only_when_alone_or_live:
  assumes "worker_step l ts s s'"
  shows "(ws_closed s \<longrightarrow> ws_closed s')
    \<and> (\<not> ws_closed s \<and> ws_closed s' \<longrightarrow>
        (\<exists>r. lookupEndpoints l r = Ok [])
        \<or> (\<exists>c. (c, Checking) \<in> set (ws_trackers s) \<and> cn_live (conn (ws_node s) c)))"
  using assms
proof cases
  case (refresh ks r)
  then show ?thesis
    by (auto simp: worker_refresh_closed refresh_peers_def split: res.splits)
next
  case (track i)
  then show ?thesis by (auto simp: track_closed) (metis nth_mem)
qed simp_all

lemma demo_alone:
  "worker_step (demo_lookup\<lparr>lookupEndpoints := \<lambda>r. Ok []\<rparr>) demo_timestamps
     (NewWorker (NewNode ''A'' ''a:1''))
     (worker_refresh (demo_lookup\<lparr>lookupEndpoints := \<lambda>r. Ok []\<rparr>) undefined []
        (NewWorker (NewNode ''A'' ''a:1'')))"
  by (rule worker_step.refresh) (simp_all add: NewWorker_def NewNode_def)

theorem ready_only_when_alone_or_live_witness:
  "\<exists>s'. worker_step (demo_lookup\<lparr>lookupEndpoints := \<lambda>r. Ok []\<rparr>) demo_timestamps
     (NewWorker (NewNode ''A'' ''a:1'')) s'
   \<and> ws_closed s' \<and> (\<exists>r. lookupEndpoints (demo_lookup\<lparr>lookupEndpoints := \<lambda>r. Ok []\<rparr>) r = Ok [])"
proof -
  let ?s = "NewWorker (NewNode ''A'' ''a:1'')"
  let ?s' = "worker_refresh (demo_lookup\<lparr>lookupEndpoints := \<lambda>r. Ok []\<rparr>) undefined [] ?s"
  have "ws_closed ?s'" "\<not> ws_closed ?s" "ws_trackers ?s = []"
    by (simp_all add: worker_refresh_closed refresh_peers_def NewWorker_def)
  with ready_only_when_alone_or_live [OF demo_alone] demo_alone show ?thesis by auto
qed

lemma worker_next_known:
  "ws_phase s = Looping eps \<Longrightarrow> set eps \<subseteq> dom (nd_conns (ws_node s)) \<Longrightarrow>
    (worker_next l ^^ length eps) s = s\<lparr>ws_phase := Looping []\<rparr>"
proof (induction eps arbitrary: s)
  case (Cons ep eps)
  then obtain c where "nd_conns (ws_node s) ep = Some c" by auto
  then have "worker_next l s = s\<lparr>ws_phase := Looping eps\<rparr>"
    using Cons.prems(1) by (cases s) (simp add: worker_next_def getConnection_def)
  with Cons show ?case by (simp add: funpow_swap1 del: funpow.simps(2)) (simp add: funpow_swap1)
qed simp

text \<open>
  A round of the worker starts no tracker and does not make the instance ready when every
  listed endpoint has a connection already, even if all of them are live. Connections that were
  opened for the handshakes of peers before the first round are therefore never tracked, and the
  instance stays not ready for as long as these peers are listed.
\<close>

lemma known_connections_are_never_tracked:
  assumes "ws_phase s = Idle" and "refresh_peers l r ks (ws_node s) = (n', Ok eps)"
    and "eps \<noteq> []" and "set eps \<subseteq> dom (nd_conns n')"
  shows "(worker_next l ^^ Suc (length eps)) (worker_refresh l r ks s) = s\<lparr>ws_node := n'\<rparr>"
proof -
  let ?s = "s\<lparr>ws_node := n', ws_phase := Looping eps\<rparr>"
  have "worker_refresh l r ks s = ?s" using assms by (simp add: worker_refresh_def Let_def)
  moreover have "(worker_next l ^^ length eps) ?s = ?s\<lparr>ws_phase := Looping []\<rparr>"
    using assms(4) by (intro worker_next_known) simp_all
  moreover have "worker_next l (?s\<lparr>ws_phase := Looping []\<rparr>) = s\<lparr>ws_node := n'\<rparr>"
    using assms(1) by (cases s) (simp add: worker_next_def)
  ultimately show ?thesis by simp
qed

lemma known_connections_are_never_tracked_witness:
  "\<exists>s'. (worker_next demo_lookup ^^ 2) (worker_refresh demo_lookup undefined [''b:1''] (NewWorker demo_node))
     = s' \<and> ws_trackers s' = [] \<and> \<not> ws_closed s' \<and> ws_phase s' = Idle"
proof -
  have d: "nd_conns demo_node = [''b:1'' \<mapsto> 0]"
    by (simp add: demo_node_def Server_Handshake_def NewNode_def NewSelf_def getConnection_def
      newConnection_def Let_def spawn_def)
  have r: "refresh_peers demo_lookup undefined [''b:1''] (ws_node (NewWorker demo_node)) = (demo_node, Ok [''b:1''])"
    by (simp add: refresh_peers_def refresh_conn_def demo_lookup_def NewWorker_def d)
  have "(worker_next demo_lookup ^^ Suc (length [''b:1'']))
      (worker_refresh demo_lookup undefined [''b:1''] (NewWorker demo_node))
      = (NewWorker demo_node)\<lparr>ws_node := demo_node\<rparr>"
    by (rule known_connections_are_never_tracked [OF _ r]) (simp_all add: NewWorker_def d)
  then show ?thesis by (simp add: NewWorker_def numeral_2_eq_2)
qed

section \<open>A broadcast that nobody hears\<close>

text \<open>The node after the worker opened its connection, after the handshake and after the update.\<close>

definition opened_node :: node where
  "opened_node = fst (getConnection demo_lookup ''b:1'' (NewNode ''A'' ''a:1''))"

definition greeted_node :: node where
  "greeted_node = opened_node\<lparr>nd_tasks := [Update 0 []]\<rparr>"

definition live_node :: node where
  "live_node = broadcast 0 (set_live 0 True (opened_node\<lparr>nd_tasks := []\<rparr>))"

lemma opened_node_simps [simp]:
  "nd_tasks opened_node = [Handshake 0]" "length (nd_heap opened_node) = 1"
  "nd_broadcasts opened_node = []" "nd_conns opened_node = [''b:1'' \<mapsto> 0]"
  "self_latest (nd_self opened_node) = Map.empty"
  by (simp_all add: opened_node_def getConnection_def newConnection_def Let_def NewNode_def NewSelf_def)

lemma greet_step: "node_step demo_lookup ts opened_node greeted_node"
proof (rule run_handshake [of _ "[]" 0 "[]"])
  show "nd_tasks opened_node = [] @ Handshake 0 # []" by simp
  show "handshake 0 (Reply \<lparr>hr_PeerId = ''B'', hr_PeerEndpoint = ''b:1'', hr_Latest = []\<rparr>)
      (opened_node\<lparr>nd_tasks := [] @ []\<rparr>) = Ok greeted_node"
    by (simp add: handshake_def greeted_node_def spawn_def)
qed

lemma live_step: "node_step demo_lookup ts greeted_node live_node"
proof (rule run_update [of _ "[]" 0 "[]" "[]" "[]"])
  show "nd_tasks greeted_node = [] @ Update 0 [] # []" by (simp add: greeted_node_def)
  show "ranges (latestFromProto []) []" by simp
  show "update_conn ts 0 [] [] (Fail Unknown) (greeted_node\<lparr>nd_tasks := [] @ []\<rparr>) = Ok live_node"
    by (simp add: update_conn_def needsUpdate_def greeted_node_def live_node_def)
qed

definition locking_state :: "node \<Rightarrow> wsys" where
  "locking_state n = \<lparr>ws_node = n, ws_phase = Locking 0 [], ws_trackers = [], ws_closed = False\<rparr>"

lemma locking_reachable: "worker_reachable demo_lookup ts ''A'' ''a:1'' (locking_state opened_node)"
proof -
  let ?s0 = "NewWorker (NewNode ''A'' ''a:1'')"
  let ?s1 = "worker_refresh demo_lookup undefined [] ?s0"
  have "worker_step demo_lookup ts ?s0 ?s1"
    by (rule worker_step.refresh) (simp_all add: NewWorker_def NewNode_def)
  moreover have p: "ws_phase ?s1 = Looping [''b:1'']"
    by (simp add: worker_refresh_def refresh_peers_def demo_lookup_def Let_def)
  then have "worker_step demo_lookup ts ?s1 (worker_next demo_lookup ?s1)"
    by (rule worker_step.next_endpoint)
  moreover have "worker_next demo_lookup ?s1 = locking_state opened_node"
    by (simp add: worker_next_def worker_refresh_def refresh_peers_def demo_lookup_def Let_def
        NewWorker_def locking_state_def opened_node_def getConnection_def newConnection_def NewNode_def)
  ultimately show ?thesis by (metis worker_reachable.start worker_reachable.step)
qed

lemma locking_other:
  assumes "worker_reachable l ts me adv (locking_state n)" and "node_step l ts n n'"
  shows "worker_reachable l ts me adv (locking_state n')"
proof -
  have "worker_step l ts (locking_state n)
      (wake (delivered n n') ((locking_state n)\<lparr>ws_node := n'\<rparr>))"
    using worker_step.other [of l ts "locking_state n" n'] assms(2) by (simp add: locking_state_def)
  moreover have "wake (delivered n n') ((locking_state n)\<lparr>ws_node := n'\<rparr>) = locking_state n'"
    by (simp add: wake_def locking_state_def)
  ultimately show ?thesis using assms(1) worker_reachable.step by metis
qed

text \<open>
  The worker can sleep through the broadcast it waits for. It opens a connection, and before it
  has locked the condition variable the handshake and the update finish and broadcast; then it goes
  to sleep although the connection is live. No goroutine is left that could broadcast again, no
  connection is tracked and the instance is not ready: the worker is stuck until a peer calls.
\<close>

lemma worker_can_miss_broadcast:
  "\<exists>s. worker_reachable demo_lookup ts ''A'' ''a:1'' s
     \<and> ws_phase s = Asleep 0 [] \<and> cn_live (conn (ws_node s) 0)
     \<and> nd_tasks (ws_node s) = [] \<and> ws_trackers s = [] \<and> \<not> ws_closed s
     \<and> worker_next l s = s \<and> worker_sleep s = s \<and> track i s = s"
proof -
  let ?s = "worker_sleep (locking_state live_node)"
  have "worker_reachable demo_lookup ts ''A'' ''a:1'' (locking_state live_node)"
    using locking_other [OF locking_other [OF locking_reachable greet_step] live_step] .
  then have "worker_reachable demo_lookup ts ''A'' ''a:1'' ?s"
    by (rule worker_reachable.step) (rule worker_step.sleep)
  moreover have "cn_live (conn live_node 0)" "nd_tasks live_node = []"
    by (simp_all add: live_node_def set_live_def set_conn_def conn_def)
  ultimately show ?thesis
    by (intro exI [of _ ?s])
       (simp add: worker_sleep_def locking_state_def worker_next_def track_def)
qed

text \<open>
  \<^verbatim>\<open>/ready\<close> answers 503 until the channel has been closed and its goroutine ran, and 200 ever
  after.
\<close>

lemma ready_probe:
  "(ready_wait closed r = None \<longleftrightarrow> \<not> closed)
   \<and> fst (ready_ServeHTTP \<lparr>rd_ready = False\<rparr>) = 503
   \<and> (\<forall>r'. ready_wait closed r = Some r' \<longrightarrow> fst (ready_ServeHTTP r') = 200 \<and> ready_wait True r' = Some r')"
  by (auto simp: ready_wait_def ready_ServeHTTP_def)

end
