(* ===== verification/Go_Template.thy ===== *)
theory Go_Template
  imports Go_Url
begin

text \<open>
  The part of \<^verbatim>\<open>text/template\<close> and \<^verbatim>\<open>html/template\<close> that the dashboard uses: a syntax of templates, what
  an execution reads and writes, a type checker with its soundness, and the escaping of data in HTML
  text.
\<close>

section \<open>Values and templates\<close>

text \<open>
  The values a template can reach. A struct has its exported fields only. A map is the list of its
  entries in the order of their keys, in which \<^verbatim>\<open>range\<close> visits it. A channel is the list of what is
  received from it until it is closed.
\<close>

datatype gval =
    VStr string
  | VInt int
  | VBool bool
  | VTime time
  | VUrl url
  | VStruct "(string \<times> gval) list"
  | VList "gval list"
  | VMap "(string \<times> gval) list"
  | VChan "gval list"

text \<open>
  A pipeline is an operand (a chain of fields from the dot, or a variable), given to a function or
  not. \<open>RangeNode kv\<close> names the two variables of a \<^verbatim>\<open>range\<close>, if it declares them.
\<close>

datatype operand = Dot "string list" | Var string

datatype pipeline = Plain operand | Call operand string

datatype node =
    TextNode string
  | ActionNode pipeline
  | IfNode pipeline "node list" "node list"
  | RangeNode "(string \<times> string) option" pipeline "node list"
  | TemplateNode string "pipeline option"

type_synonym templates = "(string \<times> node list) list"

text \<open>
  The functions a template may call (\<^verbatim>\<open>Funcs\<close>), and how a time is printed: \<^verbatim>\<open>Time.String\<close> in the time
  zone of the machine.
\<close>

record tenv =
  te_Funcs :: "string \<Rightarrow> gval \<Rightarrow> gval option"
  te_time :: "time \<Rightarrow> string"

section \<open>Escaping\<close>

text \<open>\<^verbatim>\<open>htmlReplacementTable\<close>: the bytes that \<^verbatim>\<open>html/template\<close> replaces in text outside tags.\<close>

definition html_escape_char :: "char \<Rightarrow> string" where
  "html_escape_char c =
     (if c = CHR 0x00 then [CHR 0xEF, CHR 0xBF, CHR 0xBD]
      else if c = CHR 0x22 then ''&#34;''
      else if c = CHR ''&'' then ''&amp;''
      else if c = CHR 0x27 then ''&#39;''
      else if c = CHR ''+'' then ''&#43;''
      else if c = CHR ''<'' then ''&lt;''
      else if c = CHR ''>'' then ''&gt;''
      else [c])"

definition html_escape :: "string \<Rightarrow> string" where
  "html_escape s = concat (map html_escape_char s)"

section \<open>Execution\<close>

text \<open>
  What an execution does in order: it writes a piece of output, or it receives from the channel that
  it ranges over (\<open>Receive True\<close> is a value, \<open>Receive False\<close> the end). An execution stops at its
  first error.
\<close>

datatype tevent = Write string | Receive bool

datatype terror = NoField string | NoVariable string | BadCall string | NoRange | NoPrint
  | NoTemplate string | TooDeep

type_synonym trun = "tevent list \<times> terror option"

fun seq_run :: "trun \<Rightarrow> trun \<Rightarrow> trun" where
  "seq_run (t, Some e) r = (t, Some e)"
| "seq_run (t, None) (t', oe) = (t @ t', oe)"

definition seq_runs :: "trun list \<Rightarrow> trun" where
  "seq_runs rs = foldr seq_run rs ([], None)"

fun eval_fields :: "gval \<Rightarrow> string list \<Rightarrow> terror + gval" where
  "eval_fields v [] = Inr v"
| "eval_fields (VStruct fs) (f # path) =
     (case map_of fs f of None \<Rightarrow> Inl (NoField f) | Some v \<Rightarrow> eval_fields v path)"
| "eval_fields v (f # path) = Inl (NoField f)"

fun eval_operand :: "(string \<rightharpoonup> gval) \<Rightarrow> gval \<Rightarrow> operand \<Rightarrow> terror + gval" where
  "eval_operand vars dot (Dot path) = eval_fields dot path"
| "eval_operand vars dot (Var x) = (case vars x of None \<Rightarrow> Inl (NoVariable x) | Some v \<Rightarrow> Inr v)"

fun eval_pipe :: "tenv \<Rightarrow> (string \<rightharpoonup> gval) \<Rightarrow> gval \<Rightarrow> pipeline \<Rightarrow> terror + gval" where
  "eval_pipe E vars dot (Plain a) = eval_operand vars dot a"
| "eval_pipe E vars dot (Call a f) =
     sum_bind (eval_operand vars dot a) (\<lambda>v.
       (case te_Funcs E f v of None \<Rightarrow> Inl (BadCall f) | Some v' \<Rightarrow> Inr v'))"

text \<open>\<^verbatim>\<open>truth\<close>: what counts as true in an \<^verbatim>\<open>if\<close>.\<close>

fun truth :: "gval \<Rightarrow> bool" where
  "truth (VStr s) = (s \<noteq> [])"
| "truth (VInt i) = (i \<noteq> 0)"
| "truth (VBool b) = b"
| "truth (VList vs) = (vs \<noteq> [])"
| "truth (VMap es) = (es \<noteq> [])"
| "truth v = True"

text \<open>
  \<^verbatim>\<open>printValue\<close> behind the escaper. Structs, containers and booleans can be printed in Go, too; they are
  outside this fragment and count as errors, so that a run without errors prints no such value.
\<close>

fun print_value :: "tenv \<Rightarrow> gval \<Rightarrow> terror + string" where
  "print_value E (VStr s) = Inr (html_escape s)"
| "print_value E (VTime t) = Inr (html_escape (te_time E t))"
| "print_value E v = Inl NoPrint"

text \<open>
  What a \<^verbatim>\<open>range\<close> visits: the key and value of each round. Of a channel each round first receives, and
  the last receive finds the channel closed.
\<close>

fun rounds :: "gval \<Rightarrow> (terror + (tevent list \<times> gval \<times> gval) list \<times> tevent list)" where
  "rounds (VList vs) = Inr (map (\<lambda>(i, v). ([], VInt (int i), v)) (List.enumerate 0 vs), [])"
| "rounds (VMap es) = Inr (map (\<lambda>(k, v). ([], VStr k, v)) es, [])"
| "rounds (VChan vs) =
     Inr (map (\<lambda>(i, v). ([Receive True], VInt (int i), v)) (List.enumerate 0 vs), [Receive False])"
| "rounds v = Inl NoRange"

definition bind_vars ::
  "(string \<times> string) option \<Rightarrow> gval \<Rightarrow> gval \<Rightarrow> (string \<rightharpoonup> gval) \<Rightarrow> (string \<rightharpoonup> gval)" where
  "bind_vars kv k v vars =
     (case kv of None \<Rightarrow> vars | Some (x, y) \<Rightarrow> vars(x \<mapsto> k, y \<mapsto> v))"

text \<open>
  \<open>exec ts E d vars dot ns\<close> walks over the nodes; \<open>d\<close> bounds the nesting of template calls (the
  library gives up at a depth of 100000). A called template starts with no variables and with the
  value of the pipeline as its dot.
\<close>

fun exec :: "templates \<Rightarrow> tenv \<Rightarrow> nat \<Rightarrow> (string \<rightharpoonup> gval) \<Rightarrow> gval \<Rightarrow> node list \<Rightarrow> trun" where
  "exec ts E d vars dot [] = ([], None)"
| "exec ts E d vars dot (TextNode s # ns) = seq_run ([Write s], None) (exec ts E d vars dot ns)"
| "exec ts E d vars dot (ActionNode p # ns) =
     seq_run (case sum_bind (eval_pipe E vars dot p) (print_value E) of
                Inl e \<Rightarrow> ([], Some e) | Inr s \<Rightarrow> ([Write s], None))
       (exec ts E d vars dot ns)"
| "exec ts E d vars dot (IfNode p xs ys # ns) =
     seq_run (case eval_pipe E vars dot p of
                Inl e \<Rightarrow> ([], Some e)
              | Inr v \<Rightarrow> if truth v then exec ts E d vars dot xs else exec ts E d vars dot ys)
       (exec ts E d vars dot ns)"
| "exec ts E d vars dot (RangeNode kv p xs # ns) =
     seq_run (case sum_bind (eval_pipe E vars dot p) rounds of
                Inl e \<Rightarrow> ([], Some e)
              | Inr (rs, fin) \<Rightarrow>
                  seq_run (seq_runs (map (\<lambda>(t, k, v). seq_run (t, None)
                             (exec ts E d (bind_vars kv k v vars) v xs)) rs)) (fin, None))
       (exec ts E d vars dot ns)"
| "exec ts E 0 vars dot (TemplateNode n op # ns) = ([], Some TooDeep)"
| "exec ts E (Suc d) vars dot (TemplateNode n op # ns) =
     seq_run (case map_of ts n of
                None \<Rightarrow> ([], Some (NoTemplate n))
              | Some body \<Rightarrow>
                  (case op of
                     None \<Rightarrow> exec ts E d Map.empty (VStruct []) body
                   | Some p \<Rightarrow>
                       (case eval_pipe E vars dot p of
                          Inl e \<Rightarrow> ([], Some e)
                        | Inr v \<Rightarrow> exec ts E d Map.empty v body)))
       (exec ts E (Suc d) vars dot ns)"

definition maxExecDepth :: nat where
  "maxExecDepth = 100000"

definition ExecuteTemplate :: "templates \<Rightarrow> tenv \<Rightarrow> string \<Rightarrow> gval \<Rightarrow> trun" where
  "ExecuteTemplate ts E n v =
     (case map_of ts n of
        None \<Rightarrow> ([], Some (NoTemplate n))
      | Some body \<Rightarrow> exec ts E maxExecDepth Map.empty v body)"

text \<open>The bytes that a run writes.\<close>

fun written :: "tevent list \<Rightarrow> string" where
  "written [] = []"
| "written (Write s # t) = s @ written t"
| "written (Receive b # t) = written t"

text \<open>
  A writer that takes \<open>n\<close> writes and fails at the next one: the run ends there. \<open>None\<close> is a writer that
  never fails.
\<close>

fun cut_run :: "nat \<Rightarrow> tevent list \<Rightarrow> tevent list" where
  "cut_run n [] = []"
| "cut_run n (Receive b # t) = Receive b # cut_run n t"
| "cut_run 0 (Write s # t) = []"
| "cut_run (Suc n) (Write s # t) = Write s # cut_run n t"

section \<open>Types\<close>

text \<open>
  A type says what a template may do with a value. \<open>agree\<close> relates two values that are the same as far
  as the type shows them: the fields that a struct type does not list may differ. A value has a type
  when it agrees with itself.
\<close>

datatype gty =
    TStr | TInt | TBool | TTime | TUrl
  | TStruct "(string \<times> gty) list"
  | TList gty
  | TMap gty
  | TChan gty

inductive agree :: "gty \<Rightarrow> gval \<Rightarrow> gval \<Rightarrow> bool" where
  agree_Str: "agree TStr (VStr s) (VStr s)"
| agree_Int: "agree TInt (VInt i) (VInt i)"
| agree_Bool: "agree TBool (VBool b) (VBool b)"
| agree_Time: "agree TTime (VTime t) (VTime t)"
| agree_Url: "agree TUrl (VUrl u) (VUrl u)"
| agree_Struct:
    "(\<And>f T. (f, T) \<in> set fts \<Longrightarrow>
        \<exists>v w. map_of fs f = Some v \<and> map_of gs f = Some w \<and> agree T v w) \<Longrightarrow>
      agree (TStruct fts) (VStruct fs) (VStruct gs)"
| agree_List: "list_all2 (agree T) vs ws \<Longrightarrow> agree (TList T) (VList vs) (VList ws)"
| agree_Map:
    "map fst es = map fst es' \<Longrightarrow> list_all2 (agree T) (map snd es) (map snd es') \<Longrightarrow>
      agree (TMap T) (VMap es) (VMap es')"
| agree_Chan: "list_all2 (agree T) vs ws \<Longrightarrow> agree (TChan T) (VChan vs) (VChan ws)"

inductive_cases agree_StrE [elim!]: "agree TStr v w"
inductive_cases agree_TimeE [elim!]: "agree TTime v w"
inductive_cases agree_UrlE [elim!]: "agree TUrl v w"
inductive_cases agree_StructE [elim!]: "agree (TStruct fts) v w"
inductive_cases agree_ListE [elim!]: "agree (TList T) v w"
inductive_cases agree_MapE [elim!]: "agree (TMap T) v w"
inductive_cases agree_ChanE [elim!]: "agree (TChan T) v w"

inductive_simps agree_base_simps [simp]:
  "agree TStr (VStr s) w" "agree TInt (VInt i) w" "agree TBool (VBool b) w"
  "agree TTime (VTime t) w" "agree TUrl (VUrl u) w"

inductive_simps agree_comp_simps:
  "agree (TStruct fts) (VStruct fs) (VStruct gs)" "agree (TList T) (VList vs) (VList ws)"
  "agree (TMap T) (VMap es) (VMap es')" "agree (TChan T) (VChan vs) (VChan ws)"

text \<open>Agreement of structs field by field, for concrete field lists.\<close>

lemma agree_struct_iff:
  "agree (TStruct fts) (VStruct fs) (VStruct gs) \<longleftrightarrow>
     list_all (\<lambda>(f, T). case (map_of fs f, map_of gs f) of (Some v, Some w) \<Rightarrow> agree T v w | _ \<Rightarrow> False) fts"
  by (fastforce simp: agree_comp_simps list_all_iff split: option.splits)

lemma agree_map_list:
  "(\<And>x. x \<in> set xs \<Longrightarrow> agree T (f x) (g x)) \<Longrightarrow> list_all2 (agree T) (map f xs) (map g xs)"
  by (induction xs) auto

lemma agree_truth: "agree T v w \<Longrightarrow> truth v = truth w"
  by (cases rule: agree.cases) (auto dest: list_all2_lengthD)

text \<open>The types of operands and pipelines; \<open>F\<close> gives the argument and result type of a function.\<close>

fun ty_fields :: "gty \<Rightarrow> string list \<Rightarrow> gty option" where
  "ty_fields T [] = Some T"
| "ty_fields (TStruct fts) (f # path) =
     (case map_of fts f of None \<Rightarrow> None | Some T \<Rightarrow> ty_fields T path)"
| "ty_fields T (f # path) = None"

fun ty_operand :: "(string \<rightharpoonup> gty) \<Rightarrow> gty \<Rightarrow> operand \<Rightarrow> gty option" where
  "ty_operand G T (Dot path) = ty_fields T path"
| "ty_operand G T (Var x) = G x"

fun ty_pipe ::
  "(string \<rightharpoonup> gty \<times> gty) \<Rightarrow> (string \<rightharpoonup> gty) \<Rightarrow> gty \<Rightarrow> pipeline \<Rightarrow> gty option" where
  "ty_pipe F G T (Plain a) = ty_operand G T a"
| "ty_pipe F G T (Call a f) =
     (case (ty_operand G T a, F f) of
        (Some A, Some (A', B)) \<Rightarrow> if A = A' then Some B else None
      | _ \<Rightarrow> None)"

fun ty_rounds :: "gty \<Rightarrow> (gty \<times> gty) option" where
  "ty_rounds (TList T) = Some (TInt, T)"
| "ty_rounds (TMap T) = Some (TStr, T)"
| "ty_rounds (TChan T) = Some (TInt, T)"
| "ty_rounds T = None"

definition bind_types ::
  "(string \<times> string) option \<Rightarrow> gty \<Rightarrow> gty \<Rightarrow> (string \<rightharpoonup> gty) \<Rightarrow> (string \<rightharpoonup> gty)" where
  "bind_types kv K T G = (case kv of None \<Rightarrow> G | Some (x, y) \<Rightarrow> G(x \<mapsto> K, y \<mapsto> T))"

text \<open>
  The checker follows the calls of templates, at most \<open>d\<close> deep, and checks a called template at the
  type of its argument.
\<close>

fun wt ::
  "templates \<Rightarrow> (string \<rightharpoonup> gty \<times> gty) \<Rightarrow> nat \<Rightarrow> (string \<rightharpoonup> gty) \<Rightarrow> gty \<Rightarrow> node list \<Rightarrow> bool"
where
  "wt ts F d G T [] = True"
| "wt ts F d G T (TextNode s # ns) = wt ts F d G T ns"
| "wt ts F d G T (ActionNode p # ns) =
     (ty_pipe F G T p \<in> {Some TStr, Some TTime} \<and> wt ts F d G T ns)"
| "wt ts F d G T (IfNode p xs ys # ns) =
     (ty_pipe F G T p \<noteq> None \<and> wt ts F d G T xs \<and> wt ts F d G T ys \<and> wt ts F d G T ns)"
| "wt ts F d G T (RangeNode kv p xs # ns) =
     ((case Option.bind (ty_pipe F G T p) ty_rounds of
         None \<Rightarrow> False
       | Some (K, U) \<Rightarrow> wt ts F d (bind_types kv K U G) U xs)
      \<and> wt ts F d G T ns)"
| "wt ts F 0 G T (TemplateNode n op # ns) = False"
| "wt ts F (Suc d) G T (TemplateNode n op # ns) =
     ((case map_of ts n of
         None \<Rightarrow> False
       | Some body \<Rightarrow>
           (case op of
              None \<Rightarrow> wt ts F d Map.empty (TStruct []) body
            | Some p \<Rightarrow>
                (case ty_pipe F G T p of None \<Rightarrow> False | Some U \<Rightarrow> wt ts F d Map.empty U body)))
      \<and> wt ts F (Suc d) G T ns)"

section \<open>Soundness of the types\<close>

definition agree_vars ::
  "(string \<rightharpoonup> gty) \<Rightarrow> (string \<rightharpoonup> gval) \<Rightarrow> (string \<rightharpoonup> gval) \<Rightarrow> bool" where
  "agree_vars G vs ws \<longleftrightarrow>
     (\<forall>x T. G x = Some T \<longrightarrow> (\<exists>v w. vs x = Some v \<and> ws x = Some w \<and> agree T v w))"

definition agree_funs :: "(string \<rightharpoonup> gty \<times> gty) \<Rightarrow> tenv \<Rightarrow> bool" where
  "agree_funs F E \<longleftrightarrow>
     (\<forall>f A B v w. F f = Some (A, B) \<longrightarrow> agree A v w \<longrightarrow>
        (\<exists>v' w'. te_Funcs E f v = Some v' \<and> te_Funcs E f w = Some w' \<and> agree B v' w'))"

lemma agree_vars_empty [simp]: "agree_vars Map.empty vs ws"
  by (simp add: agree_vars_def)

lemma agree_vars_bind:
  "agree_vars G vs ws \<Longrightarrow> agree K k k' \<Longrightarrow> agree T v w \<Longrightarrow>
    agree_vars (bind_types kv K T G) (bind_vars kv k v vs) (bind_vars kv k' w ws)"
  by (auto simp: agree_vars_def bind_types_def bind_vars_def split: option.splits)

lemma agree_fields:
  "agree T v w \<Longrightarrow> ty_fields T path = Some U \<Longrightarrow>
    \<exists>v' w'. eval_fields v path = Inr v' \<and> eval_fields w path = Inr w' \<and> agree U v' w'"
proof (induction T path arbitrary: v w rule: ty_fields.induct)
  case (2 fts f path)
  then obtain T where T: "map_of fts f = Some T" "ty_fields T path = Some U"
    by (auto split: option.splits)
  then have "(f, T) \<in> set fts" by (simp add: map_of_SomeD)
  with 2 T show ?case by fastforce
qed auto

lemma agree_operand:
  "agree_vars G vs ws \<Longrightarrow> agree T v w \<Longrightarrow> ty_operand G T a = Some U \<Longrightarrow>
    \<exists>v' w'. eval_operand vs v a = Inr v' \<and> eval_operand ws w a = Inr w' \<and> agree U v' w'"
  by (cases a) (fastforce simp: agree_vars_def dest: agree_fields)+

lemma agree_pipe:
  assumes "agree_funs F E" and "agree_vars G vs ws" and "agree T v w" and "ty_pipe F G T p = Some U"
  obtains v' w' where "eval_pipe E vs v p = Inr v'" and "eval_pipe E ws w p = Inr w'" and "agree U v' w'"
proof (cases p)
  case (Plain a)
  with assms agree_operand [OF assms(2,3)] that show thesis by auto
next
  case (Call a f)
  then obtain A where A: "ty_operand G T a = Some A" "F f = Some (A, U)"
    using assms(4) by (auto split: option.splits if_splits)
  from agree_operand [OF assms(2,3) A(1)] obtain x y
    where x: "eval_operand vs v a = Inr x" "eval_operand ws w a = Inr y" "agree A x y" by blast
  with assms(1) A(2) obtain v' w'
    where "te_Funcs E f x = Some v'" "te_Funcs E f y = Some w'" "agree U v' w'"
    unfolding agree_funs_def by blast
  with x Call that show thesis by (simp add: sum_bind_def)
qed

definition agree_round :: "gty \<Rightarrow> gty \<Rightarrow> tevent list \<times> gval \<times> gval \<Rightarrow> tevent list \<times> gval \<times> gval \<Rightarrow> bool"
where
  "agree_round K T = (\<lambda>(t, k, v) (t', k', w). t = t' \<and> agree K k k' \<and> agree T v w)"

lemma agree_enumerated:
  "list_all2 (agree T) vs ws \<Longrightarrow>
    list_all2 (agree_round TInt T) (map (\<lambda>(i, v). (t, VInt (int i), v)) (List.enumerate n vs))
      (map (\<lambda>(i, v). (t, VInt (int i), v)) (List.enumerate n ws))"
  by (induction arbitrary: n rule: list_all2_induct) (auto simp: agree_round_def)

lemma agree_entries:
  "map fst es = map fst es' \<Longrightarrow> list_all2 (agree T) (map snd es) (map snd es') \<Longrightarrow>
    list_all2 (agree_round TStr T) (map (\<lambda>(k, v). ([], VStr k, v)) es) (map (\<lambda>(k, v). ([], VStr k, v)) es')"
proof (induction es arbitrary: es')
  case (Cons e es)
  then show ?case by (cases es') (auto simp: agree_round_def split: prod.splits)
qed simp

lemma agree_rounds:
  assumes "agree T v w" and "ty_rounds T = Some (K, U)"
  obtains rs rs' fin where "rounds v = Inr (rs, fin)" and "rounds w = Inr (rs', fin)"
    and "list_all2 (agree_round K U) rs rs'"
  using assms agree_enumerated [of U _ _ "[]" 0] agree_enumerated [of U _ _ "[Receive True]" 0]
    agree_entries
  by (cases T) auto

lemma seq_run_Nil [simp]: "seq_run r ([], None) = r"
  by (cases r; cases "snd r") auto

text \<open>Two runs that are the same and end without an error.\<close>

definition same_run :: "trun \<Rightarrow> trun \<Rightarrow> bool" where
  "same_run r r' \<longleftrightarrow> r = r' \<and> snd r = None"

lemma same_run_step [simp]: "same_run (t, None) (t, None)"
  by (simp add: same_run_def)

lemma same_run_seq: "same_run r r' \<Longrightarrow> same_run s s' \<Longrightarrow> same_run (seq_run r s) (seq_run r' s')"
  by (cases r; cases s) (auto simp: same_run_def)

lemma same_run_seqs: "list_all2 same_run rs rs' \<Longrightarrow> same_run (seq_runs rs) (seq_runs rs')"
  by (induction rule: list_all2_induct) (auto simp: seq_runs_def intro: same_run_seq)

text \<open>
  A well typed template runs without an error, and its run shows nothing of the values beyond their
  types: on two values that agree it does the same.
\<close>

lemma exec_sound:
  assumes "wt ts F d G T ns" and "agree_funs F E" and "agree_vars G vs ws" and "agree T v w"
  shows "same_run (exec ts E d vs v ns) (exec ts E d ws w ns)"
  using assms
proof (induction ts F d G T ns arbitrary: vs ws v w rule: wt.induct)
  case (2 ts F d G T s ns)
  have "same_run (exec ts E d vs v ns) (exec ts E d ws w ns)" by (rule "2.IH") (use "2.prems" in auto)
  then show ?case by (simp add: same_run_seq del: seq_run.simps)
next
  case (3 ts F d G T p ns)
  have rest: "same_run (exec ts E d vs v ns) (exec ts E d ws w ns)" by (rule "3.IH") (use "3.prems" in auto)
  obtain U where U: "ty_pipe F G T p = Some U" "U = TStr \<or> U = TTime" using "3.prems"(1) by auto
  obtain x y where "eval_pipe E vs v p = Inr x" "eval_pipe E ws w p = Inr y" "agree U x y"
    by (rule agree_pipe [OF "3.prems"(2-4) U(1)])
  with U(2) rest show ?case by (auto intro!: same_run_seq simp del: seq_run.simps)
next
  case (4 ts F d G T p xs ys ns)
  obtain U where U: "ty_pipe F G T p = Some U" using "4.prems"(1) by auto
  obtain x y where x: "eval_pipe E vs v p = Inr x" "eval_pipe E ws w p = Inr y" "agree U x y"
    by (rule agree_pipe [OF "4.prems"(2-4) U(1)])
  have "same_run (exec ts E d vs v us) (exec ts E d ws w us)" if "us = xs \<or> us = ys \<or> us = ns" for us
    using that "4.IH" "4.prems" by auto
  then show ?case
    using x(1,2) agree_truth [OF x(3)] by (auto intro!: same_run_seq simp del: seq_run.simps)
next
  case (5 ts F d G T kv p xs ns)
  obtain A K U where U: "ty_pipe F G T p = Some A" "ty_rounds A = Some (K, U)"
    "wt ts F d (bind_types kv K U G) U xs" and ns: "wt ts F d G T ns"
    using "5.prems"(1) by (auto simp: Option.bind_eq_Some_conv split: option.splits)
  obtain x y where x: "eval_pipe E vs v p = Inr x" "eval_pipe E ws w p = Inr y" "agree A x y"
    by (rule agree_pipe [OF "5.prems"(2-4) U(1)])
  obtain rs rs' fin where rs: "rounds x = Inr (rs, fin)" "rounds y = Inr (rs', fin)"
    "list_all2 (agree_round K U) rs rs'"
    by (rule agree_rounds [OF x(3) U(2)])
  let ?run = "\<lambda>vs. \<lambda>(t, k, v). seq_run (t, None) (exec ts E d (bind_vars kv k v vs) v xs)"
  have bind: "Option.bind (ty_pipe F G T p) ty_rounds = Some (K, U)" using U by simp
  have "same_run (?run vs r) (?run ws r')" if "agree_round K U r r'" for r r'
  proof -
    obtain t k a t' k' a' where "r = (t, k, a)" "r' = (t', k', a')" by (cases r; cases r')
    with that have r: "r = (t, k, a)" "r' = (t, k', a')" "agree K k k'" "agree U a a'"
      by (auto simp: agree_round_def)
    have "same_run (exec ts E d (bind_vars kv k a vs) a xs) (exec ts E d (bind_vars kv k' a' ws) a' xs)"
      by (rule "5.IH"(1) [OF bind refl U(3) "5.prems"(2) _ r(4)]) (rule agree_vars_bind [OF "5.prems"(3) r(3,4)])
    then show ?thesis unfolding r by (auto intro!: same_run_seq simp del: seq_run.simps)
  qed
  then have "list_all2 same_run (map (?run vs) rs) (map (?run ws) rs')"
    using rs(3) by (simp add: list_all2_map1 list_all2_map2 list_all2_mono)
  moreover have "same_run (exec ts E d vs v ns) (exec ts E d ws w ns)"
    by (rule "5.IH"(2) [OF ns "5.prems"(2-4)])
  ultimately show ?case
    using x rs(1,2) by (auto intro!: same_run_seq same_run_seqs simp del: seq_run.simps)
next
  case (7 ts F d G T n op ns)
  obtain body where body: "map_of ts n = Some body" and ns: "wt ts F (Suc d) G T ns"
    using "7.prems"(1) by (auto split: option.splits)
  have rest: "same_run (exec ts E (Suc d) vs v ns) (exec ts E (Suc d) ws w ns)"
    by (rule "7.IH"(3) [OF ns "7.prems"(2-4)])
  show ?case
  proof (cases op)
    case None
    have "wt ts F d Map.empty (TStruct []) body" using "7.prems"(1) body None by simp
    then have "same_run (exec ts E d Map.empty (VStruct []) body) (exec ts E d Map.empty (VStruct []) body)"
      by (rule "7.IH"(1) [OF body None]) (use "7.prems"(2) in \<open>auto simp: agree_comp_simps\<close>)
    with rest body None show ?thesis by (simp add: same_run_seq del: seq_run.simps)
  next
    case (Some p)
    obtain U where U: "ty_pipe F G T p = Some U" "wt ts F d Map.empty U body"
      using "7.prems"(1) body Some by (auto split: option.splits)
    obtain x y where x: "eval_pipe E vs v p = Inr x" "eval_pipe E ws w p = Inr y" "agree U x y"
      by (rule agree_pipe [OF "7.prems"(2-4) U(1)])
    have "same_run (exec ts E d Map.empty x body) (exec ts E d Map.empty y body)"
      by (rule "7.IH"(2) [OF body Some U(1) U(2) "7.prems"(2) _ x(3)]) simp
    with rest body Some x show ?thesis by (simp add: same_run_seq del: seq_run.simps)
  qed
qed (auto simp: same_run_def)

section \<open>The page of a run\<close>

text \<open>
  The output of a run without an error. \<open>page_of\<close> turns the sequence of runs into concatenation, so the
  page of a template can be computed node by node.
\<close>

lemma written_append [simp]: "written (t @ t') = written t @ written t'"
  by (induction t rule: written.induct) auto

definition page_of :: "trun \<Rightarrow> string option" where
  "page_of r = (if snd r = None then Some (written (fst r)) else None)"

lemma page_of_simps [simp]:
  "page_of ([], None) = Some []" "page_of ([Write s], None) = Some s" "page_of ([Receive b], None) = Some []"
  "page_of (t, Some e) = None"
  by (simp_all add: page_of_def)

fun opt_app :: "string option \<Rightarrow> string option \<Rightarrow> string option" where
  "opt_app (Some x) (Some y) = Some (x @ y)"
| "opt_app x y = None"

lemma opt_app_Nil [simp]: "opt_app (Some []) x = x"
  by (cases x) auto

lemma opt_app_Nil2 [simp]: "opt_app x (Some []) = x"
  by (cases x) auto

lemma opt_app_None [simp]: "opt_app x None = None"
  by (cases x) auto

lemma page_of_seq: "page_of (seq_run r r') = opt_app (page_of r) (page_of r')"
  by (cases r; cases r'; cases "snd r"; cases "snd r'") (auto simp: page_of_def)

lemma page_of_seqs: "page_of (seq_runs rs) = foldr opt_app (map page_of rs) (Some [])"
  by (induction rs) (auto simp: seq_runs_def page_of_seq)

lemma opt_app_all [simp]: "foldr opt_app (map (\<lambda>x. Some (f x)) xs) (Some []) = Some (concat (map f xs))"
  by (induction xs) auto

lemma page_of_exec:
  "page_of (exec ts E d vars dot []) = Some []"
  "page_of (exec ts E d vars dot (TextNode x # ns)) = opt_app (Some x) (page_of (exec ts E d vars dot ns))"
  "page_of (exec ts E d vars dot (ActionNode p # ns)) =
     opt_app (case sum_bind (eval_pipe E vars dot p) (print_value E) of Inl e \<Rightarrow> None | Inr y \<Rightarrow> Some y)
       (page_of (exec ts E d vars dot ns))"
  "page_of (exec ts E d vars dot (IfNode p xs ys # ns)) =
     opt_app (case eval_pipe E vars dot p of
         Inl e \<Rightarrow> None | Inr v \<Rightarrow> if truth v then page_of (exec ts E d vars dot xs) else page_of (exec ts E d vars dot ys))
       (page_of (exec ts E d vars dot ns))"
  "page_of (exec ts E (Suc d) vars dot (TemplateNode n op # ns)) =
     opt_app (case map_of ts n of
         None \<Rightarrow> None
       | Some body \<Rightarrow>
           (case op of
              None \<Rightarrow> page_of (exec ts E d Map.empty (VStruct []) body)
            | Some p \<Rightarrow>
                (case eval_pipe E vars dot p of
                   Inl e \<Rightarrow> None | Inr v \<Rightarrow> page_of (exec ts E d Map.empty v body))))
       (page_of (exec ts E (Suc d) vars dot ns))"
  by (simp_all add: page_of_seq del: seq_run.simps split: sum.split option.split)

lemma page_of_range:
  "page_of (exec ts E d vars dot (RangeNode kv p xs # ns)) =
     opt_app (case sum_bind (eval_pipe E vars dot p) rounds of
         Inl e \<Rightarrow> None
       | Inr (rs, fin) \<Rightarrow>
           foldr opt_app (map (\<lambda>(t, k, a). page_of (exec ts E d (bind_vars kv k a vars) a xs)) rs) (Some []))
       (page_of (exec ts E d vars dot ns))"
proof (cases "sum_bind (eval_pipe E vars dot p) rounds")
  case (Inr b)
  then obtain v rs fin where v: "rounds v = Inr (rs, fin)" "b = (rs, fin)"
    by (cases b) (auto simp: sum_bind_eq_Inr)
  have f: "page_of (fin, None) = Some []" and t: "(t, k, a) \<in> set rs \<Longrightarrow> page_of (t, None) = Some []" for t k a
    using v(1) by (cases v; auto)+
  have "map page_of (map (\<lambda>(t, k, v). seq_run (t, None) (exec ts E d (bind_vars kv k v vars) v xs)) rs)
      = map (\<lambda>(t, k, a). page_of (exec ts E d (bind_vars kv k a vars) a xs)) rs"
    using t by (auto simp: page_of_seq simp del: seq_run.simps)
  with v Inr f show ?thesis by (simp add: page_of_seq page_of_seqs del: seq_run.simps map_map)
qed (simp add: page_of_seq del: seq_run.simps)

lemma page_of_rounds:
  assumes "sum_bind (eval_pipe E vars dot p) rounds = Inr (map (\<lambda>(i, u). (t, VInt (int i), u)) (List.enumerate n (map h us)), fin)"
    and "\<And>u. u \<in> set us \<Longrightarrow> page_of (exec ts E d vars (h u) xs) = Some (f u)"
  shows "page_of (exec ts E d vars dot (RangeNode None p xs # ns))
    = opt_app (Some (concat (map f us))) (page_of (exec ts E d vars dot ns))"
proof -
  have "map (\<lambda>(t, k, a). page_of (exec ts E d (bind_vars None k a vars) a xs))
      (map (\<lambda>(i, u). (t, VInt (int i), u)) (List.enumerate n (map h us))) = map (\<lambda>u. Some (f u)) us"
    using assms(2) by (induction us arbitrary: n) (auto simp: bind_vars_def)
  with assms(1) show ?thesis by (simp add: page_of_range del: exec.simps map_map)
qed

section \<open>What is written\<close>

text \<open>The literal pieces of a template, those of the templates it may call left out.\<close>

fun texts :: "node list \<Rightarrow> string list" where
  "texts [] = []"
| "texts (TextNode s # ns) = s # texts ns"
| "texts (ActionNode p # ns) = texts ns"
| "texts (IfNode p xs ys # ns) = texts xs @ texts ys @ texts ns"
| "texts (RangeNode kv p xs # ns) = texts xs @ texts ns"
| "texts (TemplateNode n op # ns) = texts ns"

definition all_texts :: "templates \<Rightarrow> string list" where
  "all_texts ts = concat (map (texts \<circ> snd) ts)"

definition writes_in :: "string set \<Rightarrow> trun \<Rightarrow> bool" where
  "writes_in A r \<longleftrightarrow> (\<forall>s. Write s \<in> set (fst r) \<longrightarrow> s \<in> A)"

lemma writes_in_simps [simp]:
  "writes_in A ([], oe)" "writes_in A ([Write s], oe) \<longleftrightarrow> s \<in> A"
  "writes_in A ([Receive b], oe)"
  by (auto simp: writes_in_def)

lemma writes_in_seq: "writes_in A r \<Longrightarrow> writes_in A r' \<Longrightarrow> writes_in A (seq_run r r')"
  by (cases r; cases r'; cases "snd r") (auto simp: writes_in_def)

lemma writes_in_seqs: "(\<And>r. r \<in> set rs \<Longrightarrow> writes_in A r) \<Longrightarrow> writes_in A (seq_runs rs)"
  by (induction rs) (auto simp: seq_runs_def intro: writes_in_seq)

lemma rounds_receive:
  "rounds v = Inr (rs, fin) \<Longrightarrow>
    writes_in A (fin, None) \<and> (\<forall>(t, k, x) \<in> set rs. writes_in A (t, None))"
  by (cases v) auto

lemma map_of_texts: "map_of ts n = Some body \<Longrightarrow> set (texts body) \<subseteq> set (all_texts ts)"
  by (force simp: all_texts_def dest: map_of_SomeD)

lemma print_value_escapes: "print_value E v = Inr s \<Longrightarrow> s \<in> range html_escape"
  by (cases v) auto

lemma exec_writes:
  assumes "set (texts ns) \<subseteq> A" and "set (all_texts ts) \<subseteq> A" and "range html_escape \<subseteq> A"
  shows "writes_in A (exec ts E d vars dot ns)"
  using assms
proof (induction ts E d vars dot ns rule: exec.induct)
  case (3 ts E d vars dot p ns)
  have "s \<in> A" if "sum_bind (eval_pipe E vars dot p) (print_value E) = Inr s" for s
    using that print_value_escapes "3.prems"(3) by (fastforce simp: sum_bind_eq_Inr)
  with 3 show ?case
    by (auto simp del: seq_run.simps intro!: writes_in_seq split: sum.splits)
next
  case (5 ts E d vars dot kv p xs ns)
  let ?run = "\<lambda>(t, k, v). seq_run (t, None) (exec ts E d (bind_vars kv k v vars) v xs)"
  have "writes_in A (seq_run (seq_runs (map ?run rs)) (fin, None))"
    if r: "sum_bind (eval_pipe E vars dot p) rounds = Inr (rs, fin)" for rs fin
  proof (intro writes_in_seq writes_in_seqs)
    obtain v where v: "rounds v = Inr (rs, fin)" using r by (auto simp: sum_bind_eq_Inr)
    from rounds_receive [OF v] show "writes_in A (fin, None)" by blast
    fix x
    assume "x \<in> set (map ?run rs)"
    then obtain t k a where m: "(t, k, a) \<in> set rs" "x = ?run (t, k, a)" by auto
    have "writes_in A (exec ts E d (bind_vars kv k a vars) a xs)"
      by (rule "5.IH"(1) [OF r refl m(1) refl refl]) (use "5.prems" in auto)
    with rounds_receive [OF v, of A] m show "writes_in A x"
      by (auto simp del: seq_run.simps intro: writes_in_seq)
  qed
  then have "writes_in A (case sum_bind (eval_pipe E vars dot p) rounds of
      Inl e \<Rightarrow> ([], Some e) | Inr (rs, fin) \<Rightarrow> seq_run (seq_runs (map ?run rs)) (fin, None))"
    by (auto simp del: seq_run.simps split: sum.splits)
  moreover have "writes_in A (exec ts E d vars dot ns)" by (rule "5.IH"(2)) (use "5.prems" in auto)
  ultimately show ?case unfolding exec.simps by (rule writes_in_seq)
next
  case (7 ts E d vars dot n op ns)
  with map_of_texts [of ts n] show ?case
    by (auto simp del: seq_run.simps intro!: writes_in_seq split: option.splits sum.splits)
qed (auto simp del: seq_run.simps intro!: writes_in_seq split: sum.splits)

text \<open>Escaped text has no byte that could open a tag or end an attribute, and loses nothing but NULs.\<close>

definition markup_byte :: "char \<Rightarrow> bool" where
  "markup_byte c \<longleftrightarrow> c \<in> {CHR ''<'', CHR ''>'', CHR 0x22, CHR 0x27, CHR 0x00}"

lemma html_escape_no_markup: "c \<in> set (html_escape s) \<Longrightarrow> \<not> markup_byte c"
  by (auto simp: html_escape_def html_escape_char_def markup_byte_def split: if_splits)

fun html_unescape :: "string \<Rightarrow> string" where
  "html_unescape [] = []"
| "html_unescape (c # s) =
     (if c = CHR ''&''
      then (if take 4 s = ''#34;'' then CHR 0x22 # html_unescape (drop 4 s)
            else if take 4 s = ''amp;'' then CHR ''&'' # html_unescape (drop 4 s)
            else if take 4 s = ''#39;'' then CHR 0x27 # html_unescape (drop 4 s)
            else if take 4 s = ''#43;'' then CHR ''+'' # html_unescape (drop 4 s)
            else if take 3 s = ''lt;'' then CHR ''<'' # html_unescape (drop 3 s)
            else if take 3 s = ''gt;'' then CHR ''>'' # html_unescape (drop 3 s)
            else c # html_unescape s)
      else c # html_unescape s)"

lemma html_unescape_escape: "CHR 0x00 \<notin> set s \<Longrightarrow> html_unescape (html_escape s) = s"
  by (induction s) (auto simp: html_escape_def html_escape_char_def)

end
