(* ===== verification/Go_Base64.thy ===== *)
theory Go_Base64
  imports Go_Strings
begin

text \<open>
  The standard encoding of \<^verbatim>\<open>encoding/base64\<close> (with padding), and its decoding as the reference for the
  round trip.
\<close>

definition encodeStd :: string where
  "encodeStd = ''ABCDEFGHIJKLMNOPQRSTUVWXYZabcdefghijklmnopqrstuvwxyz0123456789+/''"

definition b64_digit :: "nat \<Rightarrow> char" where
  "b64_digit i = encodeStd ! i"

text \<open>Three bytes become four digits of six bits each; one or two bytes at the end are padded.\<close>

fun b64_groups :: "nat list \<Rightarrow> string" where
  "b64_groups (a # b # c # bs) =
     [b64_digit (a div 4), b64_digit (a mod 4 * 16 + b div 16), b64_digit (b mod 16 * 4 + c div 64),
      b64_digit (c mod 64)] @ b64_groups bs"
| "b64_groups [a, b] =
     [b64_digit (a div 4), b64_digit (a mod 4 * 16 + b div 16), b64_digit (b mod 16 * 4), CHR ''='']"
| "b64_groups [a] = [b64_digit (a div 4), b64_digit (a mod 4 * 16), CHR ''='', CHR ''='']"
| "b64_groups [] = []"

definition b64_EncodeToString :: "string \<Rightarrow> string" where
  "b64_EncodeToString s = b64_groups (map of_char s)"

section \<open>Decoding\<close>

definition b64_value :: "char \<Rightarrow> nat option" where
  "b64_value c = (if c \<in> set encodeStd then Some (length (takeWhile (\<lambda>d. d \<noteq> c) encodeStd)) else None)"

fun b64_bytes :: "string \<Rightarrow> nat list option" where
  "b64_bytes [] = Some []"
| "b64_bytes (w # x # y # z # s) =
     (case (b64_value w, b64_value x, b64_value y, b64_value z) of
        (Some a, Some b, Some c, Some d) \<Rightarrow>
          map_option (\<lambda>bs. (a * 4 + b div 16) # (b mod 16 * 16 + c div 4) # (c mod 4 * 64 + d) # bs)
            (b64_bytes s)
      | (Some a, Some b, Some c, None) \<Rightarrow>
          if z = CHR ''='' \<and> s = [] then Some [a * 4 + b div 16, b mod 16 * 16 + c div 4] else None
      | (Some a, Some b, None, None) \<Rightarrow>
          if y = CHR ''='' \<and> z = CHR ''='' \<and> s = [] then Some [a * 4 + b div 16] else None
      | _ \<Rightarrow> None)"
| "b64_bytes s = None"

definition b64_DecodeString :: "string \<Rightarrow> string option" where
  "b64_DecodeString s = map_option (map char_of) (b64_bytes s)"

lemma b64_value_digit: "i < 64 \<Longrightarrow> b64_value (b64_digit i) = Some i"
proof -
  have "list_all (\<lambda>i. b64_value (b64_digit i) = Some i) [0..<64]" by code_simp
  then show "i < 64 \<Longrightarrow> b64_value (b64_digit i) = Some i" by (simp add: list_all_iff)
qed

lemma b64_value_pad: "b64_value (CHR ''='') = None"
  by code_simp

text \<open>The six bits a digit takes from one byte or from two, put together again.\<close>

lemma bits_join: "(y :: nat) < m \<Longrightarrow> (x * m + y) div m = x" "(y :: nat) < m \<Longrightarrow> (x * m + y) mod m = y"
  by simp_all

lemma b64_first: "a div 4 * 4 + (a mod 4 * 16 + b div 16) div 16 = a" if "b < 256" for a b :: nat
proof -
  have "b div 16 < 16" using that by (simp add: less_mult_imp_div_less)
  then show ?thesis using bits_join(1) [of "b div 16" 16 "a mod 4"] by simp
qed

lemma b64_second:
  "(a mod 4 * 16 + b div 16) mod 16 * 16 + (b mod 16 * 4 + c div 64) div 4 = b"
  if "b < 256" "c < 256" for a b c :: nat
proof -
  have "b div 16 < 16" "c div 64 < 4" using that by (simp_all add: less_mult_imp_div_less)
  then show ?thesis
    using bits_join(2) [of "b div 16" 16 "a mod 4"] bits_join(1) [of "c div 64" 4 "b mod 16"] by simp
qed

lemma b64_third: "(b mod 16 * 4 + c div 64) mod 4 * 64 + c mod 64 = c" if "c < 256" for b c :: nat
proof -
  have "c div 64 < 4" using that by (simp add: less_mult_imp_div_less)
  then show ?thesis using bits_join(2) [of "c div 64" 4 "b mod 16"] by simp
qed

lemma b64_range: "a div 4 < 64" "a mod 4 * 16 + b div 16 < 64" "a mod 16 * 4 + b div 64 < 64"
  if "a < 256" "b < 256" for a b :: nat
proof -
  have d: "b div 16 < 16" "b div 64 < 4" "a mod 4 < 4" "a mod 16 < 16"
    using that by (simp_all add: less_mult_imp_div_less)
  then show "a mod 4 * 16 + b div 16 < 64" "a mod 16 * 4 + b div 64 < 64" by linarith+
  show "a div 4 < 64" using that by (simp add: less_mult_imp_div_less)
qed

lemma b64_bytes_groups: "\<forall>b \<in> set bs. b < 256 \<Longrightarrow> b64_bytes (b64_groups bs) = Some bs"
proof (induction bs rule: b64_groups.induct)
  case (1 a b c bs)
  then have abc: "a < 256" "b < 256" "c < 256" by auto
  with 1 show ?case
    using b64_first [of b a] b64_second [of b c a] b64_third [of c b]
    by (simp add: b64_value_digit b64_range)
next
  case (2 a b)
  then have ab: "a < 256" "b < 256" by auto
  then show ?case
    using b64_first [of b a] b64_second [of b 0 a] b64_range(3) [of b 0] b64_range(1,2) [of a b]
    by (simp add: b64_value_digit b64_value_pad del: div_mult_self3 mod_mult_self3)
next
  case (3 a)
  then have "a < 256" by simp
  then show ?case
    using b64_first [of 0 a] b64_range [of a 0] by (simp add: b64_value_digit b64_value_pad)
qed simp

lemma b64_decode_encode: "b64_DecodeString (b64_EncodeToString s) = Some s"
proof -
  have "b64_bytes (b64_groups (map of_char s)) = Some (map of_char s)"
    by (rule b64_bytes_groups) simp
  then show ?thesis by (simp add: b64_DecodeString_def b64_EncodeToString_def comp_def)
qed

lemma b64_digit_in: "i < 64 \<Longrightarrow> b64_digit i \<in> set encodeStd"
  using b64_value_digit [of i] by (auto simp: b64_value_def split: if_splits)

lemma b64_groups_chars:
  "\<forall>b \<in> set bs. b < 256 \<Longrightarrow> set (b64_groups bs) \<subseteq> insert (CHR ''='') (set encodeStd)"
proof (induction bs rule: b64_groups.induct)
  case (2 a b)
  then show ?case using b64_range(3) [of b 0] by (auto intro!: b64_digit_in b64_range)
next
  case (3 a)
  then show ?case using b64_range(2) [of a 0] by (auto intro!: b64_digit_in b64_range)
qed (auto intro!: b64_digit_in b64_range)

lemma b64_EncodeToString_chars: "set (b64_EncodeToString s) \<subseteq> insert (CHR ''='') (set encodeStd)"
  unfolding b64_EncodeToString_def by (rule b64_groups_chars) simp

end
