(* ===== verification/Telemetry_Dashboard.thy ===== *)
theory Telemetry_Dashboard
  imports Go_Template Go_Base64 Access_Policy Session_Store
begin

text \<open>
  The telemetry server (\<^verbatim>\<open>src/telemetry/dashboard.go\<close>, the routes of \<^verbatim>\<open>probes.go\<close> and \<^verbatim>\<open>metrics.go\<close>): the
  dashboard template as the parser reads it, the data it is given, and the routes. The template is
  well typed for the data, so a page never fails half way; what it shows is escaped, and it shows no
  secret.
\<close>

section \<open>The template\<close>

text \<open>A line break with the tabs that begin the next line, and its text.\<close>

definition ln :: "nat \<Rightarrow> string \<Rightarrow> string" where
  "ln n s = CHR 0x0A # replicate n (CHR 0x09) @ s"

definition quoted :: "string \<Rightarrow> string" where
  "quoted s = CHR 0x22 # s @ [CHR 0x22]"

text \<open>The recurring \<^verbatim>\<open>{{range $i, $v := .Roles}}{{if $i}}, {{end}}{{$v}}{{end}}\<close>.\<close>

definition comma_list :: "string \<Rightarrow> node" where
  "comma_list f = RangeNode (Some (''i'', ''v'')) (Plain (Dot [f]))
     [IfNode (Plain (Var ''i'')) [TextNode '', ''] [], ActionNode (Plain (Var ''v''))]"

definition tmpl_policy_entry :: "node list" where
  "tmpl_policy_entry =
    [TextNode (ln 1 []),
     TemplateNode ''access-policy'' (Some (Plain (Dot []))),
     TextNode (ln 1 [])]"

definition tmpl_root :: "node list" where
  "tmpl_root =
    [TextNode (ln 0 ''<!DOCTYPE html>'' @ ln 0 ''<html lang='' @ quoted ''en'' @ ''>'' @
       ln 1 ''<head><title>Istio OIDC</title></head>'' @ ln 1 ''<style>'' @ ln 1 ''table {'' @
       ln 1 ''  border-collapse: collapse;'' @ ln 1 ''}'' @ ln 0 [] @ ln 1 ''th, td {'' @
       ln 1 ''  border: 1px solid #999;'' @ ln 1 ''  padding: 0.5rem;'' @ ln 1 ''}'' @
       ln 1 ''</style>'' @ ln 0 ''<body>'' @ ln 1 ''<h2>Access policies</h2>'' @ ln 1 []),
     RangeNode None (Plain (Dot [''AccessPolicies''])) tmpl_policy_entry,
     TextNode (ln 1 ''<h2>Sessions</h2>'' @ ln 1 []),
     TemplateNode ''sessions'' (Some (Plain (Dot []))),
     TextNode (ln 1 ''<h2>Links</h2>'' @ ln 1 []),
     TemplateNode ''links'' None,
     TextNode (ln 0 ''</body>'' @ ln 0 ''</html>'' @ ln 0 [])]"

definition tmpl_route_row :: "node list" where
  "tmpl_route_row =
    [TextNode (ln 1 ''<tr><td>''),
     ActionNode (Plain (Var ''k'')),
     TextNode ''</td>'',
     TemplateNode ''route'' (Some (Plain (Var ''v''))),
     TextNode (''</tr>'' @ ln 1 [])]"

definition tmpl_access_policy :: "node list" where
  "tmpl_access_policy =
    [TextNode (ln 0 ''<h3>''),
     ActionNode (Plain (Dot [''Name''])),
     TextNode (''</h3>'' @ ln 0 ''<table>'' @ ln 1 ''<tr><th>Provider</th><td>''),
     ActionNode (Plain (Dot [''Oidc'', ''Provider'', ''Name''])),
     TextNode (''</td></tr>'' @ ln 1 ''<tr><th>Callback</th><td>''),
     ActionNode (Call (Dot [''Oidc'', ''Callback'']) ''fmtUrl''),
     TextNode (''</td></tr>'' @ ln 1 ''<tr>'' @ ln 2 ''<th>Virtual hosts</th>'' @ ln 2 ''<td>''),
     comma_list ''VirtualHosts'',
     TextNode (''</td>'' @ ln 1 ''</tr>'' @ ln 0 ''</table>'' @ ln 0 ''<h4>Routes</h4>'' @
        ln 0 ''<table>'' @
       ln 1 ''<tr><th>Name</th><th>Enabled</th><th>Roles</th><th>Headers</th></tr>'' @
       ln 1 ''<tr><td><em>Default</em></td>''),
     TemplateNode ''route'' (Some (Plain (Dot [''Default'']))),
     TextNode (''</tr>'' @ ln 1 []),
     RangeNode (Some (''k'', ''v'')) (Plain (Dot [''Routes''])) tmpl_route_row,
     TextNode (ln 0 ''</table>'' @ ln 0 [])]"

definition tmpl_header_row :: "node list" where
  "tmpl_header_row =
    [TextNode (ln 2 ''<tr>'' @ ln 3 ''<td>''),
     ActionNode (Plain (Dot [''Name''])),
     TextNode (''</td>'' @ ln 3 ''<td>''),
     ActionNode (Plain (Dot [''Value''])),
     TextNode (''</td>'' @ ln 3 ''<td>''),
     comma_list ''Roles'',
     TextNode (''</td>'' @ ln 2 ''</tr>'' @ ln 2 [])]"

definition tmpl_route :: "node list" where
  "tmpl_route =
    [TextNode (ln 0 ''<td>''),
     IfNode (Plain (Dot [''EnableAuthz''])) [TextNode ''yes''] [TextNode ''no''],
     TextNode (''</td>'' @ ln 0 ''<td>''),
     comma_list ''Roles'',
     TextNode (''</td>'' @ ln 0 ''<td>'' @ ln 1 []),
     IfNode (Plain (Dot [''Headers'']))
      [TextNode (ln 1 ''<table>'' @ ln 2 ''<tr><th>Name</th><th>Value</th><th>Roles</th></tr>'' @
       ln 2 []),
       RangeNode None (Plain (Dot [''Headers''])) tmpl_header_row,
       TextNode (ln 1 ''</table>'' @ ln 1 [])] [],
     TextNode (ln 0 ''</td>'' @ ln 0 [])]"

definition tmpl_session_row :: "node list" where
  "tmpl_session_row =
    [TextNode (ln 1 ''<tr><td>''),
     ActionNode (Call (Dot [''Id'']) ''fmtId''),
     TextNode ''</td><td>'',
     ActionNode (Plain (Dot [''PeerId''])),
     TextNode ''</td><td>'',
     ActionNode (Plain (Dot [''Expiry''])),
     TextNode (''</td></tr>'' @ ln 1 [])]"

definition tmpl_sessions :: "node list" where
  "tmpl_sessions =
    [TextNode (ln 0 ''<table>'' @ ln 1 ''<tr><th>ID</th><th>Peer</th><th>Expiry</th></tr>'' @ ln 1 []),
     RangeNode None (Plain (Dot [''Sessions''])) tmpl_session_row,
     TextNode (ln 0 ''</table>'' @ ln 0 [])]"

definition tmpl_links :: "node list" where
  "tmpl_links =
    [TextNode (ln 0 ''<a href='' @ quoted ''/health'' @ ''>Liveliness probe</a>'' @
       ln 0 ''<a href='' @ quoted ''/ready'' @ ''>Readiness probe</a>'' @ ln 0 ''<a href='' @
          quoted ''/metrics'' @ ''>Metrics</a>'' @ ln 0 [])]"

definition tmpl :: templates where
  "tmpl = [(''root'', tmpl_root), (''access-policy'', tmpl_access_policy), (''route'', tmpl_route),
     (''sessions'', tmpl_sessions), (''links'', tmpl_links)]"

section \<open>The data\<close>

definition fmtUrl :: "url \<Rightarrow> string" where
  "fmtUrl u = url_String u"

definition fmtId :: "string \<Rightarrow> string" where
  "fmtId i = b64_EncodeToString i"

definition dash_funcs :: "string \<Rightarrow> gval \<Rightarrow> gval option" where
  "dash_funcs f v =
     (case v of
        VUrl u \<Rightarrow> if f = ''fmtUrl'' then Some (VStr (fmtUrl u)) else None
      | VStr s \<Rightarrow> if f = ''fmtId'' then Some (VStr (fmtId s)) else None
      | _ \<Rightarrow> None)"

definition dash_env :: "(time \<Rightarrow> string) \<Rightarrow> tenv" where
  "dash_env show_time = \<lparr>te_Funcs = dash_funcs, te_time = show_time\<rparr>"

text \<open>
  The structs with their exported fields, as reflection shows them to the template; those of an
  embedded struct are reached by their own names.
\<close>

definition names :: "string list \<Rightarrow> gval" where
  "names xs = VList (map VStr xs)"

definition header_value :: "header \<Rightarrow> gval" where
  "header_value h = VStruct
     [(''Name'', VStr (hd_Name h)), (''Value'', VStr (hd_Value h)), (''Roles'', names (hd_Roles h))]"

definition route_value :: "route \<Rightarrow> gval" where
  "route_value r = VStruct
     [(''EnableAuthz'', VBool (rt_EnableAuthz r)), (''Roles'', names (rt_Roles r)),
      (''Headers'', VList (map header_value (rt_Headers r)))]"

definition oidc_value :: "oidc \<Rightarrow> gval" where
  "oidc_value oi = VStruct
     [(''Provider'', VStruct [(''Name'', VStr (op_name (oi_Provider oi)))]),
      (''ClientId'', VStr (oi_ClientId oi)), (''ClientSecret'', VStr (oi_ClientSecret oi)),
      (''TokenSecret'', VStr (oi_TokenSecret oi)), (''Callback'', VUrl (oi_Callback oi))]"

definition routes_value :: "(string \<rightharpoonup> route) \<Rightarrow> gval" where
  "routes_value m = VMap (map (\<lambda>k. (k, route_value (the (m k)))) (sorted_list_of_set (dom m)))"

definition policy_value :: "accessPolicy \<Rightarrow> gval" where
  "policy_value p = VStruct
     [(''Name'', VStr (pol_Name p)), (''Oidc'', oidc_value (pol_Oidc p)),
      (''Default'', route_value (pol_Default p)), (''Routes'', routes_value (pol_Routes p)),
      (''VirtualHosts'', names (pol_VirtualHosts p))]"

definition session_value :: "stamped \<Rightarrow> gval" where
  "session_value v = VStruct
     [(''Id'', VStr (id_of v)), (''RefreshToken'', VStr (sess_refresh (sd_session v))),
      (''Expiry'', VTime (expiry_of v)), (''PeerId'', VStr (peer_of v)),
      (''Serial'', VInt (uint (serial v)))]"

record dashboard =
  db_accessPolicies :: policy_store
  db_sessions :: sessionStore

definition dashboardData :: "accessPolicy list \<Rightarrow> stamped list \<Rightarrow> gval" where
  "dashboardData pols sessions = VStruct
     [(''AccessPolicies'', VChan (map policy_value pols)),
      (''Sessions'', VChan (map session_value sessions))]"

text \<open>
  A request for the dashboard. \<open>ks\<close> and \<open>js\<close> are the orders in which the two stores are streamed.
\<close>

definition ServeHTTP ::
  "(time \<Rightarrow> string) \<Rightarrow> dashboard \<Rightarrow> string list \<Rightarrow> string list \<Rightarrow> trun" where
  "ServeHTTP show_time r ks js =
     ExecuteTemplate tmpl (dash_env show_time) ''root''
       (dashboardData (Stream_policies (db_accessPolicies r) ks) (Stream (db_sessions r) Map.empty js))"

text \<open>
  A client that goes away: the write after the first \<open>n\<close> fails, the template stops there, and the
  channels are not read any further.
\<close>

definition ServeHTTP_broken ::
  "nat \<Rightarrow> (time \<Rightarrow> string) \<Rightarrow> dashboard \<Rightarrow> string list \<Rightarrow> string list \<Rightarrow> tevent list" where
  "ServeHTTP_broken n show_time r ks js = cut_run n (fst (ServeHTTP show_time r ks js))"

section \<open>Routes\<close>

text \<open>
  \<^verbatim>\<open>http.ServeMux\<close>: registering a pattern twice panics; a request goes to the handler of its path, or
  else to that of the longest pattern that ends in a slash and begins the path.
\<close>

datatype tele_handler = Dashboard | Health | Ready | Metrics

type_synonym mux = "(string \<times> tele_handler) list"

definition mux_Handle :: "string \<Rightarrow> tele_handler \<Rightarrow> mux \<Rightarrow> (string, mux) res" where
  "mux_Handle pat h m = (if pat = [] \<or> pat \<in> fst ` set m then Panic else Ok (m @ [(pat, h)]))"

definition mux_prefixes :: "string \<Rightarrow> mux \<Rightarrow> mux" where
  "mux_prefixes path m =
     filter (\<lambda>(pat, h). last pat = CHR ''/'' \<and> take (length pat) path = pat) m"

fun longest :: "mux \<Rightarrow> (string \<times> tele_handler) option" where
  "longest [] = None"
| "longest (e # es) =
     (case longest es of
        None \<Rightarrow> Some e | Some e' \<Rightarrow> if length (fst e) < length (fst e') then Some e' else Some e)"

definition mux_match :: "mux \<Rightarrow> string \<Rightarrow> tele_handler option" where
  "mux_match m path =
     (case map_of m path of
        Some h \<Rightarrow> Some h | None \<Rightarrow> map_option snd (longest (mux_prefixes path m)))"

definition RegisterDashboard :: "mux \<Rightarrow> (string, mux) res" where
  "RegisterDashboard m = mux_Handle ''/'' Dashboard m"

definition RegisterProbes :: "mux \<Rightarrow> (string, mux) res" where
  "RegisterProbes m = res_bind (mux_Handle ''/health'' Health m) (mux_Handle ''/ready'' Ready)"

definition RegisterMetrics :: "mux \<Rightarrow> (string, mux) res" where
  "RegisterMetrics m = mux_Handle ''/metrics'' Metrics m"

definition telemetry_mux :: "(string, mux) res" where
  "telemetry_mux = res_bind (RegisterDashboard []) (\<lambda>m. res_bind (RegisterProbes m) RegisterMetrics)"

lemma telemetry_mux_routes:
  "telemetry_mux = Ok [(''/'', Dashboard), (''/health'', Health), (''/ready'', Ready), (''/metrics'', Metrics)]"
  by (simp add: telemetry_mux_def RegisterDashboard_def RegisterProbes_def RegisterMetrics_def mux_Handle_def)

text \<open>The probes and metrics answer at their paths; the dashboard answers at every other path.\<close>

lemma telemetry_mux_match:
  assumes "telemetry_mux = Ok m"
  shows "mux_match m (CHR ''/'' # path) =
    (if path = ''health'' then Some Health else if path = ''ready'' then Some Ready
     else if path = ''metrics'' then Some Metrics else Some Dashboard)"
  using assms unfolding telemetry_mux_routes
  by (auto simp: mux_match_def mux_prefixes_def)

section \<open>The template is well typed\<close>

definition ty_funcs :: "string \<rightharpoonup> gty \<times> gty" where
  "ty_funcs = [''fmtUrl'' \<mapsto> (TUrl, TStr), ''fmtId'' \<mapsto> (TStr, TStr)]"

definition ty_header :: gty where
  "ty_header = TStruct [(''Name'', TStr), (''Value'', TStr), (''Roles'', TList TStr)]"

definition ty_route :: gty where
  "ty_route = TStruct
     [(''EnableAuthz'', TBool), (''Roles'', TList TStr), (''Headers'', TList ty_header)]"

definition ty_oidc :: gty where
  "ty_oidc = TStruct [(''Provider'', TStruct [(''Name'', TStr)]), (''Callback'', TUrl)]"

definition ty_policy :: gty where
  "ty_policy = TStruct
     [(''Name'', TStr), (''Oidc'', ty_oidc), (''Default'', ty_route), (''Routes'', TMap ty_route),
      (''VirtualHosts'', TList TStr)]"

definition ty_session :: gty where
  "ty_session = TStruct [(''Id'', TStr), (''PeerId'', TStr), (''Expiry'', TTime)]"

definition ty_data :: gty where
  "ty_data = TStruct [(''AccessPolicies'', TChan ty_policy), (''Sessions'', TChan ty_session)]"

lemmas tmpl_defs = tmpl_def tmpl_root_def tmpl_policy_entry_def tmpl_access_policy_def
  tmpl_route_row_def tmpl_route_def tmpl_header_row_def tmpl_sessions_def tmpl_session_row_def
  tmpl_links_def comma_list_def

lemmas ty_defs = ty_funcs_def ty_header_def ty_route_def ty_oidc_def ty_policy_def ty_session_def
  ty_data_def

lemma tmpl_well_typed: "wt tmpl ty_funcs (Suc (Suc (Suc d))) Map.empty ty_data tmpl_root"
  by (simp add: tmpl_defs ty_defs bind_types_def)

lemma maxExecDepth_deep: "\<exists>d. maxExecDepth = Suc (Suc (Suc d))"
  by (rule exI [of _ 99997]) (simp add: maxExecDepth_def)

lemma agree_dash_funcs: "agree_funs ty_funcs (dash_env show_time)"
  by (auto simp: agree_funs_def ty_funcs_def dash_env_def dash_funcs_def split: if_splits)

lemma agree_names [simp]: "agree (TList TStr) (names xs) (names ys) \<longleftrightarrow> xs = ys"
proof -
  have "list_all2 (agree TStr) (map VStr xs) (map VStr ys) \<longleftrightarrow> xs = ys"
    by (induction xs arbitrary: ys) (auto simp: list_all2_Cons1 Cons_eq_map_conv)
  then show ?thesis by (simp add: names_def agree_comp_simps)
qed

lemma agree_header [simp]: "agree ty_header (header_value h) (header_value h)"
  by (simp add: ty_header_def header_value_def agree_struct_iff)

lemma agree_route [simp]: "agree ty_route (route_value r) (route_value r)"
proof -
  have "agree (TList ty_header) (VList (map header_value hs)) (VList (map header_value hs))" for hs
    by (intro agree_List agree_map_list) simp
  then show ?thesis by (simp add: ty_route_def route_value_def agree_struct_iff)
qed

lemma agree_routes [simp]: "agree (TMap ty_route) (routes_value m) (routes_value m)"
  unfolding routes_value_def by (rule agree_Map) (auto simp: comp_def intro!: agree_map_list)

text \<open>
  Two policies look the same on the dashboard when they differ in the credentials of the client, the
  token secret and the configuration of the provider only; two sessions, in the refresh token.
\<close>

definition hide_policy :: "accessPolicy \<Rightarrow> accessPolicy" where
  "hide_policy p = p\<lparr>pol_Oidc := (pol_Oidc p)
     \<lparr>oi_Provider := (oi_Provider (pol_Oidc p))\<lparr>op_cfg := op_cfg zero_provider, op_maps := []\<rparr>,
      oi_ClientId := [], oi_ClientSecret := [], oi_TokenSecret := []\<rparr>\<rparr>"

definition hide_session :: "stamped \<Rightarrow> stamped" where
  "hide_session v = v\<lparr>sd_session := (sd_session v)\<lparr>sess_refresh := []\<rparr>\<rparr>"

lemma agree_policy: "agree ty_policy (policy_value p) (policy_value (hide_policy p))"
  by (simp add: ty_policy_def ty_oidc_def policy_value_def oidc_value_def hide_policy_def agree_struct_iff)

lemma agree_session: "agree ty_session (session_value v) (session_value (hide_session v))"
  by (simp add: ty_session_def session_value_def hide_session_def agree_struct_iff)

lemma agree_data:
  "agree ty_data (dashboardData ps ss) (dashboardData (map hide_policy ps) (map hide_session ss))"
  by (simp add: ty_data_def dashboardData_def agree_struct_iff)
     (intro conjI agree_Chan; simp add: agree_map_list agree_policy agree_session del: list.map_comp)

lemma dashboard_sound:
  "same_run (ExecuteTemplate tmpl (dash_env show_time) ''root'' (dashboardData ps ss))
    (ExecuteTemplate tmpl (dash_env show_time) ''root'' (dashboardData (map hide_policy ps) (map hide_session ss)))"
proof -
  obtain d where d: "maxExecDepth = Suc (Suc (Suc d))" using maxExecDepth_deep by blast
  have root: "map_of tmpl ''root'' = Some tmpl_root" by (simp add: tmpl_def)
  show ?thesis
    unfolding ExecuteTemplate_def root d option.case
    by (rule exec_sound [OF tmpl_well_typed agree_dash_funcs _ agree_data]) simp
qed

text \<open>
  C32: The dashboard never fails half way. For every content of the two stores, in every order of
  streaming them, the template runs to its end without an error: every field that it names exists in the
  structs it is given, every value that it ranges over is a list, a map or a channel, and every function
  is given an argument of its type.
\<close>

theorem dashboard_renders: "snd (ServeHTTP show_time r ks js) = None"
  using dashboard_sound by (simp add: ServeHTTP_def same_run_def)

section \<open>The page shows no secret\<close>

definition hide_secrets :: "dashboard \<Rightarrow> dashboard" where
  "hide_secrets r =
     r\<lparr>db_accessPolicies := map_option hide_policy \<circ> db_accessPolicies r,
       db_sessions := (db_sessions r)
         \<lparr>ss_store := map_option (map hide_session) \<circ> ss_store (db_sessions r)\<rparr>\<rparr>"

lemma Stream_policies_hidden:
  "Stream_policies (db_accessPolicies (hide_secrets r)) ks
    = map hide_policy (Stream_policies (db_accessPolicies r) ks)"
  by (induction ks)
     (auto simp: Stream_policies_def hide_secrets_def map_filter_simps split: option.splits)

lemma Stream_hidden:
  "Stream (db_sessions (hide_secrets r)) from0 js = map hide_session (Stream (db_sessions r) from0 js)"
proof -
  have "peer_list (db_sessions (hide_secrets r)) k = map hide_session (peer_list (db_sessions r) k)" for k
    by (cases "ss_store (db_sessions r) k") (simp_all add: peer_list_def hide_secrets_def lookup0_def)
  then show ?thesis
    by (induction js) (auto simp: Stream_def filter_map comp_def hide_session_def)
qed

text \<open>
  C31: The dashboard shows no secret. The page does not change, byte for byte, when the client ids, client
  secrets and token secrets of all policies, the configuration of their providers and the refresh tokens
  of all sessions are blanked, although the template is given the structs that hold them.
\<close>

theorem dashboard_hides_secrets:
  "ServeHTTP show_time (hide_secrets r) ks js = ServeHTTP show_time r ks js"
  using dashboard_sound
  by (simp add: ServeHTTP_def same_run_def Stream_policies_hidden Stream_hidden)

end
