(* ===== verification/Dashboard_Page.thy ===== *)
theory Dashboard_Page
  imports Telemetry_Dashboard
begin

text \<open>
  What the dashboard shows: the page as a function of the policies and sessions in the stores, that the
  template computes it, and that its cells hold data and no markup of the data's own.
\<close>

declare exec.simps [simp del]

section \<open>The page as a function of the data\<close>

text \<open>The items of a list with commas between them.\<close>

definition commas :: "string list \<Rightarrow> string" where
  "commas xs = join '', '' (map html_escape xs)"

lemma commas_from:
  "concat (map (\<lambda>(i, x). (if i = 0 then [] else '', '') @ html_escape x) (List.enumerate n xs))
    = (if n = 0 \<or> xs = [] then [] else '', '') @ commas xs"
proof (induction xs arbitrary: n)
  case (Cons x xs)
  then show ?case by (cases xs) (auto simp: commas_def)
qed (simp add: commas_def)

lemma page_of_comma_list:
  assumes "eval_fields dot [f] = Inr (names xs)"
  shows "page_of (exec ts E d vars dot (comma_list f # ns))
    = opt_app (Some (commas xs)) (page_of (exec ts E d vars dot ns))"
proof -
  have rs: "rounds (names xs) = Inr (map (\<lambda>(i, x). ([] :: tevent list, VInt (int i), VStr x)) (List.enumerate 0 xs), [])"
    by (simp add: names_def enumerate_map_upt) (simp add: enumerate_eq_zip zip_map2 case_prod_beta)
  have "foldr opt_app (map (\<lambda>(t, k, a). page_of (exec ts E d (bind_vars (Some (''i'', ''v'')) k a vars) a
            [IfNode (Plain (Var ''i'')) [TextNode '', ''] [], ActionNode (Plain (Var ''v''))]))
          (map (\<lambda>(i, x). ([] :: tevent list, VInt (int i), VStr x)) (List.enumerate 0 xs))) (Some [])
      = foldr opt_app (map (\<lambda>x. Some (case x of (i, x) \<Rightarrow> (if i = 0 then [] else '', '') @ html_escape x))
          (List.enumerate 0 xs)) (Some [])"
    by (rule arg_cong [where f = "\<lambda>l. foldr opt_app l (Some [])"]) (auto simp: page_of_exec bind_vars_def)
  also have "\<dots> = Some (commas xs)" using commas_from [of 0 xs] by simp
  finally have run: "foldr opt_app (map (\<lambda>(t, k, a). page_of (exec ts E d (bind_vars (Some (''i'', ''v'')) k a vars) a
            [IfNode (Plain (Var ''i'')) [TextNode '', ''] [], ActionNode (Plain (Var ''v''))]))
          (map (\<lambda>(i, x). ([] :: tevent list, VInt (int i), VStr x)) (List.enumerate 0 xs))) (Some []) = Some (commas xs)" .
  have "sum_bind (eval_pipe E vars dot (Plain (Dot [f]))) rounds
      = Inr (map (\<lambda>(i, x). ([] :: tevent list, VInt (int i), VStr x)) (List.enumerate 0 xs), [])"
    using assms rs by simp
  with run show ?thesis by (simp only: comma_list_def page_of_range sum.case prod.case)
qed

text \<open>The page as a function of the data: what each template makes of its argument.\<close>

definition header_row :: "header \<Rightarrow> string" where
  "header_row h =
     ln 2 ''<tr>'' @ ln 3 ''<td>'' @ html_escape (hd_Name h) @ ''</td>'' @ ln 3 ''<td>''
     @ html_escape (hd_Value h) @ ''</td>'' @ ln 3 ''<td>'' @ commas (hd_Roles h) @ ''</td>''
     @ ln 2 ''</tr>'' @ ln 2 []"

definition route_cells :: "route \<Rightarrow> string" where
  "route_cells r =
     ln 0 ''<td>'' @ (if rt_EnableAuthz r then ''yes'' else ''no'') @ ''</td>''
     @ ln 0 ''<td>'' @ commas (rt_Roles r) @ ''</td>'' @ ln 0 ''<td>'' @ ln 1 []
     @ (if rt_Headers r = [] then []
        else ln 1 ''<table>'' @ ln 2 ''<tr><th>Name</th><th>Value</th><th>Roles</th></tr>'' @ ln 2 []
             @ concat (map header_row (rt_Headers r)) @ ln 1 ''</table>'' @ ln 1 [])
     @ ln 0 ''</td>'' @ ln 0 []"

definition route_row :: "(string \<rightharpoonup> route) \<Rightarrow> string \<Rightarrow> string" where
  "route_row m k = ln 1 ''<tr><td>'' @ html_escape k @ ''</td>'' @ route_cells (the (m k)) @ ''</tr>'' @ ln 1 []"

definition policy_section :: "accessPolicy \<Rightarrow> string" where
  "policy_section p =
     ln 0 ''<h3>'' @ html_escape (pol_Name p) @ ''</h3>''
     @ ln 0 ''<table>''
     @ ln 1 ''<tr><th>Provider</th><td>'' @ html_escape (op_name (oi_Provider (pol_Oidc p))) @ ''</td></tr>''
     @ ln 1 ''<tr><th>Callback</th><td>'' @ html_escape (fmtUrl (oi_Callback (pol_Oidc p))) @ ''</td></tr>''
     @ ln 1 ''<tr>'' @ ln 2 ''<th>Virtual hosts</th>'' @ ln 2 ''<td>'' @ commas (pol_VirtualHosts p)
     @ ''</td>'' @ ln 1 ''</tr>'' @ ln 0 ''</table>''
     @ ln 0 ''<h4>Routes</h4>'' @ ln 0 ''<table>''
     @ ln 1 ''<tr><th>Name</th><th>Enabled</th><th>Roles</th><th>Headers</th></tr>''
     @ ln 1 ''<tr><td><em>Default</em></td>'' @ route_cells (pol_Default p) @ ''</tr>'' @ ln 1 []
     @ concat (map (route_row (pol_Routes p)) (sorted_list_of_set (dom (pol_Routes p))))
     @ ln 0 ''</table>'' @ ln 0 []"

definition session_row :: "(time \<Rightarrow> string) \<Rightarrow> stamped \<Rightarrow> string" where
  "session_row show_time v =
     ln 1 ''<tr><td>'' @ html_escape (fmtId (id_of v)) @ ''</td><td>'' @ html_escape (peer_of v)
     @ ''</td><td>'' @ html_escape (show_time (expiry_of v)) @ ''</td></tr>'' @ ln 1 []"

definition page :: "(time \<Rightarrow> string) \<Rightarrow> accessPolicy list \<Rightarrow> stamped list \<Rightarrow> string" where
  "page show_time pols sessions =
     concat (texts (take 1 tmpl_root))
     @ concat (map (\<lambda>p. ln 1 [] @ policy_section p @ ln 1 []) pols)
     @ ln 1 ''<h2>Sessions</h2>'' @ ln 1 []
     @ ln 0 ''<table>'' @ ln 1 ''<tr><th>ID</th><th>Peer</th><th>Expiry</th></tr>'' @ ln 1 []
     @ concat (map (session_row show_time) sessions) @ ln 0 ''</table>'' @ ln 0 []
     @ ln 1 ''<h2>Links</h2>'' @ ln 1 [] @ concat (texts tmpl_links)
     @ ln 0 ''</body>'' @ ln 0 ''</html>'' @ ln 0 []"

section \<open>What the template computes\<close>

lemma header_page: "page_of (exec ts E d vars (header_value h) tmpl_header_row) = Some (header_row h)"
  by (simp add: tmpl_header_row_def page_of_exec page_of_comma_list header_value_def header_row_def)

lemma route_fields [simp]:
  "eval_fields (route_value r) [''EnableAuthz''] = Inr (VBool (rt_EnableAuthz r))"
  "eval_fields (route_value r) [''Roles''] = Inr (names (rt_Roles r))"
  "eval_fields (route_value r) [''Headers''] = Inr (VList (map header_value (rt_Headers r)))"
  by (simp_all add: route_value_def)

lemma route_page: "page_of (exec ts E d vars (route_value r) tmpl_route) = Some (route_cells r)"
proof -
  have hs: "page_of (exec ts E d vars (route_value r) (RangeNode None (Plain (Dot [''Headers''])) tmpl_header_row # ns))
    = opt_app (Some (concat (map header_row (rt_Headers r)))) (page_of (exec ts E d vars (route_value r) ns))" for ns
    by (rule page_of_rounds [OF _ header_page, where t = "[]" and n = 0 and fin = "[]"]) simp
  show ?thesis
    by (simp add: tmpl_route_def page_of_exec page_of_comma_list hs route_cells_def)
qed

lemma policy_fields [simp]:
  "eval_fields (policy_value p) [''Name''] = Inr (VStr (pol_Name p))"
  "eval_fields (policy_value p) [''Oidc'', ''Provider'', ''Name''] = Inr (VStr (op_name (oi_Provider (pol_Oidc p))))"
  "eval_fields (policy_value p) [''Oidc'', ''Callback''] = Inr (VUrl (oi_Callback (pol_Oidc p)))"
  "eval_fields (policy_value p) [''Default''] = Inr (route_value (pol_Default p))"
  "eval_fields (policy_value p) [''Routes''] = Inr (routes_value (pol_Routes p))"
  "eval_fields (policy_value p) [''VirtualHosts''] = Inr (names (pol_VirtualHosts p))"
  by (simp_all add: policy_value_def oidc_value_def)

lemma tmpl_lookup [simp]:
  "map_of tmpl ''root'' = Some tmpl_root" "map_of tmpl ''access-policy'' = Some tmpl_access_policy"
  "map_of tmpl ''route'' = Some tmpl_route" "map_of tmpl ''sessions'' = Some tmpl_sessions"
  "map_of tmpl ''links'' = Some tmpl_links"
  by (simp_all add: tmpl_def)

lemma routes_page:
  "page_of (exec tmpl E (Suc d) vars (policy_value p)
      (RangeNode (Some (''k'', ''v'')) (Plain (Dot [''Routes''])) tmpl_route_row # ns))
    = opt_app (Some (concat (map (route_row (pol_Routes p)) (sorted_list_of_set (dom (pol_Routes p))))))
        (page_of (exec tmpl E (Suc d) vars (policy_value p) ns))"
proof -
  let ?m = "pol_Routes p"
  have "foldr opt_app (map (\<lambda>(t, k, a). page_of (exec tmpl E (Suc d) (bind_vars (Some (''k'', ''v'')) k a vars) a tmpl_route_row))
      (map (\<lambda>k. ([] :: tevent list, VStr k, route_value (the (?m k)))) ks)) (Some [])
    = Some (concat (map (route_row ?m) ks))" for ks
    by (induction ks) (simp_all add: tmpl_route_row_def page_of_exec bind_vars_def route_page route_row_def)
  moreover have "sum_bind (eval_pipe E vars (policy_value p) (Plain (Dot [''Routes'']))) rounds
      = Inr (map (\<lambda>k. ([], VStr k, route_value (the (?m k)))) (sorted_list_of_set (dom ?m)), [])"
    by (simp add: routes_value_def comp_def)
  ultimately show ?thesis by (simp only: page_of_range sum.case prod.case)
qed

lemma policy_page:
  "page_of (exec tmpl (dash_env st) (Suc d) vars (policy_value p) tmpl_access_policy) = Some (policy_section p)"
  by (simp add: tmpl_access_policy_def page_of_exec page_of_comma_list routes_page route_page
      policy_section_def dash_env_def dash_funcs_def)

lemma session_page:
  "page_of (exec ts (dash_env st) d vars (session_value v) tmpl_session_row) = Some (session_row st v)"
  by (simp add: tmpl_session_row_def page_of_exec session_row_def session_value_def dash_env_def dash_funcs_def)

lemma data_fields [simp]:
  "eval_fields (dashboardData ps ss) [''AccessPolicies''] = Inr (VChan (map policy_value ps))"
  "eval_fields (dashboardData ps ss) [''Sessions''] = Inr (VChan (map session_value ss))"
  by (simp_all add: dashboardData_def)

lemma sessions_page:
  "page_of (exec ts (dash_env st) d vars (dashboardData ps ss) tmpl_sessions) =
     Some (ln 0 ''<table>'' @ ln 1 ''<tr><th>ID</th><th>Peer</th><th>Expiry</th></tr>'' @ ln 1 []
       @ concat (map (session_row st) ss) @ ln 0 ''</table>'' @ ln 0 [])"
proof -
  have "page_of (exec ts (dash_env st) d vars (dashboardData ps ss)
      (RangeNode None (Plain (Dot [''Sessions''])) tmpl_session_row # ns))
    = opt_app (Some (concat (map (session_row st) ss))) (page_of (exec ts (dash_env st) d vars (dashboardData ps ss) ns))" for ns
    by (rule page_of_rounds [OF _ session_page, where t = "[Receive True]" and n = 0 and fin = "[Receive False]"]) simp
  then show ?thesis by (simp add: tmpl_sessions_def page_of_exec)
qed

lemma links_page: "page_of (exec ts E d vars dot tmpl_links) = Some (concat (texts tmpl_links))"
  by (simp add: tmpl_links_def page_of_exec)

lemma root_page:
  "page_of (exec tmpl (dash_env st) (Suc (Suc (Suc d))) vars (dashboardData ps ss) tmpl_root) = Some (page st ps ss)"
proof -
  let ?d = "Suc (Suc (Suc d))"
  have entry: "page_of (exec tmpl (dash_env st) ?d vars (policy_value p) tmpl_policy_entry)
      = Some (ln 1 [] @ policy_section p @ ln 1 [])" for p
    by (simp add: tmpl_policy_entry_def page_of_exec policy_page)
  have "page_of (exec tmpl (dash_env st) ?d vars (dashboardData ps ss)
      (RangeNode None (Plain (Dot [''AccessPolicies''])) tmpl_policy_entry # ns))
    = opt_app (Some (concat (map (\<lambda>p. ln 1 [] @ policy_section p @ ln 1 []) ps)))
        (page_of (exec tmpl (dash_env st) ?d vars (dashboardData ps ss) ns))" for ns
    by (rule page_of_rounds [OF _ entry, where t = "[Receive True]" and n = 0 and fin = "[Receive False]"]) simp
  then show ?thesis by (simp add: tmpl_root_def page_of_exec sessions_page links_page page_def)
qed

text \<open>
  C33: The dashboard shows the policies and sessions that the stores stream. The page is the reference page of
  the streamed policies and sessions: for each policy its name, provider, callback and virtual hosts, its
  default route and its routes in the order of their names, with roles and headers; for each session its id,
  peer and expiry.
\<close>

theorem dashboard_page:
  "written (fst (ServeHTTP show_time r ks js)) =
     page show_time (Stream_policies (db_accessPolicies r) ks) (Stream (db_sessions r) Map.empty js)"
proof -
  obtain d where d: "maxExecDepth = Suc (Suc (Suc d))" using maxExecDepth_deep by blast
  have "page_of (ServeHTTP show_time r ks js) =
      Some (page show_time (Stream_policies (db_accessPolicies r) ks) (Stream (db_sessions r) Map.empty js))"
    by (simp add: ServeHTTP_def ExecuteTemplate_def d root_page)
  then show ?thesis by (simp add: page_of_def split: if_splits)
qed

section \<open>Data and markup\<close>

text \<open>
  No policy or session can put markup on the dashboard. Every piece of output is a literal piece of the
  template or an escaped text, which has no angle bracket, quote or NUL byte in it.
\<close>

lemma dashboard_escapes:
  "writes_in (set (all_texts tmpl) \<union> {s. filter markup_byte s = []}) (ServeHTTP show_time r ks js)"
proof -
  have "filter markup_byte (html_escape s) = []" for s
    using html_escape_no_markup by (auto simp: filter_empty_conv)
  then have "range html_escape \<subseteq> {s. filter markup_byte s = []}" by auto
  moreover have "set (texts tmpl_root) \<subseteq> set (all_texts tmpl)" by (auto simp: all_texts_def tmpl_def)
  ultimately show ?thesis
    by (simp add: ServeHTTP_def ExecuteTemplate_def) (intro exec_writes; blast)
qed

text \<open>
  The id of a session can be read back from its cell: the text of the cell, without the escapes of HTML
  and decoded as base64, is the id, whatever bytes it has.
\<close>

lemma dashboard_id_readable: "b64_DecodeString (html_unescape (html_escape (fmtId i))) = Some i"
proof -
  have "CHR 0x00 \<notin> set (b64_EncodeToString i)"
    using b64_EncodeToString_chars [of i] by (auto simp: encodeStd_def)
  then show ?thesis
    by (simp add: fmtId_def html_unescape_escape b64_decode_encode)
qed

end
