(* ===== verification/Process.thy ===== *)
theory Process
  imports System_Claims Controller_Role Replication_Worker Dashboard_Page
begin

text \<open>
  The process (\<^verbatim>\<open>src/main.go\<close>, \<^verbatim>\<open>src/config/load.go\<close>): how it loads its configuration, makes the state
  that the components share and starts its three goroutines, and how the components then run side by
  side. The operating system, the YAML decoder, the manager of the controller runtime and the listeners
  are parameters. \<^verbatim>\<open>os.Exit\<close> ends the process: the result is then \<open>Err\<close> with the exit status.
\<close>

section \<open>Loading the configuration\<close>

record 'f loader =
  os_Open :: "string \<Rightarrow> go_error + 'f"
  yaml_Decode :: "'f \<Rightarrow> go_error + config"

text \<open>The result is what the global variables of \<^verbatim>\<open>variables.go\<close> are set to.\<close>

definition Load ::
  "'f loader \<Rightarrow> 'ip network \<Rightarrow> (go_error + string) \<Rightarrow> string \<Rightarrow> (exit_status, config) res" where
  "Load ld net ns filename =
     (case os_Open ld filename of
        Inl err \<Rightarrow> Err 1
      | Inr file \<Rightarrow>
          (case yaml_Decode ld file of Inl err \<Rightarrow> Err 1 | Inr cfg \<Rightarrow> normalize net ns cfg))"

section \<open>The shared state\<close>

text \<open>
  The globals, the endpoint lookup of \<^verbatim>\<open>Peers\<close>, the node with the worker and the channel \<^verbatim>\<open>init\<close>, the
  world of the controllers with the policy store, the counters, and the readiness probe.
\<close>

record 'c inst =
  in_Config :: config
  in_lookup :: endpointLookup
  in_sys :: wsys
  in_world :: "'c world"
  in_reqCount :: "string \<times> request_kind \<Rightarrow> nat"
  in_resCount :: "string \<times> response_kind \<Rightarrow> nat"
  in_ready :: ready

definition NewPeers :: "cfg_replication \<Rightarrow> (exit_status, (string \<rightharpoonup> nat) \<times> endpointLookup) res" where
  "NewPeers cfg = res_bind (newEndpointLookup cfg) (\<lambda>l. Ok (Map.empty, l))"

text \<open>\<open>rand\<close> is what the 16 random bytes of the peer id are, \<open>cluster\<close> the state of the cluster.\<close>

definition main_state ::
  "'f loader \<Rightarrow> 'ip network \<Rightarrow> (go_error + string) \<Rightarrow> (go_error + string) \<Rightarrow> 'c \<Rightarrow> string
    \<Rightarrow> (exit_status, 'c inst) res" where
  "main_state ld net ns rand cluster filename =
     res_bind (Load ld net ns filename) (\<lambda>cfg.
     res_bind (case NewPeerId rand of Ok i \<Rightarrow> Ok i | Err err \<Rightarrow> Err 1 | Panic \<Rightarrow> Panic) (\<lambda>peer.
     let apStore = NewAccessPolicyStore;
         sessStore = NewSessionStore peer;
         self = NewSelf peer (AdvertiseAddress (c_Replication cfg)) in
     res_bind (NewPeers (c_Replication cfg)) (\<lambda>(conns, l).
     let node = \<lparr>nd_self = self, nd_store = sessStore, nd_conns = conns, nd_heap = [], nd_tasks = [],
                 nd_broadcasts = []\<rparr>
     in Ok \<lparr>in_Config = cfg, in_lookup = l, in_sys = NewWorker node,
            in_world = \<lparr>w_cluster = cluster, w_calls = [], w_policies = apStore\<rparr>,
            in_reqCount = (\<lambda>_. 0), in_resCount = (\<lambda>_. 0), in_ready = \<lparr>rd_ready = False\<rparr>\<rparr>)))"

section \<open>The goroutines\<close>

text \<open>
  What becomes of a goroutine that has started: it goes on for ever, or it returns. A call that
  blocks, such as \<^verbatim>\<open>Serve\<close>, gives \<open>None\<close> when it never returns.
\<close>

datatype 'a going = Runs 'a | Returned 'a

definition going :: "go_error option option \<Rightarrow> 'a \<Rightarrow> (exit_status, 'a going) res" where
  "going r x =
     (case r of None \<Rightarrow> Ok (Runs x) | Some None \<Rightarrow> Ok (Returned x) | Some (Some err) \<Rightarrow> Err 1)"

record manager_options =
  HealthProbeBindAddress :: string
  MetricsBindAddress :: string
  mo_LeaderElection :: bool
  mo_LeaderElectionNamespace :: string
  LeaderElectionID :: string

record 'c ctrl_env =
  GetConfig :: "go_error option"
  NewManager :: "manager_options \<Rightarrow> go_error + 'c manager"
  Start :: "'c controller list \<Rightarrow> go_error option option"

definition startCtrl ::
  "'c ctrl_env \<Rightarrow> config \<Rightarrow> 'c kube \<Rightarrow> (exit_status, 'c controller list going) res" where
  "startCtrl ce cfg K =
     (case GetConfig ce of
        Some err \<Rightarrow> Err 1
      | None \<Rightarrow>
     (case NewManager ce
             \<lparr>HealthProbeBindAddress = ''0'', MetricsBindAddress = ''0'',
              mo_LeaderElection = LeaderElection (c_Controller cfg),
              mo_LeaderElectionNamespace = LeaderElectionNamespace (c_Controller cfg),
              LeaderElectionID = LeaderElectionName (c_Controller cfg)\<rparr> of
        Inl err \<Rightarrow> Err 1
      | Inr mgr \<Rightarrow>
     (case Register mgr K (c_Controller cfg) of
        Err err \<Rightarrow> Err 1
      | Panic \<Rightarrow> Panic
      | Ok cs \<Rightarrow> going (Start ce cs) cs)))"

text \<open>The services of the gRPC server, and whether the worker of the replication was started.\<close>

datatype service = AuthorizationService | ReplicationService

record grpc_server =
  gs_services :: "service list"
  gs_worker :: bool

definition startExtAuthz :: "grpc_server \<Rightarrow> grpc_server" where
  "startExtAuthz srv = srv\<lparr>gs_services := gs_services srv @ [AuthorizationService]\<rparr>"

definition startReplication :: "grpc_server \<Rightarrow> grpc_server" where
  "startReplication srv =
     srv\<lparr>gs_services := gs_services srv @ [ReplicationService], gs_worker := True\<rparr>"

record net_env =
  Listen :: "string \<Rightarrow> go_error option"
  Serve :: "grpc_server \<Rightarrow> go_error option option"
  ListenAndServe :: "string \<Rightarrow> mux \<Rightarrow> go_error option option"

definition startGrpc :: "net_env \<Rightarrow> config \<Rightarrow> (exit_status, grpc_server going) res" where
  "startGrpc ne cfg =
     (case Listen ne (Address (c_Service cfg)) of
        Some err \<Rightarrow> Err 1
      | None \<Rightarrow>
          (let srv = \<lparr>gs_services = [], gs_worker = False\<rparr>;
               srv = startReplication (startExtAuthz srv)
           in going (Serve ne srv) srv))"

text \<open>The dashboard, the probes and the metrics are registered, and then the server runs.\<close>

definition startTelemetry :: "net_env \<Rightarrow> config \<Rightarrow> (exit_status, mux going) res" where
  "startTelemetry ne cfg =
     (case telemetry_mux of
        Ok mux \<Rightarrow> going (ListenAndServe ne (TelemetryAddress (c_Telemetry cfg)) mux) mux
      | _ \<Rightarrow> Panic)"

text \<open>
  The goroutine of \<^verbatim>\<open>main\<close> starts the three others and then blocks in an empty \<^verbatim>\<open>select\<close>, so the process
  ends only when one of them exits or panics. These are its possible endings.
\<close>

datatype ending = ExitStatus exit_status | Crash

definition ending_of :: "(exit_status, 'a) res \<Rightarrow> ending option" where
  "ending_of r = (case r of Ok x \<Rightarrow> None | Err st \<Rightarrow> Some (ExitStatus st) | Panic \<Rightarrow> Some Crash)"

definition process_ends ::
  "'c ctrl_env \<Rightarrow> net_env \<Rightarrow> 'c kube \<Rightarrow> config \<Rightarrow> ending list" where
  "process_ends ce ne K cfg =
     List.map_filter (\<lambda>x. x)
       [ending_of (startCtrl ce cfg K), ending_of (startGrpc ne cfg), ending_of (startTelemetry ne cfg)]"

section \<open>The components side by side\<close>

text \<open>The auth server as it sees the shared state, and the state after one of its calls.\<close>

definition server_of :: "'c inst \<Rightarrow> server" where
  "server_of i =
     \<lparr>sv_node = ws_node (in_sys i), sv_policies = w_policies (in_world i),
      sv_reqCount = in_reqCount i, sv_resCount = in_resCount i\<rparr>"

definition with_server :: "server \<Rightarrow> 'c inst \<Rightarrow> 'c inst" where
  "with_server srv i =
     i\<lparr>in_sys := (in_sys i)\<lparr>ws_node := sv_node srv\<rparr>, in_reqCount := sv_reqCount srv,
       in_resCount := sv_resCount srv\<rparr>"

text \<open>
  A step of the replication or its worker, a call of Envoy, a reconciliation of any of the three
  controllers, a change of the cluster by others, or the readiness probe that saw the closed channel.
  A step that panics ends the process and is not a step.
\<close>

inductive inst_step ::
  "'c kube \<Rightarrow> leader_env \<Rightarrow> 'b worker_env \<Rightarrow> filter_env \<Rightarrow> ('jws, 'reg, 'n) env \<Rightarrow> 'ts timestamps
    \<Rightarrow> 'c inst \<Rightarrow> 'c inst \<Rightarrow> bool"
  for K le we fe e ts where
  replicate: "worker_step (in_lookup i) ts (in_sys i) s \<Longrightarrow>
    inst_step K le we fe e ts i (i\<lparr>in_sys := s\<rparr>)"
| call: "Check e (server_of i) creq rh = Ok (srv, resp) \<Longrightarrow>
    inst_step K le we fe e ts i (with_server srv i)"
| convert: "Reconcile_worker K we req (in_world i) = (w, r) \<Longrightarrow> r \<noteq> Panic \<Longrightarrow>
    inst_step K le we fe e ts i (i\<lparr>in_world := w\<rparr>)"
| lead: "Reconcile_leader K le req (in_world i) = (w, r) \<Longrightarrow> r \<noteq> Panic \<Longrightarrow>
    inst_step K le we fe e ts i (i\<lparr>in_world := w\<rparr>)"
| fill: "Reconcile_filter K fe req (in_world i) = (w, r) \<Longrightarrow> r \<noteq> Panic \<Longrightarrow>
    inst_step K le we fe e ts i (i\<lparr>in_world := w\<rparr>)"
| cluster: "inst_step K le we fe e ts i (i\<lparr>in_world := (in_world i)\<lparr>w_cluster := c\<rparr>\<rparr>)"
| probe: "ready_wait (ws_closed (in_sys i)) (in_ready i) = Some r \<Longrightarrow>
    inst_step K le we fe e ts i (i\<lparr>in_ready := r\<rparr>)"

text \<open>
  A run of the process from \<open>i0\<close>: the states it went through, the newest first. \<open>clusters\<close> are the states of
  the cluster that it saw.
\<close>

inductive inst_run ::
  "'c kube \<Rightarrow> leader_env \<Rightarrow> 'b worker_env \<Rightarrow> filter_env \<Rightarrow> ('jws, 'reg, 'n) env \<Rightarrow> 'ts timestamps
    \<Rightarrow> 'c inst \<Rightarrow> 'c inst list \<Rightarrow> bool"
  for K le we fe e ts i0 where
  start: "inst_run K le we fe e ts i0 [i0]"
| step: "inst_run K le we fe e ts i0 (i # past) \<Longrightarrow> inst_step K le we fe e ts i i' \<Longrightarrow>
    inst_run K le we fe e ts i0 (i' # i # past)"

definition clusters :: "'c inst list \<Rightarrow> 'c set" where
  "clusters states = (\<lambda>i. w_cluster (in_world i)) ` set states"

section \<open>Facts\<close>

lemma main_state_Ok:
  assumes "main_state ld net ns rand cluster filename = Ok i"
  obtains cfg bytes where "Load ld net ns filename = Ok cfg" and "rand = Inr bytes"
    and "newEndpointLookup (c_Replication cfg) = (Ok (in_lookup i) :: (exit_status, _) res)"
    and "i = \<lparr>in_Config = cfg, in_lookup = in_lookup i,
        in_sys = NewWorker (NewNode (EncodeToString bytes) (AdvertiseAddress (c_Replication cfg))),
        in_world = \<lparr>w_cluster = cluster, w_calls = [], w_policies = NewAccessPolicyStore\<rparr>,
        in_reqCount = (\<lambda>_. 0), in_resCount = (\<lambda>_. 0), in_ready = \<lparr>rd_ready = False\<rparr>\<rparr>"
  using assms
  by (auto simp: main_state_def NewPeers_def NewPeerId_def NewNode_def Let_def split: sum.splits)

definition inst_inv :: "'c kube \<Rightarrow> 'b worker_env \<Rightarrow> string \<Rightarrow> 'c set \<Rightarrow> 'c inst \<Rightarrow> bool" where
  "inst_inv K we me C i \<longleftrightarrow>
     node_inv me (ws_node (in_sys i)) \<and> policies_converted K we C (w_policies (in_world i))
     \<and> (rd_ready (in_ready i) \<longrightarrow> ws_closed (in_sys i))"

lemma node_inv_store_session:
  assumes "node_inv me (sv_node srv)"
  shows "node_inv me (sv_node (store_session e sess srv))"
proof -
  obtain ss r where set: "Set (sv_store srv) sess = (ss, r)" by force
  have "store_reachable me (sv_store srv)" using assms by (simp add: node_inv_def)
  then have "store_reachable me ss" using store_reachable.set set by (metis fst_conv)
  then have "node_inv me ((sv_node srv)\<lparr>nd_store := ss\<rparr>)" by (rule node_inv_store [OF assms])
  then show ?thesis by (simp add: store_session_def set Let_def node_inv_Client_SetSession)
qed

lemma setToken_node_inv:
  "setToken e srv req tok uri = Ok (srv', res) \<Longrightarrow> node_inv me (sv_node srv) \<Longrightarrow> node_inv me (sv_node srv')"
  by (auto dest!: setToken_Ok intro: node_inv_store_session)

lemma answer_node_inv:
  assumes "answer e srv req = Ok (srv', res)" and "node_inv me (sv_node srv)"
  shows "node_inv me (sv_node srv')"
proof -
  have count: "node_inv me (sv_node (count_request p k srv))" for p k
    using assms(2) by (simp add: count_request_def)
  show ?thesis
  proof (cases rule: answer_cases [of req e srv])
    case callback
    then show ?thesis
      using assms(1) count setToken_node_inv [OF _ count, OF sym]
      by (cases rule: finishOidc_cases [of e "count_request (pol_Name (rq_policy req)) Callback srv" req]) auto
  next
    case unauthenticated
    then show ?thesis using assms(1) count by auto
  next
    case (expired reg roles sess)
    then show ?thesis
      using assms(1) count setToken_node_inv [OF _ count, OF sym]
      by (cases rule: updateToken_cases [of e "count_request (pol_Name (rq_policy req)) Expired srv" req sess]) auto
  next
    case (authenticated reg roles sess)
    then show ?thesis using assms(1) count by auto
  qed
qed

lemma Check_node_inv:
  assumes "Check e srv creq rh = Ok (srv', resp)" and "node_inv me (sv_node srv)"
  shows "node_inv me (sv_node srv')"
proof -
  obtain http where h: "cq_Http creq = Some http"
    using assms(1) by (cases "cq_Http creq") (auto simp: Check_def)
  have "node_inv me (sv_node srv1)" if "check e srv req = Ok (srv1, res)" for srv1 req res
    using that answer_node_inv [OF _ assms(2), of e req] by (auto simp: check_answer count_response_def Let_def)
  then show ?thesis
    using assms by (auto simp: Check_http [OF h] Let_def split: sum.splits)
qed

lemma inst_step_inv:
  assumes "inst_step K le we fe e ts i i'" and "inst_inv K we me C i" and "w_cluster (in_world i) \<in> C"
  shows "inst_inv K we me C i'"
  using assms(1,2)
proof cases
  case (replicate s)
  have "ws_closed (in_sys i) \<longrightarrow> ws_closed s"
    using ready_only_when_alone_or_live [OF replicate(2)] by blast
  with replicate assms(2) worker_step_node_inv [OF replicate(2)] show ?thesis by (simp add: inst_inv_def)
next
  case (call creq rh srv resp)
  then have "node_inv me (sv_node srv)"
    using Check_node_inv [OF call(2)] assms(2) by (simp add: inst_inv_def server_of_def)
  with call assms(2) show ?thesis by (simp add: inst_inv_def with_server_def)
next
  case (convert req w r)
  then have "policies_converted K we C (w_policies w)"
    using worker.run_keeps [of "in_world i" C K we req] assms(2,3) by (simp add: inst_inv_def)
  with convert assms(2) show ?thesis by (simp add: inst_inv_def)
next
  case (lead req w r)
  then have "w_policies w = w_policies (in_world i)"
    using leader.run_keeps [of "in_world i" _ K le req] by simp
  with lead assms(2) show ?thesis by (simp add: inst_inv_def)
next
  case (fill req w r)
  then have "w_policies w = w_policies (in_world i)"
    using filler.run_keeps [of "in_world i" _ K fe req] by simp
  with fill assms(2) show ?thesis by (simp add: inst_inv_def)
next
  case (probe r)
  then show ?thesis using assms(2) by (simp add: inst_inv_def ready_wait_def split: if_splits)
qed (simp add: inst_inv_def)

lemma inst_inv_mono: "inst_inv K we me C i \<Longrightarrow> C \<subseteq> D \<Longrightarrow> inst_inv K we me D i"
  by (auto simp: inst_inv_def intro: policies_converted_mono)

lemma inst_run_inv:
  assumes "inst_run K le we fe e ts i0 (i # past)" and "inst_inv K we me {} i0"
  shows "inst_inv K we me (clusters (i # past)) i"
  using assms
proof (induction "i # past" arbitrary: i past rule: inst_run.induct)
  case start
  then show ?case using inst_inv_mono by blast
next
  case (step i past i')
  then have "inst_inv K we me (clusters (i # past)) i'"
    by (intro inst_step_inv [OF step(3)]) (auto simp: clusters_def)
  then show ?case by (rule inst_inv_mono) (auto simp: clusters_def)
qed

lemma main_state_inv:
  assumes "main_state ld net ns (Inr bytes) cluster filename = Ok i"
  shows "inst_inv K we (EncodeToString bytes) {} i"
proof -
  obtain cfg where "i = \<lparr>in_Config = cfg, in_lookup = in_lookup i,
        in_sys = NewWorker (NewNode (EncodeToString bytes) (AdvertiseAddress (c_Replication cfg))),
        in_world = \<lparr>w_cluster = cluster, w_calls = [], w_policies = NewAccessPolicyStore\<rparr>,
        in_reqCount = (\<lambda>_. 0), in_resCount = (\<lambda>_. 0), in_ready = \<lparr>rd_ready = False\<rparr>\<rparr>"
    using main_state_Ok [OF assms] by blast
  then have "in_sys i = NewWorker (NewNode (EncodeToString bytes) (AdvertiseAddress (c_Replication cfg)))"
    and "w_policies (in_world i) = NewAccessPolicyStore" and "in_ready i = \<lparr>rd_ready = False\<rparr>"
    by (metis inst.select_convs world.select_convs)+
  then show ?thesis
    by (simp add: inst_inv_def NewWorker_def node_inv_NewNode policies_converted_New)
qed

lemma New_policy_token_secret:
  assumes "New_policy ap (Some d) = Ok pol"
  shows "d (token_key ap) = Some (oi_TokenSecret (pol_Oidc pol))"
  using assms
  by (auto simp: New_policy_def convert_policy_def convert_oidc_def token_key_def Let_def
      split: prod.splits sum.splits option.splits)

lemma Register_not_Panic: "Register m K cfg \<noteq> Panic"
  by (auto simp: Register_def Register_policies_def Register_filters_def registerLeader_def
      registerWorker_def register_filters_def New_unmanaged_def Watch_def Let_def or_err_def
      wrap_res_def res_bind_eq_Panic split: option.splits res.splits)

section \<open>Claims\<close>

text \<open>
  C1: From the start of the process on, whatever its components do side by side, a request is let
  through only under a policy that the Kubernetes cluster had. The policy that the call names is the
  conversion of an AccessPolicy that could be read from the cluster, in one of the states that the
  cluster had during the run, and was not being deleted there, with the provider and the credentials of
  that state; the bearer token in the cookie verifies under the token secret of these credentials, the
  session of this token is in the store of the instance, the claims have not expired, and they grant
  every role of the named route.
\<close>

theorem admitted_by_converted_policy:
  fixes e :: "('jws, 'reg, 'n) env"
  assumes "main_state ld net ns (Inr bytes) cluster filename = Ok i0"
    and "inst_run K le we fe e ts i0 (i # past)" and "orders_ok e"
    and "Check e (server_of i) creq rh = Ok (srv', OkResponse hs)"
    and "\<forall>m. set (rh m) \<subseteq> dom m"
  shows "\<exists>http c p ap pol sc secret route reg roles token.
    cq_Http creq = Some http
    \<and> c \<in> clusters (i # past) \<and> converted_from K we c p pol \<and> ap = po_Policy p
    \<and> lookup0 [] (cq_ContextExtensions creq) NameKey = ap_Namespace ap @ ''/'' @ ap_Name ap
    \<and> named_route pol (lookup0 [] (cq_ContextExtensions creq) RouteKey) = Some route
    \<and> GetSecret K c (named_secret ap) = Found sc \<and> data_map sc (token_key ap) = Some secret
    \<and> token = bearer_of (readCookies (lookup0 [] (at_Headers http) ''cookie''))
    \<and> parseToken e (jwt_bearer (ev_jwt e)) secret token = Inr (reg, roles)
    \<and> Get (nd_store (ws_node (in_sys i))) (ev_sha512 e token) \<noteq> None
    \<and> \<not> isExpired e reg \<and> set (rt_Roles route) \<subseteq> granted roles"
proof -
  have inv: "inst_inv K we (EncodeToString bytes) (clusters (i # past)) i"
    by (rule inst_run_inv [OF assms(2) main_state_inv [OF assms(1)]])
  obtain http ap route reg roles sess token where call: "cq_Http creq = Some http"
    "Get_policy (sv_policies (server_of i)) (lookup0 [] (cq_ContextExtensions creq) NameKey) = Some ap"
    "named_route ap (lookup0 [] (cq_ContextExtensions creq) RouteKey) = Some route"
    "token = bearer_of (readCookies (lookup0 [] (at_Headers http) ''cookie''))"
    "parseToken e (jwt_bearer (ev_jwt e)) (oi_TokenSecret (pol_Oidc ap)) token = Inr (reg, roles)"
    "Get (sv_store (server_of i)) (ev_sha512 e token) = Some sess"
    "\<not> isExpired e reg" "set (rt_Roles route) \<subseteq> granted roles"
    using Check_passes [OF assms(3-5)] by blast
  have "Get_policy (w_policies (in_world i)) (lookup0 [] (cq_ContextExtensions creq) NameKey) = Some ap"
    using call(2) by (simp add: server_of_def)
  then obtain c p where c: "c \<in> clusters (i # past)" and conv: "converted_from K we c p ap"
    and name: "lookup0 [] (cq_ContextExtensions creq) NameKey
      = ap_Namespace (po_Policy p) @ ''/'' @ ap_Name (po_Policy p)"
    using inv unfolding inst_inv_def policies_converted_def by blast
  obtain sc newAp newOp where sc: "GetSecret K c (named_secret (po_Policy p)) = Found sc"
    and new: "New_policy (po_Policy p) (Some (data_map sc)) = Ok newAp"
    and ap: "ap = newAp\<lparr>pol_Oidc := (pol_Oidc newAp)\<lparr>oi_Provider := newOp\<rparr>\<rparr>"
    using conv unfolding converted_from_def converted_def by blast
  have secret: "data_map sc (token_key (po_Policy p)) = Some (oi_TokenSecret (pol_Oidc ap))"
    using New_policy_token_secret [OF new] by (simp add: ap)
  have stored: "Get (nd_store (ws_node (in_sys i))) (ev_sha512 e token) \<noteq> None"
    using call(6) by (simp add: server_of_def)
  show ?thesis
    using call(1,3-5,7,8) c name conv sc secret stored by blast
qed

subsection \<open>A run of the process\<close>

text \<open>A policy without routes of its own, the process after its start, with a session of a user.\<close>

definition demo_open :: policy_object where
  "demo_open =
     demo_object\<lparr>po_Policy := demo_policy\<lparr>ap_Spec := (ap_Spec demo_policy)\<lparr>as_Routes := []\<rparr>\<rparr>\<rparr>"

definition demo_loader :: "unit loader" where
  "demo_loader = \<lparr>os_Open = \<lambda>f. Inr (), yaml_Decode = \<lambda>f. Inr demo_config\<rparr>"

abbreviation demo_cluster :: "unit kube" where
  "demo_cluster \<equiv> demo_kube [demo_open] (Some demo_secret) []"

definition demo_start :: "(exit_status, unit inst) res" where
  "demo_start = main_state demo_loader demo_network (Inr ''ns'') (Inr ''0123456789abcdef'') () ''config.yaml''"

definition demo_alice :: stamped where
  "demo_alice =
     \<lparr>sd_session = \<lparr>sess_id = ''#token'', sess_refresh = ''rt'', sess_expiry = 99\<rparr>, sd_stamp = zero_stamp\<rparr>"

lemma demo_start_Ok: "\<exists>i0. demo_start = Ok i0"
  by (simp add: demo_start_def main_state_def Load_def demo_loader_def NewPeerId_def NewPeers_def
      newEndpointLookup_def config_eval demo_network_def demo_config_def NoneMode_def StaticMode_def
      DnsMode_def)

lemma demo_open_converts:
  "\<exists>pol. converted demo_cluster demo_worker c (po_Policy demo_open) pol
     \<and> pol_Name pol = ''ns/web'' \<and> rt_Roles (pol_Default pol) = [] \<and> rt_Headers (pol_Default pol) = []
     \<and> oi_TokenSecret (pol_Oidc pol) = ''key'' \<and> url_Path (oi_Callback (pol_Oidc pol)) = ''/oidc/callback''"
proof -
  have spec: "as_OIDC (ap_Spec (po_Policy demo_open)) = as_OIDC (ap_Spec demo_policy)"
    "ap_Namespace (po_Policy demo_open) = ap_Namespace demo_policy"
    by (simp_all add: demo_open_def)
  have "named_secret demo_policy = \<lparr>nn_Namespace = ''ns'', nn_Name = ''s''\<rparr>"
    by (simp add: demo_policy_def)
  then have keys: "provider_key (po_Policy demo_open) = provider_key demo_policy"
    "named_secret (po_Policy demo_open) = \<lparr>nn_Namespace = ''ns'', nn_Name = ''s''\<rparr>"
    unfolding provider_key_def spec by simp_all
  obtain newAp where new: "New_policy (po_Policy demo_open) (Some demo_secret) = Ok newAp"
    and ap: "pol_Name newAp = ''ns/web''" "rt_Roles (pol_Default newAp) = []"
      "rt_Headers (pol_Default newAp) = []" "oi_TokenSecret (pol_Oidc newAp) = ''key''"
      "url_Path (oi_Callback (pol_Oidc newAp)) = ''/oidc/callback''"
    by (simp add: New_policy_def convert_policy_def convert_oidc_def demo_callback_parses
        demo_open_def demo_policy_def demo_secret_def zero_route_def)
  have "GetProvider demo_cluster c \<lparr>nn_Namespace = ''ns'', nn_Name = ''idp''\<rparr> = Found demo_op"
    "\<exists>newOp. New_provider (we_unicode demo_worker) (we_http_get demo_worker) (we_decode demo_worker) demo_op = Ok newOp"
    by (simp_all add: demo_kube_def demo_op_def New_provider_def convert_provider_def doJsonRequest_def
        demo_worker_def convert_mappings_def)
  moreover have "GetSecret demo_cluster c \<lparr>nn_Namespace = ''ns'', nn_Name = ''s''\<rparr>
      = Found \<lparr>sc_Namespace = ''ns'', sc_Name = ''s'', sc_Data = Some demo_secret\<rparr>"
    by (simp add: demo_kube_def)
  ultimately obtain newOp where
    "converted demo_cluster demo_worker c (po_Policy demo_open)
       (newAp\<lparr>pol_Oidc := (pol_Oidc newAp)\<lparr>oi_Provider := newOp\<rparr>\<rparr>)"
    unfolding converted_def keys demo_provider_key using new by (auto simp: data_map_def)
  with ap show ?thesis
    by (intro exI [of _ "newAp\<lparr>pol_Oidc := (pol_Oidc newAp)\<lparr>oi_Provider := newOp\<rparr>\<rparr>"] conjI) simp_all
qed

lemma demo_run:
  obtains i0 i past pol where "demo_start = Ok i0"
    and "inst_run demo_cluster demo_leader demo_worker demo_filter_env demo_env demo_timestamps i0 (i # past)"
    and "Get_policy (w_policies (in_world i)) ''ns/web'' = Some pol"
    and "rt_Roles (pol_Default pol) = []" and "rt_Headers (pol_Default pol) = []"
    and "oi_TokenSecret (pol_Oidc pol) = ''key''"
    and "url_Path (oi_Callback (pol_Oidc pol)) = ''/oidc/callback''"
    and "Get (nd_store (ws_node (in_sys i))) ''#token'' = Some (sd_session demo_alice)"
proof -
  obtain i0 where i0: "demo_start = Ok i0" using demo_start_Ok by blast
  then have world: "w_policies (in_world i0) = NewAccessPolicyStore" and id: "\<exists>me adv. in_sys i0 = NewWorker (NewNode me adv)"
    unfolding demo_start_def by (metis main_state_Ok inst.select_convs world.select_convs)+
  then obtain me adv where sys: "in_sys i0 = NewWorker (NewNode me adv)" by blast
  obtain pol where pol: "converted demo_cluster demo_worker () (po_Policy demo_open) pol"
    "pol_Name pol = ''ns/web''" "rt_Roles (pol_Default pol) = []" "rt_Headers (pol_Default pol) = []"
    "oi_TokenSecret (pol_Oidc pol) = ''key''" "url_Path (oi_Callback (pol_Oidc pol)) = ''/oidc/callback''"
    using demo_open_converts by blast
  let ?req = "policy_key (po_Policy demo_open)"
  obtain w r where rec: "Reconcile_worker demo_cluster demo_worker ?req (in_world i0) = (w, r)" by force
  have get: "GetPolicy demo_cluster (w_cluster (in_world i0)) ?req = Found demo_open"
    by (simp add: demo_kube_def)
  have live: "po_DeletionTimestamp demo_open = zero_time" by (simp add: demo_open_def demo_object_def)
  have auth: "reconcileAuth demo_cluster demo_worker (po_Policy demo_open) (in_world i0) = (w, r)"
    using rec get live by (simp add: Reconcile_worker_def)
  have conv: "converted demo_cluster demo_worker (w_cluster (in_world i0)) (po_Policy demo_open) pol"
    using pol(1) by simp
  have w: "r = Ok ()" "w = (in_world i0)\<lparr>w_policies := Update_policy pol (w_policies (in_world i0))\<rparr>"
    using reconcileAuth_cases [OF auth] conv by (auto dest: converted_unique)
  define i1 where "i1 = i0\<lparr>in_world := w\<rparr>"
  define n where "n = Client_SetSession demo_alice []
      ((NewNode me adv)\<lparr>nd_store := fst (Set (nd_store (NewNode me adv)) demo_alice)\<rparr>)"
  define s where "s = wake (delivered (NewNode me adv) n) ((NewWorker (NewNode me adv))\<lparr>ws_node := n\<rparr>)"
  define i where "i = i1\<lparr>in_sys := s\<rparr>"
  have 1: "inst_step demo_cluster demo_leader demo_worker demo_filter_env demo_env demo_timestamps i0 i1"
    unfolding i1_def by (rule inst_step.convert [OF rec]) (simp add: w)
  have "node_step (in_lookup i1) demo_timestamps (NewNode me adv) n"
    unfolding n_def by (rule node_step.local_session) (simp add: NewNode_def)
  then have "worker_step (in_lookup i1) demo_timestamps (in_sys i1) s"
    unfolding s_def using worker_step.other [of _ _ "NewWorker (NewNode me adv)" n]
    by (simp add: i1_def sys NewWorker_def)
  then have 2: "inst_step demo_cluster demo_leader demo_worker demo_filter_env demo_env demo_timestamps i1 i"
    unfolding i_def by (rule inst_step.replicate)
  have "Get (nd_store (ws_node (in_sys i))) ''#token'' = Some (sd_session demo_alice)"
    by (simp add: i_def s_def n_def Client_SetSession_def getConnections_def List.map_filter_def
        NewNode_def demo_alice_def store_eval)
  moreover have "Get_policy (w_policies (in_world i)) ''ns/web'' = Some pol"
    using pol(2) w by (simp add: i_def i1_def Get_policy_def Update_policy_def)
  moreover have "inst_run demo_cluster demo_leader demo_worker demo_filter_env demo_env demo_timestamps i0 [i, i1, i0]"
    by (rule inst_run.step [OF inst_run.step [OF inst_run.start 1] 2])
  ultimately show thesis using that i0 pol(3-6) by blast
qed

lemma demo_admitted:
  assumes "Get_policy (sv_policies srv) ''ns/web'' = Some pol" and "rt_Roles (pol_Default pol) = []"
    and "rt_Headers (pol_Default pol) = []" and "oi_TokenSecret (pol_Oidc pol) = ''key''"
    and "url_Path (oi_Callback (pol_Oidc pol)) = ''/oidc/callback''"
    and "Get (sv_store srv) ''#token'' = Some sess"
  shows "\<exists>srv'. Check demo_env srv (demo_call ''ns/web'') demo_range_headers = Ok (srv', OkResponse [])"
proof -
  let ?u = "empty_url\<lparr>url_Scheme := ''https'', url_Host := ''h'', url_Path := ''/app'', url_RawQuery := []\<rparr>"
  have u: "url_Parse ''https://h/app'' = Inr ?u" by code_simp
  have c: "readCookies (''bearer'' @ ''='' @ ''token'') = [\<lparr>ck_Name = ''bearer'', ck_Value = ''token''\<rparr>]"
    by (rule read_token_cookie)
       (simp_all add: isCookieNameValid_def isToken_def alphanumeric_def visible_def token_char_def)
  define req :: "unit request" where "req =
    \<lparr>rq_url = ?u, rq_cookies = [\<lparr>ck_Name = ''bearer'', ck_Value = ''token''\<rparr>], rq_fetchMode = ''navigate'',
     rq_policy = pol, rq_route = pol_Default pol, rq_claims = None, rq_session = None\<rparr>"
  have new: "newRequest srv ''https://h/app'' ''bearer=token'' ''navigate'' [''accessPolicy'' \<mapsto> ''ns/web'']
      = Inr req"
    using u c assms(1) by (simp add: newRequest_def Let_def NameKey_def RouteKey_def req_def)
  have url: "rq_url req = rq_url (demo_request ''/app'' [] ''token'')"
    by (simp add: req_def demo_request_def)
  have "Query (rq_url req) = Map.empty" unfolding url by (rule demo_query)
  then have loc: "\<exists>l. location (rq_url req) = (Ok l :: (go_error, url) res)"
    by (simp add: location_def Let_def)
  have cb: "\<not> is_callback req" by (simp add: is_callback_def IsCallback_def req_def assms(5))
  have b: "bearer_session demo_env srv req () demo_roles sess"
    using assms(4,6)
    by (simp add: bearer_session_def bearer_def bearerCookie_def req_def token_secret_def parseToken_def
        demo_env_def demo_jwt_def)
  have "\<not> isExpired demo_env ()" by (simp add: isExpired_def demo_env_def demo_jwt_def)
  then have ans: "answer demo_env srv req =
      Ok (count_request (pol_Name (rq_policy req)) Authenticated srv, authorize demo_env req demo_roles)"
    using answer_authenticated [OF cb b] by simp
  have auth: "authorize demo_env req demo_roles = \<lparr>rs_status = 200, rs_headers = Map.empty\<rparr>"
    using hasRoles_iff [of demo_roles "[''r:'']" "[]"] assms(2,3)
    by (simp add: authorize_def req_def demo_env_def ranges_def demo_roles_def)
  obtain srv' where "check demo_env srv req = Ok (srv', \<lparr>rs_status = 200, rs_headers = Map.empty\<rparr>)"
    using loc by (auto simp: check_answer ans auth)
  then show ?thesis by (simp add: Check_def demo_call_def new demo_range_headers_def)
qed

theorem admitted_by_converted_policy_witness:
  "\<exists>i0 i past srv' c p pol.
     demo_start = Ok i0
     \<and> inst_run demo_cluster demo_leader demo_worker demo_filter_env demo_env demo_timestamps i0 (i # past)
     \<and> Check demo_env (server_of i) (demo_call ''ns/web'') demo_range_headers = Ok (srv', OkResponse [])
     \<and> c \<in> clusters (i # past) \<and> converted_from demo_cluster demo_worker c p pol
     \<and> Get (nd_store (ws_node (in_sys i))) ''#token'' \<noteq> None"
proof -
  obtain i0 i past pol where run: "demo_start = Ok i0"
    "inst_run demo_cluster demo_leader demo_worker demo_filter_env demo_env demo_timestamps i0 (i # past)"
    and pol: "Get_policy (w_policies (in_world i)) ''ns/web'' = Some pol" "rt_Roles (pol_Default pol) = []"
    "rt_Headers (pol_Default pol) = []" "oi_TokenSecret (pol_Oidc pol) = ''key''"
    "url_Path (oi_Callback (pol_Oidc pol)) = ''/oidc/callback''"
    "Get (nd_store (ws_node (in_sys i))) ''#token'' = Some (sd_session demo_alice)"
    by (rule demo_run)
  obtain srv' where ok: "Check demo_env (server_of i) (demo_call ''ns/web'') demo_range_headers
      = Ok (srv', OkResponse [])"
    using demo_admitted [of "server_of i" pol "sd_session demo_alice"] pol by (auto simp: server_of_def)
  have "\<forall>m. set (demo_range_headers m) \<subseteq> dom m" by (auto simp: demo_range_headers_def)
  then obtain c p pol' where "c \<in> clusters (i # past)" "converted_from demo_cluster demo_worker c p pol'"
    using admitted_by_converted_policy [OF run(1) [unfolded demo_start_def] run(2) demo_orders_ok ok] by blast
  with run ok pol(6) show ?thesis by blast
qed

text \<open>
  C5: In every state that the process can reach from its start, with any interleaving of the calls of
  Envoy, the replication with its worker, the three controllers and changes of the cluster: the
  connections, the tasks and the session store of the node satisfy their invariant, under the identity
  chosen at the start; every policy in the policy store is the conversion, under its own name, of a policy
  that could be read from the cluster at some moment of the run; and the readiness probe answers 200 only
  if the channel of the worker is closed.
\<close>

theorem instance_invariant:
  assumes "main_state ld net ns (Inr bytes) cluster filename = Ok i0"
    and "inst_run K le we fe e ts i0 (i # past)"
  shows "node_inv (EncodeToString bytes) (ws_node (in_sys i))
    \<and> policies_converted K we (clusters (i # past)) (w_policies (in_world i))
    \<and> (fst (ready_ServeHTTP (in_ready i)) = 200 \<longrightarrow> ws_closed (in_sys i))"
  using inst_run_inv [OF assms(2) main_state_inv [OF assms(1)]]
  by (simp add: inst_inv_def ready_ServeHTTP_def)

theorem instance_invariant_witness:
  "\<exists>i0 i past pol c p. demo_start = Ok i0
     \<and> inst_run demo_cluster demo_leader demo_worker demo_filter_env demo_env demo_timestamps i0 (i # past)
     \<and> Get_policy (w_policies (in_world i)) ''ns/web'' = Some pol
     \<and> c \<in> clusters (i # past) \<and> converted_from demo_cluster demo_worker c p pol"
proof -
  obtain i0 i past pol where run: "demo_start = Ok i0"
    "inst_run demo_cluster demo_leader demo_worker demo_filter_env demo_env demo_timestamps i0 (i # past)"
    and pol: "Get_policy (w_policies (in_world i)) ''ns/web'' = Some pol"
    by (rule demo_run)
  have "policies_converted demo_cluster demo_worker (clusters (i # past)) (w_policies (in_world i))"
    using instance_invariant [OF run(1) [unfolded demo_start_def] run(2)] by blast
  then obtain c p where "c \<in> clusters (i # past)" "converted_from demo_cluster demo_worker c p pol"
    using pol unfolding policies_converted_def by blast
  with run pol show ?thesis by blast
qed

text \<open>
  The three goroutines end the process only with exit status 1, as long as no component panics. When
  the manager of the controllers stops without an error, as it does on the first termination signal,
  the process does not end: it is all the same as if the manager went on.
\<close>

lemma stopped_manager_leaves_process:
  "set (process_ends ce ne K cfg) \<subseteq> {ExitStatus 1}
   \<and> process_ends (ce\<lparr>Start := \<lambda>cs. Some None\<rparr>) ne K cfg
     = process_ends (ce\<lparr>Start := \<lambda>cs. None\<rparr>) ne K cfg"
proof (intro conjI)
  have ctrl: "startCtrl ce cfg K \<noteq> Panic \<and> (\<forall>st. startCtrl ce cfg K = Err st \<longrightarrow> st = 1)"
    using Register_not_Panic
    by (auto simp: startCtrl_def going_def split: option.splits sum.splits res.splits)
  have grpc: "startGrpc ne cfg \<noteq> Panic \<and> (\<forall>st. startGrpc ne cfg = Err st \<longrightarrow> st = 1)"
    by (auto simp: startGrpc_def going_def Let_def split: option.splits)
  have tel: "startTelemetry ne cfg \<noteq> Panic \<and> (\<forall>st. startTelemetry ne cfg = Err st \<longrightarrow> st = 1)"
    by (auto simp: startTelemetry_def telemetry_mux_routes going_def split: option.splits)
  have end_of: "r \<noteq> Panic \<Longrightarrow> (\<forall>st. r = Err st \<longrightarrow> st = 1) \<Longrightarrow> ending_of r \<in> {None, Some (ExitStatus 1)}"
    for r :: "(exit_status, 'x) res"
    by (cases r) (auto simp: ending_of_def)
  show "set (process_ends ce ne K cfg) \<subseteq> {ExitStatus 1}"
    using end_of [of "startCtrl ce cfg K"] end_of [of "startGrpc ne cfg"] end_of [of "startTelemetry ne cfg"]
      ctrl grpc tel
    by (auto simp: process_ends_def List.map_filter_def split: if_splits)
next
  have "ending_of (startCtrl (ce\<lparr>Start := \<lambda>cs. Some None\<rparr>) cfg K)
      = ending_of (startCtrl (ce\<lparr>Start := \<lambda>cs. None\<rparr>) cfg K)"
    by (simp add: startCtrl_def going_def ending_of_def split: option.split sum.split res.split)
  then show "process_ends (ce\<lparr>Start := \<lambda>cs. Some None\<rparr>) ne K cfg
      = process_ends (ce\<lparr>Start := \<lambda>cs. None\<rparr>) ne K cfg"
    by (simp add: process_ends_def)
qed

end
