(* ===== verification/Leader_Fixpoint.thy ===== *)
theory Leader_Fixpoint
  imports Policy_Leader
begin

text \<open>
  The leader at rest (\<^verbatim>\<open>src/controller/accesspolicy/leader.go\<close>): on a policy that is already as its
  contract asks, a run writes back what it read and does nothing else, so the controllers do not keep each
  other busy.
\<close>

text \<open>
  Everything the leader reads for a live policy is as it would leave it: \<open>gw\<close> and \<open>sc\<close> are the gateway and
  the credentials secret of the policy.
\<close>

definition settled :: "'c kube \<Rightarrow> leader_env \<Rightarrow> 'c \<Rightarrow> policy_object \<Rightarrow> gateway \<Rightarrow> secret \<Rightarrow> bool" where
  "settled K e c p gw sc \<longleftrightarrow>
     (let ap = po_Policy p; ref = ao_CredentialsSecret (as_OIDC (ap_Spec ap)) in
      po_DeletionTimestamp p = zero_time \<and> finalizer \<in> set (po_Finalizers p)
      \<and> Validate ap = [] \<and> Normalize ap = ap
      \<and> GetGateway K c (gateway_key ap) = Found gw \<and> (\<forall>srv \<in> set (gw_Servers gw). \<not> portless srv)
      \<and> with_status p gw = p
      \<and> GetSecret K c (secret_key ap) = Found sc
      \<and> secret_value sc (cs_ClientIDKey ref) \<noteq> [] \<and> secret_value sc (cs_ClientSecretKey ref) \<noteq> []
      \<and> length (secret_value sc (cs_TokenSecretKey ref)) = sha512_Size
      \<and> (no_selector ap
         \<or> (\<exists>items. ListFilters K c (IstioRootNamespace (le_Config e)) (EnvoyFilterLabels (le_Config e)) = Inr items
              \<and> (\<exists>ef \<in> set items. filter_selector ef = policy_selector ap))))"

text \<open>An update that brings nothing new leaves the cluster as it is and answers with the same object.\<close>

definition same_update :: "('a \<Rightarrow> 'c \<Rightarrow> 'c \<times> (go_error + 'a)) \<Rightarrow> 'a \<Rightarrow> 'c \<Rightarrow> bool" where
  "same_update write x c \<longleftrightarrow> write x c = (c, Inr x)"

lemma send_same: "same_update write x (w_cluster w) \<Longrightarrow>
    send write mk_call on_err x w = (w\<lparr>w_calls := w_calls w @ [mk_call x]\<rparr>, Ok x)"
  by (simp add: send_def same_update_def)

lemma act_bind_same: "m w = (w', Ok x) \<Longrightarrow> act_bind m f w = f x w'"
  by (simp add: act_bind_def)

lemma reconcileSpec_settled:
  "settled K e c p gw sc \<Longrightarrow> same_update (UpdatePolicy K) p (w_cluster w) \<Longrightarrow>
    reconcileSpec K p w = (w\<lparr>w_calls := w_calls w @ [WritePolicy p]\<rparr>, Ok p)"
  by (simp add: reconcileSpec_def settled_def Let_def act_bind_def record_calls_def send_same)

lemma reconcileStatus_settled:
  assumes "settled K e (w_cluster w) p gw sc" and "leader_laws K e"
    and "same_update (UpdatePolicyStatus K) p (w_cluster w)"
  shows "reconcileStatus K e p w = (w\<lparr>w_calls := w_calls w @ [WriteStatus p]\<rparr>, Ok p)"
proof -
  have gw: "GetGateway K (w_cluster w) (gateway_key (po_Policy p)) = Found gw"
    and hosts: "virtualHosts gw = Ok (concat (map hosts_of (gw_Servers gw)))" and st: "with_status p gw = p"
    using assms(1) by (auto simp: settled_def Let_def virtualHosts_result)
  have "ranges (gw_Selector gw) (le_range_labels e (gw_Selector gw))"
    using assms(2) gw unfolding leader_laws_def by blast
  from selector_copies [OF this] show ?thesis
    using st by (simp add: reconcileStatus_def gw hosts send_same assms(3) with_status_def [symmetric])
qed

lemma reconcileSecret_settled:
  assumes "settled K e (w_cluster w) p gw sc" and "same_update (UpdateSecret K) sc (w_cluster w)"
  shows "reconcileSecret K e (po_Policy p) w = (w\<lparr>w_calls := w_calls w @ [WriteSecret sc]\<rparr>, Ok ())"
  using assms
  by (simp add: settled_def Let_def reconcileSecret_def update_secret_def write_secret_def act_bind_def
      act_return_def record_calls_def send_same)

lemma reconcileEnvoyFilter_settled:
  assumes "settled K e (w_cluster w) p gw sc"
  shows "reconcileEnvoyFilter K e (po_Policy p) w = (w, Ok ())"
  using assms
  by (auto simp: settled_def Let_def reconcileEnvoyFilter_def policy_selector_def GetSelector_def GetIngress_def
      filter_empty_conv)

text \<open>
  C29: The leader comes to rest. When a live policy has the finalizer, a valid spec with all defaults, the status
  of its gateway, complete credentials with a token secret of 64 bytes, and a filter of its selector exists, a
  run succeeds; it writes the policy, its status and the secret back exactly as it read them, records no event,
  creates no filter and leaves the cluster as it was.
\<close>

theorem leader_comes_to_rest:
  assumes "leader_laws K e" and "GetPolicy K (w_cluster w) req = Found p" and "settled K e (w_cluster w) p gw sc"
    and "same_update (UpdatePolicy K) p (w_cluster w)" and "same_update (UpdatePolicyStatus K) p (w_cluster w)"
    and "same_update (UpdateSecret K) sc (w_cluster w)"
  shows "Reconcile_leader K e req w =
    (w\<lparr>w_calls := w_calls w @ [WritePolicy p, WriteStatus p, WriteSecret sc]\<rparr>, Ok ())"
proof -
  have live: "po_DeletionTimestamp p = zero_time" "finalizer \<in> set (po_Finalizers p)"
    using assms(3) by (auto simp: settled_def Let_def)
  have "reconcile_live K e p w =
      (w\<lparr>w_calls := w_calls w @ [WritePolicy p, WriteStatus p, WriteSecret sc]\<rparr>, Ok p)"
    using assms reconcileSpec_settled [OF assms(3,4)]
    by (simp add: reconcile_live_def act_bind_same act_return_def reconcileStatus_settled
        reconcileSecret_settled reconcileEnvoyFilter_settled)
  then show ?thesis
    using live by (simp add: Reconcile_leader_def assms(2) act_bind_def act_return_def)
qed

definition demo_settled :: policy_object where
  "demo_settled =
     \<lparr>po_Policy = demo_policy\<lparr>ap_Spec := (ap_Spec demo_policy)\<lparr>as_Routes := []\<rparr>,
        ap_Status := \<lparr>st_Ingress = \<lparr>ai_Selector = Some [''istio'' \<mapsto> ''gw'']\<rparr>,
          st_VirtualHosts = [''a.io:443'', ''b.io:443'']\<rparr>\<rparr>,
      po_Finalizers = [finalizer], po_DeletionTimestamp = zero_time\<rparr>"

definition demo_data :: secret_data where
  "demo_data = [''i'' \<mapsto> ''id'', ''c'' \<mapsto> ''secret'', ''t'' \<mapsto> replicate 64 CHR ''k'']"

definition demo_own_filter :: envoy_filter where
  "demo_own_filter =
     (newEnvoyFilter demo_controller (po_Policy demo_settled))\<lparr>ef_Name := ''ext-authz-1''\<rparr>"

lemma demo_settled_valid: "Validate (po_Policy demo_settled) = []"
  unfolding demo_settled_def demo_policy_def by code_simp

lemma demo_hosts: "concat (map hosts_of (gw_Servers demo_gateway)) = [''a.io:443'', ''b.io:443'']"
  by code_simp

lemma demo_settled_settled:
  "settled (demo_kube [demo_settled] (Some demo_data) [demo_own_filter]) demo_leader () demo_settled
     demo_gateway \<lparr>sc_Namespace = ''ns'', sc_Name = ''s'', sc_Data = Some demo_data\<rparr>"
  using demo_settled_valid demo_hosts
  by (auto simp: settled_def Let_def demo_kube_def demo_leader_def demo_settled_def demo_policy_def
      gateway_key_def secret_key_def portless_def with_status_def demo_gateway_def secret_value_def demo_data_def
      sha512_Size_def Normalize_def Normalize_spec_def Normalize_oidc_def Normalize_secret_def
      demo_own_filter_def newEnvoyFilter_def filter_selector_def policy_selector_def GetSelector_def
      GetIngress_def demo_controller_def)

theorem leader_comes_to_rest_witness:
  "Reconcile_leader (demo_kube [demo_settled] (Some demo_data) [demo_own_filter]) demo_leader
      (policy_key (po_Policy demo_settled)) demo_world =
    (demo_world\<lparr>w_calls := [WritePolicy demo_settled, WriteStatus demo_settled,
        WriteSecret \<lparr>sc_Namespace = ''ns'', sc_Name = ''s'', sc_Data = Some demo_data\<rparr>]\<rparr>, Ok ())"
proof -
  let ?K = "demo_kube [demo_settled] (Some demo_data) [demo_own_filter]"
  have get: "GetPolicy ?K (w_cluster demo_world) (policy_key (po_Policy demo_settled)) = Found demo_settled"
    by (simp add: demo_kube_def)
  have same: "same_update (UpdatePolicy ?K) x c" "same_update (UpdatePolicyStatus ?K) x c"
    "same_update (UpdateSecret ?K) y c" for x y c
    by (simp_all add: same_update_def demo_kube_def)
  show ?thesis
    using leader_comes_to_rest [OF demo_leader_laws get _ same, of demo_gateway
        "\<lparr>sc_Namespace = ''ns'', sc_Name = ''s'', sc_Data = Some demo_data\<rparr>"] demo_settled_settled
    by (simp add: demo_world_def)
qed

end
