(* ===== verification/Logging.thy ===== *)
theory Logging
  imports Errors Go_Http
begin

text \<open>
  What the logger writes (\<^verbatim>\<open>src/log/{setup,log}.go\<close>) and the shim through which the Kubernetes libraries log
  (\<^verbatim>\<open>src/log/shim.go\<close>). An entry goes to the handler of the logging library, which is not modelled. How
  the library turns an error into fields is a parameter.
\<close>

datatype level = InfoLevel | ErrorLevel

record entry =
  en_level :: level
  en_msg :: string
  en_fields :: fields

text \<open>
  \<^verbatim>\<open>setup.go\<close>: entries are written for people when the standard output is a terminal, and else in the
  \<^verbatim>\<open>logfmt\<close> format. Both handlers and the test for a terminal belong to libraries.
\<close>

datatype log_handler = CliHandler | LogfmtHandler

definition Setup :: "(int \<Rightarrow> bool) \<Rightarrow> int \<Rightarrow> log_handler" where
  "Setup IsTerminal stdout = (if IsTerminal stdout then CliHandler else LogfmtHandler)"

text \<open>
  A context carries the fields of its logger; \<open>None\<close> is the nil context, which stands for the
  background, whose logger has none. \<open>with_error\<close> adds an error to fields.
\<close>

definition context_fields :: "fields option \<Rightarrow> fields" where
  "context_fields ctx = (case ctx of None \<Rightarrow> Map.empty | Some fs \<Rightarrow> fs)"

definition context_WithValues :: "fields option \<Rightarrow> gvalue list \<Rightarrow> (go_error, fields option) res" where
  "context_WithValues ctx kvs =
     res_bind (MakeValues kvs) (\<lambda>fs. Ok (Some (context_fields ctx ++ fs)))"

definition log_Info :: "fields option \<Rightarrow> fields option \<Rightarrow> string \<Rightarrow> entry" where
  "log_Info ctx vals msg =
     \<lparr>en_level = InfoLevel, en_msg = msg,
      en_fields = (case vals of None \<Rightarrow> context_fields ctx | Some fs \<Rightarrow> context_fields ctx ++ fs)\<rparr>"

definition log_Error ::
  "(go_error option \<Rightarrow> fields \<Rightarrow> fields) \<Rightarrow> fields option \<Rightarrow> go_error option \<Rightarrow> string \<Rightarrow> entry" where
  "log_Error with_error ctx err msg =
     \<lparr>en_level = ErrorLevel, en_msg = msg,
      en_fields = (case err of None \<Rightarrow> context_fields ctx | Some e \<Rightarrow> with_error err (context_fields ctx))\<rparr>"

section \<open>The shim\<close>

definition loggerKey :: string where
  "loggerKey = ''logger''"

definition shim_Info :: "string \<Rightarrow> gvalue list \<Rightarrow> logger \<Rightarrow> (go_error, entry) res" where
  "shim_Info msg kvs l =
     res_bind (MakeValues kvs) (\<lambda>fs.
     Ok \<lparr>en_level = InfoLevel, en_msg = TrimSpace msg,
         en_fields = (log_fields l ++ fs)(loggerKey \<mapsto> GStr (log_name l))\<rparr>)"

definition shim_Enabled :: "logger \<Rightarrow> bool" where
  "shim_Enabled l = True"

definition shim_Error ::
  "(go_error option \<Rightarrow> fields \<Rightarrow> fields) \<Rightarrow> go_error option \<Rightarrow> string \<Rightarrow> gvalue list \<Rightarrow> logger
    \<Rightarrow> (go_error, entry) res" where
  "shim_Error with_error err msg kvs l =
     res_bind (MakeValues kvs) (\<lambda>fs.
     Ok \<lparr>en_level = ErrorLevel, en_msg = msg,
         en_fields = (with_error err (log_fields l ++ fs))(loggerKey \<mapsto> GStr (log_name l))\<rparr>)"

definition shim_V :: "int \<Rightarrow> logger \<Rightarrow> logger" where
  "shim_V n l = l"

section \<open>Facts\<close>

text \<open>
  Values that are attached to a logger end up in what it logs, whether they are given with the
  message or before; and the name of the logger is never overwritten by them.
\<close>

lemma WithValues_then_Info:
  assumes "WithValues kvs l = Ok l'"
  shows "shim_Info msg [] l' = shim_Info msg kvs l"
proof -
  obtain fs where "MakeValues kvs = Ok fs" "l' = l\<lparr>log_fields := log_fields l ++ fs\<rparr>"
    using assms by (auto simp: WithValues_def)
  moreover have "MakeValues [] = (Ok Map.empty :: (go_error, fields) res)"
    by (simp add: MakeValues_def)
  ultimately show ?thesis by (simp add: shim_Info_def)
qed

lemma shim_names_logger:
  "shim_Info msg kvs l = Ok en \<Longrightarrow> en_fields en loggerKey = Some (GStr (log_name l))"
  "shim_Error we err msg kvs l = Ok en \<Longrightarrow> en_fields en loggerKey = Some (GStr (log_name l))"
  by (auto simp: shim_Info_def shim_Error_def)

text \<open>The helpers of the program never panic on the keys the program gives them.\<close>

lemma context_WithValues_pairs:
  "context_WithValues ctx (flat_meta kvs) =
     Ok (Some (context_fields ctx ++ fold (\<lambda>(k, v) m. m(k \<mapsto> v)) kvs Map.empty))"
  using make_values_flat_meta [of kvs "[]"] by (simp add: context_WithValues_def new_error_def)

end
