(* ===== verification/Go_Query.thy ===== *)
theory Go_Query
  imports Go_Url
begin

text \<open>
  Query strings: what \<^verbatim>\<open>Values.Encode\<close> writes, \<^verbatim>\<open>URL.Query\<close> reads back.
\<close>

text \<open>Escaped text is free of the characters that separate pairs, and a key from its value.\<close>

definition separators :: string where
  "separators = ''&;=''"

lemma upperhex_no_separator: "n < 16 \<Longrightarrow> upperhex n \<notin> set separators"
proof -
  have "\<forall>n \<in> set [0..<16]. upperhex n \<notin> set separators" by code_simp
  then show "n < 16 \<Longrightarrow> upperhex n \<notin> set separators" by simp
qed

lemma separators_escaped: "c \<in> set separators \<Longrightarrow> shouldEscape c encodeQueryComponent"
  by (auto simp: separators_def shouldEscape_def alphanumeric_def)

lemma escape_no_separator: "set (escape encodeQueryComponent s) \<inter> set separators = {}"
proof (induction s)
  case (Cons c s)
  have "code c div 16 < 16" by (rule less_mult_imp_div_less) simp
  moreover have "code c mod 16 < 16" by simp
  ultimately have "set (escape_byte encodeQueryComponent c) \<inter> set separators = {}"
    using upperhex_no_separator separators_escaped [of c]
    by (auto simp: escape_byte_def) (simp_all add: separators_def)
  with Cons show ?case by (auto simp: escape_def)
qed (simp add: escape_def)

definition pair_text :: "string \<Rightarrow> string \<Rightarrow> string" where
  "pair_text k x = escape encodeQueryComponent k @ ''='' @ escape encodeQueryComponent x"

lemma add_pair_text: "add_pair (pair_text k x) m = m(k \<mapsto> lookup0 [] m k @ [x])"
proof -
  have "CHR ''='' \<notin> set (escape encodeQueryComponent k)"
    using escape_no_separator [of k] by (auto simp: separators_def)
  then show ?thesis
    using cut_append by (simp add: add_pair_def pair_text_def split_at_def unescape_escape)
qed

lemma pair_text_whole: "set (pair_text k x) \<inter> {CHR ''&'', CHR '';''} = {}"
  using escape_no_separator [of k] escape_no_separator [of x] by (auto simp: pair_text_def separators_def)

lemma pair_text_not_Nil [simp]: "pair_text k x \<noteq> []"
  by (simp add: pair_text_def)

lemma cut_any_free:
  "set s \<inter> {CHR ''&'', CHR '';''} = {} \<Longrightarrow> cut_any (s @ CHR ''&'' # t) = (s, t)"
  "set s \<inter> {CHR ''&'', CHR '';''} = {} \<Longrightarrow> cut_any s = (s, [])"
  by (induction s) auto

lemma parseQuery_join:
  "parseQuery m (join ''&'' (map (\<lambda>(k, x). pair_text k x) ps)) = fold (\<lambda>(k, x). add_pair (pair_text k x)) ps m"
proof (induction ps arbitrary: m)
  case Nil
  then show ?case by (simp add: parseQuery.simps)
next
  case (Cons p ps)
  obtain k x where p: "p = (k, x)" by fastforce
  note f = cut_any_free [OF pair_text_whole, of k x]
  show ?case
  proof (cases ps)
    case Nil
    with p f show ?thesis by (simp add: parseQuery.simps [of m] parseQuery.simps [of _ "[]"])
  next
    case (Cons q qs)
    with p f Cons.IH show ?thesis by (simp add: parseQuery.simps [of m])
  qed
qed

lemma filter_other_keys: "k \<notin> fst ` set ps \<Longrightarrow> filter (\<lambda>p. fst p = k) ps = []"
  by (induction ps) auto

lemma values_of_key:
  "distinct ks \<Longrightarrow> map snd (filter (\<lambda>p. fst p = k) (concat (map (\<lambda>k. map (Pair k) (f k)) ks)))
    = (if k \<in> set ks then f k else [])"
proof (induction ks)
  case (Cons a ks)
  have "filter (\<lambda>p. fst p = k) (map (Pair a) (f a)) = (if a = k then map (Pair a) (f a) else [])"
    by (simp add: filter_map comp_def)
  with Cons show ?case by (auto simp: comp_def)
qed simp

lemma fold_pairs:
  "fold (\<lambda>(k, x). add_pair (pair_text k x)) ps m k =
     (if k \<in> fst ` set ps then Some (lookup0 [] m k @ map snd (filter (\<lambda>p. fst p = k) ps)) else m k)"
  by (induction ps arbitrary: m) (auto simp: add_pair_text lookup0_def filter_other_keys)

text \<open>All values of all keys come back, in their order.\<close>

lemma Query_Encode:
  assumes "finite (dom v)" and "\<And>k. v k \<noteq> Some []"
  shows "parseQuery Map.empty (values_Encode v) = v"
proof
  fix k
  define ks where "ks = sorted_list_of_set (dom v)"
  define ps where "ps = concat (map (\<lambda>k. map (Pair k) (lookup0 [] v k)) ks)"
  have ks: "set ks = dom v" "distinct ks" using assms(1) by (simp_all add: ks_def)
  have "values_Encode v = join ''&'' (map (\<lambda>(k, x). pair_text k x) ps)"
    by (simp add: values_Encode_def ps_def ks_def map_concat comp_def pair_text_def)
  then have "parseQuery Map.empty (values_Encode v) k =
      (if k \<in> fst ` set ps then Some (map snd (filter (\<lambda>p. fst p = k) ps)) else None)"
    by (simp add: parseQuery_join fold_pairs lookup0_def)
  moreover have "map snd (filter (\<lambda>p. fst p = k) ps) = (if k \<in> set ks then lookup0 [] v k else [])"
    unfolding ps_def by (rule values_of_key [OF ks(2)])
  moreover have "fst ` set ps = {a \<in> dom v. \<exists>x. x \<in> set (lookup0 [] v a)}"
    by (auto simp: ps_def ks(1) image_iff)
  then have "k \<in> fst ` set ps \<longleftrightarrow> v k \<noteq> None"
    using assms(2) [of k] by (cases "v k") (auto simp: lookup0_def ex_in_conv)
  ultimately show "parseQuery Map.empty (values_Encode v) k = v k"
    using ks(1) by (cases "v k") (simp_all add: lookup0_def domIff)
qed

lemma parseQuery_finite: "finite (dom m) \<Longrightarrow> finite (dom (parseQuery m q))"
proof (induction m q rule: parseQuery.induct)
  case (1 m query)
  obtain key rest where c: "cut_any query = (key, rest)" by fastforce
  have "finite (dom (add_pair key m))"
    using 1(2) by (auto simp: add_pair_def split: sum.splits prod.splits)
  with 1 c show ?case by (cases "query = []") (auto simp: parseQuery.simps [of m])
qed

end
