(* ===== verification/Log_Content.thy ===== *)
theory Log_Content
  imports Auth_Login Logging Go_Query
begin

text \<open>
  What the program puts into its log: the context of a check (\<^verbatim>\<open>src/auth/check.go\<close>, \<^verbatim>\<open>src/auth/messages.go\<close>),
  the address of a peer (\<^verbatim>\<open>src/replication/server.go\<close>) and the states of a connection
  (\<^verbatim>\<open>src/replication/connection.go\<close>). The URL of a login is meant to be logged without its secrets; the
  authorization code stays in it.
\<close>

section \<open>The context of a check\<close>

text \<open>The payload of a parsed token, read without a look at its signature, belongs to the JOSE library.\<close>

definition rawToken :: "('jws \<Rightarrow> string) \<Rightarrow> ('jws, 'reg, 'n) env \<Rightarrow> 'reg request \<Rightarrow> string" where
  "rawToken payload e req =
     (case jwt_ParseSigned (ev_jwt e) (bearer req) of Inl err \<Rightarrow> [] | Inr tok \<Rightarrow> payload tok)"

definition check_context ::
  "('jws \<Rightarrow> string) \<Rightarrow> ('jws, 'reg, 'n) env \<Rightarrow> fields option \<Rightarrow> 'reg request \<Rightarrow> (go_error, fields option) res"
where
  "check_context payload e ctx req =
     res_bind (location (rq_url req)) (\<lambda>loc.
     context_WithValues ctx
       [GStr ''url'', GStr (url_String loc),
        GStr ''bearer'', GStr (rawToken payload e req),
        GStr ''AccessPolicy'', GStr (pol_Name (rq_policy req))])"

lemma check_context_fields:
  assumes "location (rq_url req) = (Ok loc :: (go_error, url) res)"
  shows "\<exists>fs. check_context payload e ctx req = Ok (Some fs)
    \<and> fs ''url'' = Some (GStr (url_String loc)) \<and> fs ''bearer'' = Some (GStr (rawToken payload e req))
    \<and> fs ''AccessPolicy'' = Some (GStr (pol_Name (rq_policy req)))"
  using assms by (simp add: check_context_def context_WithValues_def MakeValues_def)

text \<open>Masking: all values of \<^verbatim>\<open>state\<close> become a dash, and nothing else changes.\<close>

lemma mask_all: "foldl (\<lambda>ys i. ys[i := x]) ys [0..<n] = replicate (min n (length ys)) x @ drop n ys"
proof (induction n)
  case (Suc n)
  show ?case
  proof (cases "n < length ys")
    case True
    with Suc show ?thesis
      by (simp add: list_update_append min_absorb1 replicate_append_same [symmetric] Cons_nth_drop_Suc [symmetric])
  next
    case False
    with Suc show ?thesis by (simp add: min_absorb2 list_update_beyond)
  qed
qed simp

definition masked :: "url_values \<Rightarrow> url_values" where
  "masked q = q(''state'' := map_option (\<lambda>vs. replicate (length vs) ''-'') (q ''state''))"

lemma location_masked:
  assumes "location u = (Ok loc :: (go_error, url) res)"
  shows "loc = u\<lparr>url_RawQuery := values_Encode (masked (Query u))\<rparr>"
proof -
  define st where "st = lookup0 [] (Query u) ''state''"
  define cd where "cd = lookup0 [] (Query u) ''code''"
  have le: "length cd \<le> length st"
    using assms location_Panic [of u, where ?'a = go_error] by (auto simp: st_def cd_def not_less [symmetric])
  have "mask_state [0..<length st] st = (Ok (replicate (length st) ''-'') :: (go_error, string list) res)"
    by (simp add: mask_state_result mask_all)
  moreover have "mask_state [0..<length cd] (replicate (length st) ''-'')
      = (Ok (replicate (length st) ''-'') :: (go_error, string list) res)"
    using le by (simp add: mask_state_result mask_all min_absorb1 flip: replicate_add)
  ultimately have "loc = u\<lparr>url_RawQuery := values_Encode (if Query u ''state'' = None then Query u
      else (Query u)(''state'' \<mapsto> replicate (length st) ''-''))\<rparr>"
    using assms by (simp add: location_def Let_def flip: st_def cd_def)
  moreover have "(if Query u ''state'' = None then Query u else (Query u)(''state'' \<mapsto> replicate (length st) ''-''))
      = masked (Query u)"
    by (auto simp: masked_def st_def lookup0_def)
  ultimately show ?thesis by simp
qed

lemma Query_masked: "parseQuery Map.empty (values_Encode (masked (Query u))) = masked (Query u)"
proof (rule Query_Encode)
  have "finite (dom (Query u))" by (simp add: Query_def parseQuery_finite)
  moreover have "dom (masked (Query u)) = dom (Query u)" by (auto simp: masked_def)
  ultimately show "finite (dom (masked (Query u)))" by simp
  show "masked (Query u) k \<noteq> Some []" for k
    using Query_no_empty [of Map.empty "url_RawQuery u"] by (auto simp: masked_def Query_def)
qed

lemma url_String_query:
  assumes "url_RawQuery u \<noteq> []"
  shows "\<exists>pre post. url_String u = pre @ ''?'' @ url_RawQuery u @ post"
proof -
  have "\<exists>pre post. url_String u =
      pre @ (if url_ForceQuery u \<or> url_RawQuery u \<noteq> [] then ''?'' @ url_RawQuery u else []) @ post"
    unfolding url_String_def Let_def by (intro exI) (rule append_assoc [symmetric])
  with assms show ?thesis by simp
qed

text \<open>
  C13: The authorization code of a login is written to the log. Whenever the check of a request with a code
  gets as far as its context, the URL in that context has a query that reads back as the query of the
  request with every code as it came; only the values of \<^verbatim>\<open>state\<close> are masked.
\<close>

theorem log_shows_code:
  assumes "check_context payload e ctx req = Ok (Some fs)" and "Query (rq_url req) ''code'' = Some codes"
  shows "\<exists>pre q post. fs ''url'' = Some (GStr (pre @ ''?'' @ q @ post))
    \<and> parseQuery Map.empty q = masked (Query (rq_url req)) \<and> parseQuery Map.empty q ''code'' = Some codes"
proof -
  obtain loc where loc: "location (rq_url req) = (Ok loc :: (go_error, url) res)"
    using assms(1) by (auto simp: check_context_def res_bind_eq_Ok)
  have q: "url_RawQuery loc = values_Encode (masked (Query (rq_url req)))"
    using arg_cong [OF location_masked [OF loc], of url_RawQuery] by simp
  have m: "masked (Query (rq_url req)) ''code'' = Some codes" using assms(2) by (simp add: masked_def)
  have "parseQuery Map.empty [] ''code'' = None" by (simp add: parseQuery.simps)
  with m Query_masked [of "rq_url req"] have "url_RawQuery loc \<noteq> []" by (metis q option.distinct(1))
  from url_String_query [OF this] obtain pre post where "url_String loc = pre @ ''?'' @ url_RawQuery loc @ post"
    by blast
  moreover have "fs ''url'' = Some (GStr (url_String loc))"
    using check_context_fields [OF loc, of payload e ctx] assms(1) by auto
  ultimately have "fs ''url'' = Some (GStr (pre @ ''?'' @ values_Encode (masked (Query (rq_url req))) @ post))"
    by (simp only: q)
  then show ?thesis using m Query_masked [of "rq_url req"] by metis
qed

theorem log_shows_code_witness:
  "\<exists>fs pre q post. check_context (\<lambda>tok. tok) demo_env None demo_callback = Ok (Some fs)
     \<and> fs ''url'' = Some (GStr (pre @ ''?'' @ q @ post)) \<and> parseQuery Map.empty q ''code'' = Some [''c'']"
proof -
  obtain loc where "location (rq_url demo_callback) = (Ok loc :: (go_error, url) res)"
    using location_Ok [of "rq_url demo_callback"] demo_callback_query by auto
  from check_context_fields [OF this] obtain fs
    where fs: "check_context (\<lambda>tok. tok) demo_env None demo_callback = Ok (Some fs)"
    by blast
  from log_shows_code [OF fs demo_callback_query(2)] fs show ?thesis by blast
qed

section \<open>The context of a peer\<close>

text \<open>\<^verbatim>\<open>addressCtx\<close>: a call without a peer has no address, and reading it panics.\<close>

definition addressCtx :: "string option \<Rightarrow> fields option \<Rightarrow> (go_error, fields option) res" where
  "addressCtx addr ctx =
     (case addr of None \<Rightarrow> Panic | Some a \<Rightarrow> context_WithValues ctx [GStr ''address'', GStr a])"

lemma addressCtx_fields: "addressCtx (Some a) ctx = Ok (Some (context_fields ctx ++ [''address'' \<mapsto> GStr a]))"
  by (simp add: addressCtx_def context_WithValues_def MakeValues_def)

section \<open>The states of a connection\<close>

text \<open>
  \<^verbatim>\<open>logConnectionState\<close>: a round logs the state it sees and waits for a change. The argument has, round by
  round, the state of the transport and whether the wait ended with a change; it ends without one only
  when the context is done. How a state is printed belongs to the gRPC library.
\<close>

definition lower :: "char \<Rightarrow> char" where
  "lower c = (if 65 \<le> code c \<and> code c \<le> 90 then char_of (code c + 32) else c)"

definition state_entry :: "('s \<Rightarrow> string) \<Rightarrow> fields option \<Rightarrow> 's \<Rightarrow> (go_error, entry) res" where
  "state_entry String ctx s =
     (let str = map lower (map (\<lambda>c. if c = CHR ''_'' then CHR '' '' else c) (String s))
      in res_bind (MakeValues [GStr ''state'', GStr str]) (\<lambda>vals.
         Ok (log_Info ctx (Some vals) ''Connection state changed'')))"

fun logConnectionState ::
  "('s \<Rightarrow> string) \<Rightarrow> fields option \<Rightarrow> ('s \<times> bool) list \<Rightarrow> (go_error, entry list) res"
where
  "logConnectionState String ctx [] = Ok []"
| "logConnectionState String ctx ((s, cont) # rounds) =
     res_bind (state_entry String ctx s) (\<lambda>en.
     if cont then res_bind (logConnectionState String ctx rounds) (\<lambda>ens. Ok (en # ens)) else Ok [en])"

text \<open>
  The context of a connection is never done, so every wait ends with a change, and the goroutine logs as
  many entries as the transport has changes: it does not stop, not even when the connection is closed.
\<close>

lemma logs_every_change:
  "\<forall>r \<in> set rounds. snd r \<Longrightarrow>
    \<exists>ens. logConnectionState String ctx rounds = Ok ens \<and> length ens = length rounds"
proof (induction rounds)
  case (Cons r rounds)
  then obtain ens where "logConnectionState String ctx rounds = Ok ens" "length ens = length rounds" by auto
  with Cons.prems show ?case
    by (cases r) (simp add: state_entry_def MakeValues_def)
qed simp

end
