(* ===== verification/Deployment.thy ===== *)
theory Deployment
  imports Errors Go_Http
begin

text \<open>
  The generator of the deployment's resources (\<^verbatim>\<open>src/deployment/generate.go\<close>): it runs an external
  generator, splits its output into documents, and writes each document to the file that its name
  stands for. The file system, the external generator and the codecs are parameters; every error is a
  panic. A file is written when its document is received, so those of earlier documents stay.
\<close>

section \<open>Paths\<close>

text \<open>\<^verbatim>\<open>path.Clean\<close>: the segments that are kept, last one first.\<close>

fun clean_segments :: "bool \<Rightarrow> string list \<Rightarrow> string list \<Rightarrow> string list" where
  "clean_segments rooted [] kept = rev kept"
| "clean_segments rooted (s # ss) kept =
     (if s = [] \<or> s = ''.'' then clean_segments rooted ss kept
      else if s = ''..'' then
        (case kept of
           k # ks \<Rightarrow>
             (if k \<noteq> ''..'' then clean_segments rooted ss ks else clean_segments rooted ss (s # kept))
         | [] \<Rightarrow> clean_segments rooted ss (if rooted then [] else [s]))
      else clean_segments rooted ss (s # kept))"

fun slash_segments :: "string \<Rightarrow> string \<Rightarrow> string list" where
  "slash_segments [] acc = [rev acc]"
| "slash_segments (c # cs) acc =
     (if c = CHR ''/'' then rev acc # slash_segments cs [] else slash_segments cs (c # acc))"

fun slash_join :: "string list \<Rightarrow> string" where
  "slash_join [] = []"
| "slash_join [s] = s"
| "slash_join (s # t # ss) = s @ ''/'' @ slash_join (t # ss)"

definition path_Clean :: "string \<Rightarrow> string" where
  "path_Clean p =
     (let rooted = (take 1 p = ''/'');
          body = slash_join (clean_segments rooted (slash_segments p []) [])
      in if rooted then ''/'' @ body else if body = [] then ''.'' else body)"

definition path_Dir :: "string \<Rightarrow> string" where
  "path_Dir p = path_Clean (rev (dropWhile (\<lambda>c. c \<noteq> CHR ''/'') (rev p)))"

definition path_Join :: "string \<Rightarrow> string \<Rightarrow> string" where
  "path_Join a b =
     (if a = [] \<and> b = [] then []
      else path_Clean (if a = [] then b else a @ ''/'' @ b))"

section \<open>Documents\<close>

definition separator :: string where
  "separator = ''---'' @ [CHR 0x0A]"

text \<open>
  \<open>cut_document\<close> gives the text before the first separator that starts a line, and the text behind it;
  the flag says whether the text starts a line. Without a separator the document is the whole text.
\<close>

fun cut_document :: "bool \<Rightarrow> string \<Rightarrow> string \<times> string" where
  "cut_document start [] = ([], [])"
| "cut_document start (c # cs) =
     (if start \<and> take 4 (c # cs) = separator then ([], drop 4 (c # cs))
      else (case cut_document (c = CHR 0x0A) cs of (doc, rest) \<Rightarrow> (c # doc, rest)))"

lemma cut_document_length: "cut_document start s = (doc, rest) \<Longrightarrow> s \<noteq> [] \<Longrightarrow> length rest < length s"
proof (induction start s arbitrary: doc rest rule: cut_document.induct)
  case (2 start c cs)
  show ?case
  proof (cases "start \<and> take 4 (c # cs) = separator")
    case False
    obtain d r where cut: "cut_document (c = CHR 0x0A) cs = (d, r)" by force
    with 2 False show ?thesis by (cases cs) (auto split: if_splits)
  qed (use 2 in auto)
qed simp

function documents :: "string \<Rightarrow> string list" where
  "documents data =
     (if data = [] then []
      else (case cut_document True data of (doc, rest) \<Rightarrow> doc # documents rest))"
  by auto

termination by (relation "measure length") (auto dest: cut_document_length [OF sym])

declare documents.simps [simp del]

text \<open>\<^verbatim>\<open>res\<close>: the documents of the generator's output.\<close>

record ('crd, 'role) toolbox =
  Getwd :: "go_error + string"
  Output :: "string \<Rightarrow> string \<Rightarrow> go_error + string"
  UnmarshalCRD :: "string \<Rightarrow> go_error + 'crd"
  crd_Name :: "'crd \<Rightarrow> string"
  MarshalCRD :: "'crd \<Rightarrow> go_error + string"
  UnmarshalRole :: "string \<Rightarrow> go_error + 'role"
  role_Name :: "'role \<Rightarrow> string"
  MarshalRole :: "'role \<Rightarrow> go_error + string"
  WriteFile :: "string \<Rightarrow> string \<Rightarrow> go_error option"

definition root :: "('crd, 'role) toolbox \<Rightarrow> (go_error, string) res" where
  "root tb = (case Getwd tb of Inl err \<Rightarrow> Panic | Inr loc \<Rightarrow> Ok (path_Dir loc))"

definition TrimPrefix :: "string \<Rightarrow> string \<Rightarrow> string" where
  "TrimPrefix s p = (if take (length p) s = p then drop (length p) s else s)"

definition generated ::
  "('crd, 'role) toolbox \<Rightarrow> string \<Rightarrow> string \<Rightarrow> string \<Rightarrow> (go_error, string list) res" where
  "generated tb dir sub what =
     (case Output tb (path_Join dir sub) what of
        Inl err \<Rightarrow> Panic
      | Inr data \<Rightarrow> Ok (documents (TrimPrefix (TrimSpace data) separator)))"

text \<open>The files written so far, in order, and whether the program goes on.\<close>

type_synonym files = "(string \<times> string) list"

definition put ::
  "('crd, 'role) toolbox \<Rightarrow> string \<Rightarrow> (go_error + string) \<Rightarrow> files \<Rightarrow> files \<times> (go_error, unit) res" where
  "put tb file marshalled fs =
     (case marshalled of
        Inl err \<Rightarrow> (fs, Panic)
      | Inr data \<Rightarrow>
          (case WriteFile tb file data of Some err \<Rightarrow> (fs, Panic) | None \<Rightarrow> (fs @ [(file, data)], Ok ())))"

fun crds :: "('crd, 'role) toolbox \<Rightarrow> string list \<Rightarrow> files \<Rightarrow> files \<times> (go_error, unit) res" where
  "crds tb [] fs = (fs, Ok ())"
| "crds tb (doc # docs) fs =
     (case UnmarshalCRD tb doc of
        Inl err \<Rightarrow> (fs, Panic)
      | Inr crd \<Rightarrow>
          (if crd_Name tb crd = ''accesspolicies.krsdev.app'' then
             (case put tb ''custom-resource-definition-access-policy.json'' (MarshalCRD tb crd) fs of
                (fs', Ok _) \<Rightarrow> crds tb docs fs' | (fs', r) \<Rightarrow> (fs', r))
           else if crd_Name tb crd = ''openidproviders.krsdev.app'' then
             (case put tb ''custom-resource-definition-openid-provider.json'' (MarshalCRD tb crd) fs of
                (fs', Ok _) \<Rightarrow> crds tb docs fs' | (fs', r) \<Rightarrow> (fs', r))
           else (fs, Panic)))"

fun roles :: "('crd, 'role) toolbox \<Rightarrow> string list \<Rightarrow> files \<Rightarrow> files \<times> (go_error, unit) res" where
  "roles tb [] fs = (fs, Ok ())"
| "roles tb (doc # docs) fs =
     (case UnmarshalRole tb doc of
        Inl err \<Rightarrow> (fs, Panic)
      | Inr role \<Rightarrow>
          (if role_Name tb role = ''istio-oidc'' then
             (case put tb ''cluster-role.json'' (MarshalRole tb role) fs of
                (fs', Ok _) \<Rightarrow> roles tb docs fs' | (fs', r) \<Rightarrow> (fs', r))
           else (fs, Panic)))"

definition generate :: "('crd, 'role) toolbox \<Rightarrow> files \<times> (go_error, unit) res" where
  "generate tb =
     (case root tb of
        Ok dir \<Rightarrow>
          (case generated tb dir ''api'' ''crd'' of
             Ok docs \<Rightarrow>
               (case crds tb docs [] of
                  (fs, Ok _) \<Rightarrow>
                    (case generated tb dir ''controller'' ''rbac:roleName=istio-oidc'' of
                       Ok docs' \<Rightarrow> roles tb docs' fs
                     | _ \<Rightarrow> (fs, Panic))
                | (fs, r) \<Rightarrow> (fs, r))
           | _ \<Rightarrow> ([], Panic))
      | _ \<Rightarrow> ([], Panic))"

section \<open>Facts\<close>

text \<open>A document as the generator writes it: whole lines, none of which is a separator.\<close>

definition is_document :: "bool \<Rightarrow> string \<Rightarrow> bool" where
  "is_document start d \<longleftrightarrow> d \<noteq> [] \<and> last d = CHR 0x0A \<and> cut_document start d = (d, [])"

lemma separator_suffix:
  assumes "d \<noteq> []" and "last d = CHR 0x0A" and "take 4 (d @ separator @ rest) = separator"
  shows "take 4 d = separator"
proof (cases "length d < 4")
  case True
  with assms(1) consider a where "d = [a]" | a b where "d = [a, b]" | a b c where "d = [a, b, c]"
    by (cases d; cases "tl d"; cases "tl (tl d)"; cases "tl (tl (tl d))") auto
  then show ?thesis using assms(2,3) by cases (auto simp: separator_def)
qed (use assms(3) in simp)

lemma cut_document_separator:
  "is_document start d \<Longrightarrow> cut_document start (d @ separator @ rest) = (d, rest)"
proof (induction d arbitrary: start)
  case (Cons c cs)
  have no_sep: "\<not> (start \<and> take 4 (c # cs) = separator)"
    using Cons.prems by (auto simp: is_document_def)
  then have no_sep': "\<not> (start \<and> take 4 ((c # cs) @ separator @ rest) = separator)"
    using separator_suffix [of "c # cs" rest] Cons.prems by (auto simp: is_document_def)
  show ?case
  proof (cases "cs = []")
    case True
    with Cons.prems have c: "c = CHR 0x0A" by (simp add: is_document_def)
    have "cut_document True (separator @ rest) = ([], rest)" by (simp add: separator_def)
    with no_sep' True c show ?thesis by simp
  next
    case False
    with no_sep Cons.prems have "is_document (c = CHR 0x0A) cs"
      by (auto simp: is_document_def split: prod.splits)
    from Cons.IH [OF this] no_sep' show ?thesis by simp
  qed
qed (simp add: is_document_def)

text \<open>What was put together with separators comes apart again.\<close>

fun put_together :: "string list \<Rightarrow> string" where
  "put_together [] = []"
| "put_together [d] = d"
| "put_together (d # e # ds) = d @ separator @ put_together (e # ds)"

lemma documents_put_together:
  "list_all (is_document True) ds \<Longrightarrow> documents (put_together ds) = ds"
proof (induction ds rule: put_together.induct)
  case 1
  show ?case by (simp add: documents.simps)
next
  case (2 d)
  then have "cut_document True d = (d, [])" "d \<noteq> []" by (simp_all add: is_document_def)
  then show ?case by (simp add: documents.simps [of d] documents.simps [of "[]"])
next
  case (3 d e ds)
  then have d: "is_document True d" by simp
  from 3 have rest: "documents (put_together (e # ds)) = e # ds" by simp
  have "d @ separator @ put_together (e # ds) \<noteq> []" using d by (simp add: is_document_def)
  then show ?case
    using cut_document_separator [OF d] rest by (simp add: documents.simps [of "d @ _"])
qed

text \<open>Only the three files of the deployment are ever written.\<close>

definition deployment_files :: "string set" where
  "deployment_files = {''custom-resource-definition-access-policy.json'',
     ''custom-resource-definition-openid-provider.json'', ''cluster-role.json''}"

lemma put_files: "set (map fst (fst (put tb file m fs))) \<subseteq> insert file (set (map fst fs))"
  by (auto simp: put_def split: sum.splits option.splits)

lemma crds_files:
  "set (map fst (fst (crds tb docs fs))) \<subseteq> deployment_files \<union> set (map fst fs)"
proof (induction docs arbitrary: fs)
  case (Cons doc docs)
  have step: "set (map fst (fst (case put tb nm m fs of (fs', Ok _) \<Rightarrow> crds tb docs fs' | (fs', r) \<Rightarrow> (fs', r))))
      \<subseteq> deployment_files \<union> set (map fst fs)" if "nm \<in> deployment_files" for nm m
  proof -
    obtain fs' r where p: "put tb nm m fs = (fs', r)" by force
    have "set (map fst fs') \<subseteq> deployment_files \<union> set (map fst fs)"
      using put_files [of tb nm m fs] that by (auto simp: p)
    with Cons.IH [of fs'] show ?thesis by (cases r) (auto simp: p)
  qed
  show ?case
  proof (cases "UnmarshalCRD tb doc")
    case (Inr crd)
    have "''custom-resource-definition-access-policy.json'' \<in> deployment_files"
      "''custom-resource-definition-openid-provider.json'' \<in> deployment_files"
      by (simp_all add: deployment_files_def)
    from this [THEN step] Inr show ?thesis by simp
  qed simp
qed simp

lemma roles_files:
  "set (map fst (fst (roles tb docs fs))) \<subseteq> deployment_files \<union> set (map fst fs)"
proof (induction docs arbitrary: fs)
  case (Cons doc docs)
  show ?case
  proof (cases "UnmarshalRole tb doc")
    case (Inr role)
    obtain fs' r where p: "put tb ''cluster-role.json'' (MarshalRole tb role) fs = (fs', r)" by force
    have "set (map fst fs') \<subseteq> deployment_files \<union> set (map fst fs)"
      using put_files [of tb "''cluster-role.json''" "MarshalRole tb role" fs]
      by (auto simp: p deployment_files_def)
    with Cons.IH [of fs'] Inr show ?thesis by (cases r) (auto simp: p)
  qed simp
qed simp

lemma generate_files: "set (map fst (fst (generate tb))) \<subseteq> deployment_files"
proof (cases "root tb")
  case (Ok dir)
  show ?thesis
  proof (cases "generated tb dir ''api'' ''crd''")
    case docs: (Ok docs)
    obtain fs r where crds: "crds tb docs [] = (fs, r)" by force
    have fs: "set (map fst fs) \<subseteq> deployment_files" using crds_files [of tb docs "[]"] crds by simp
    show ?thesis
    proof (cases r)
      case finished: (Ok u)
      have run: "set (map fst (fst (roles tb docs' fs))) \<subseteq> deployment_files" for docs'
        using roles_files [of tb docs' fs] fs by blast
      show ?thesis
        using fs run
        by (cases "generated tb dir ''controller'' ''rbac:roleName=istio-oidc''")
           (simp_all add: generate_def Ok docs crds finished)
    qed (use fs in \<open>simp_all add: generate_def Ok docs crds\<close>)
  qed (simp_all add: generate_def Ok)
qed (simp_all add: generate_def)

end
