(* ===== verification/Rw_Lock.thy ===== *)
theory Rw_Lock
  imports Prelude
begin

text \<open>
  Goroutines with the locks of \<^verbatim>\<open>sync.RWMutex\<close> and unbuffered channels: what the methods of the two stores
  do with their mutexes, one lock operation or send at a time. The other theories take a method that
  runs under a mutex as one step; this one looks at where such a method may wait, and for whom.
\<close>

section \<open>Threads\<close>

text \<open>\<open>Mu\<close> is the field \<^verbatim>\<open>mu\<close> of a store, \<open>DelMu\<close> the field \<^verbatim>\<open>delMu\<close> of the session store.\<close>

datatype lock = Mu | DelMu

text \<open>
  What a goroutine does to the outside: lock operations, a send on its channel, and the start of another
  goroutine. The computation in between does not wait and is left out.
\<close>

datatype instr =
    RLock lock
  | RUnlock lock
  | Lock lock
  | Unlock lock
  | Send
  | Go "instr list"

text \<open>
  A thread: what it still has to do, the locks it holds for reading and for writing, whether its call of
  \<^verbatim>\<open>Lock\<close> has announced itself, and whether the channel it sends on is still read by someone.
\<close>

record thread =
  th_prog :: "instr list"
  th_read :: "lock set"
  th_write :: "lock set"
  th_waits :: bool
  th_reader :: bool

definition new_thread :: "instr list \<Rightarrow> thread" where
  "new_thread p = \<lparr>th_prog = p, th_read = {}, th_write = {}, th_waits = False, th_reader = True\<rparr>"

type_synonym pool = "thread list"

text \<open>
  A \<^verbatim>\<open>Lock\<close> first announces itself; from then on new readers have to wait. It gets the lock when the
  readers that were there before have left.
\<close>

definition announced :: "lock \<Rightarrow> thread \<Rightarrow> bool" where
  "announced m t \<longleftrightarrow> th_waits t \<and> (case th_prog t of Lock m' # p \<Rightarrow> m' = m | _ \<Rightarrow> False)"

definition writer_there :: "pool \<Rightarrow> lock \<Rightarrow> bool" where
  "writer_there ts m \<longleftrightarrow> (\<exists>t \<in> set ts. m \<in> th_write t \<or> announced m t)"

definition reader_there :: "pool \<Rightarrow> lock \<Rightarrow> bool" where
  "reader_there ts m \<longleftrightarrow> (\<exists>t \<in> set ts. m \<in> th_read t)"

text \<open>The next state of a thread of the pool, or \<open>None\<close> when it is done or has to wait.\<close>

definition thread_next :: "pool \<Rightarrow> thread \<Rightarrow> thread option" where
  "thread_next ts t =
     (case th_prog t of
        [] \<Rightarrow> None
      | RLock m # p \<Rightarrow>
          if writer_there ts m then None else Some (t\<lparr>th_prog := p, th_read := insert m (th_read t)\<rparr>)
      | RUnlock m # p \<Rightarrow> Some (t\<lparr>th_prog := p, th_read := th_read t - {m}\<rparr>)
      | Lock m # p \<Rightarrow>
          if th_waits t
          then if reader_there ts m then None
               else Some (t\<lparr>th_prog := p, th_write := insert m (th_write t), th_waits := False\<rparr>)
          else if writer_there ts m then None else Some (t\<lparr>th_waits := True\<rparr>)
      | Unlock m # p \<Rightarrow> Some (t\<lparr>th_prog := p, th_write := th_write t - {m}\<rparr>)
      | Send # p \<Rightarrow> if th_reader t then Some (t\<lparr>th_prog := p\<rparr>) else None
      | Go q # p \<Rightarrow> Some (t\<lparr>th_prog := p\<rparr>))"

definition spawned :: "thread \<Rightarrow> pool" where
  "spawned t = (case th_prog t of Go q # p \<Rightarrow> [new_thread q] | _ \<Rightarrow> [])"

inductive run_step :: "pool \<Rightarrow> pool \<Rightarrow> bool" where
  "i < length ts \<Longrightarrow> thread_next ts (ts ! i) = Some t \<Longrightarrow> run_step ts (ts[i := t] @ spawned (ts ! i))"

inductive_cases run_stepE: "run_step ts ts'"

text \<open>
  The pool of a store. A caller starts one of the \<open>calls\<close>; the background goroutine of the store is the
  first thread and starts one of the \<open>rounds\<close> when it is idle; the reader of a channel may go away.
\<close>

inductive pool_step :: "instr list set \<Rightarrow> instr list set \<Rightarrow> pool \<Rightarrow> pool \<Rightarrow> bool" for calls rounds where
  Run: "run_step ts ts' \<Longrightarrow> pool_step calls rounds ts ts'"
| Call: "p \<in> calls \<Longrightarrow> pool_step calls rounds ts (ts @ [new_thread p])"
| Tick: "ts \<noteq> [] \<Longrightarrow> th_prog (ts ! 0) = [] \<Longrightarrow> p \<in> rounds \<Longrightarrow>
    pool_step calls rounds ts (ts[0 := (ts ! 0)\<lparr>th_prog := p\<rparr>])"
| Leave: "i < length ts \<Longrightarrow> pool_step calls rounds ts (ts[i := (ts ! i)\<lparr>th_reader := False\<rparr>])"

abbreviation pool_run :: "instr list set \<Rightarrow> instr list set \<Rightarrow> pool \<Rightarrow> pool \<Rightarrow> bool" where
  "pool_run calls rounds \<equiv> (pool_step calls rounds)\<^sup>*\<^sup>*"

abbreviation start_pool :: pool where
  "start_pool \<equiv> [new_thread []]"

definition all_returned :: "pool \<Rightarrow> bool" where
  "all_returned ts \<longleftrightarrow> (\<forall>t \<in> set ts. th_prog t = [])"

definition channels_read :: "pool \<Rightarrow> bool" where
  "channels_read ts \<longleftrightarrow> (\<forall>t \<in> set ts. th_reader t)"

text \<open>The same, played from a list of moves.\<close>

datatype move = Runs nat | Calls "instr list" | Ticks "instr list" | Leaves nat

fun play_move :: "move \<Rightarrow> pool \<Rightarrow> pool option" where
  "play_move (Runs i) ts =
     (if i < length ts
      then map_option (\<lambda>t. ts[i := t] @ spawned (ts ! i)) (thread_next ts (ts ! i)) else None)"
| "play_move (Calls p) ts = Some (ts @ [new_thread p])"
| "play_move (Ticks p) ts =
     (if ts \<noteq> [] \<and> th_prog (ts ! 0) = [] then Some (ts[0 := (ts ! 0)\<lparr>th_prog := p\<rparr>]) else None)"
| "play_move (Leaves i) ts =
     (if i < length ts then Some (ts[i := (ts ! i)\<lparr>th_reader := False\<rparr>]) else None)"

fun play :: "move list \<Rightarrow> pool \<Rightarrow> pool option" where
  "play [] ts = Some ts"
| "play (m # ms) ts = Option.bind (play_move m ts) (play ms)"

fun move_allowed :: "instr list set \<Rightarrow> instr list set \<Rightarrow> move \<Rightarrow> bool" where
  "move_allowed calls rounds (Calls p) = (p \<in> calls)"
| "move_allowed calls rounds (Ticks p) = (p \<in> rounds)"
| "move_allowed calls rounds m = True"

lemma play_move_step: "play_move m ts = Some ts' \<Longrightarrow> move_allowed calls rounds m \<Longrightarrow> pool_step calls rounds ts ts'"
  by (cases m) (auto split: if_splits intro: pool_step.intros run_step.intros)

lemma play_run: "play ms ts = Some ts' \<Longrightarrow> list_all (move_allowed calls rounds) ms \<Longrightarrow> pool_run calls rounds ts ts'"
proof (induction ms arbitrary: ts)
  case (Cons m ms)
  then show ?case
    using play_move_step by (force simp: Option.bind_eq_Some_conv intro: converse_rtranclp_into_rtranclp)
qed simp

section \<open>Counting what is left\<close>

text \<open>The number of steps a program takes: a \<^verbatim>\<open>Lock\<close> is two, and a goroutine counts for its starter.\<close>

fun weight :: "instr \<Rightarrow> nat" and weights :: "instr list \<Rightarrow> nat" where
  "weight (Lock m) = 2"
| "weight (Go q) = Suc (weights q)"
| "weight (RLock m) = 1"
| "weight (RUnlock m) = 1"
| "weight (Unlock m) = 1"
| "weight Send = 1"
| "weights [] = 0"
| "weights (x # p) = weight x + weights p"

definition left :: "thread \<Rightarrow> nat" where
  "left t = weights (th_prog t) - (if th_waits t then 1 else 0)"

definition work :: "pool \<Rightarrow> nat" where
  "work ts = sum_list (map left ts)"

definition waits_ok :: "thread \<Rightarrow> bool" where
  "waits_ok t \<longleftrightarrow> (th_waits t \<longrightarrow> (\<exists>m p. th_prog t = Lock m # p))"

lemma thread_next_cases:
  assumes "thread_next ts t = Some t'"
  obtains (rlock) m p where "th_prog t = RLock m # p" "\<not> writer_there ts m"
      "t' = t\<lparr>th_prog := p, th_read := insert m (th_read t)\<rparr>"
  | (runlock) m p where "th_prog t = RUnlock m # p" "t' = t\<lparr>th_prog := p, th_read := th_read t - {m}\<rparr>"
  | (announce) m p where "th_prog t = Lock m # p" "\<not> th_waits t" "\<not> writer_there ts m"
      "t' = t\<lparr>th_waits := True\<rparr>"
  | (acquire) m p where "th_prog t = Lock m # p" "th_waits t" "\<not> reader_there ts m"
      "t' = t\<lparr>th_prog := p, th_write := insert m (th_write t), th_waits := False\<rparr>"
  | (unlock) m p where "th_prog t = Unlock m # p" "t' = t\<lparr>th_prog := p, th_write := th_write t - {m}\<rparr>"
  | (send) p where "th_prog t = Send # p" "th_reader t" "t' = t\<lparr>th_prog := p\<rparr>"
  | (spawn) q p where "th_prog t = Go q # p" "t' = t\<lparr>th_prog := p\<rparr>"
  using assms by (auto simp: thread_next_def split: list.splits instr.splits if_splits)

lemma left_new [simp]: "left (new_thread p) = weights p"
  by (simp add: left_def new_thread_def)

lemma left_next:
  "thread_next ts t = Some t' \<Longrightarrow> waits_ok t \<Longrightarrow> left t = Suc (left t' + work (spawned t))"
  by (erule thread_next_cases) (auto simp: left_def waits_ok_def spawned_def work_def new_thread_def)

lemma work_append [simp]: "work (ts @ us) = work ts + work us"
  by (simp add: work_def)

lemma work_update: "i < length ts \<Longrightarrow> work (ts[i := t]) + left (ts ! i) = work ts + left t"
  by (induction ts arbitrary: i) (auto simp: work_def split: nat.split)

lemma work_run_step:
  assumes "run_step ts ts'" and "\<forall>t \<in> set ts. waits_ok t"
  shows "work ts = Suc (work ts')"
proof -
  from assms(1) obtain i t where r: "ts' = ts[i := t] @ spawned (ts ! i)" "i < length ts"
    "thread_next ts (ts ! i) = Some t"
    by (rule run_stepE)
  have "left (ts ! i) = Suc (left t + work (spawned (ts ! i)))"
    using left_next [OF r(3)] assms(2) r(2) by simp
  with work_update [OF r(2), of t] r(1) show ?thesis by simp
qed

section \<open>Where a thread is in its program\<close>

text \<open>
  The locks held after a stretch of a program, and the places of a program where a thread asks for a
  lock, with the locks it then holds.
\<close>

fun effect :: "instr \<Rightarrow> lock set \<times> lock set \<Rightarrow> lock set \<times> lock set" where
  "effect (RLock m) (r, w) = (insert m r, w)"
| "effect (RUnlock m) (r, w) = (r - {m}, w)"
| "effect (Lock m) (r, w) = (r, insert m w)"
| "effect (Unlock m) (r, w) = (r, w - {m})"
| "effect Send s = s"
| "effect (Go q) s = s"

fun acquires :: "instr \<Rightarrow> bool" where
  "acquires (RLock m) = True"
| "acquires (Lock m) = True"
| "acquires x = False"

fun requests :: "instr list \<Rightarrow> lock set \<times> lock set \<Rightarrow> (instr \<times> lock set \<times> lock set) list" where
  "requests [] s = []"
| "requests (x # p) s = (if acquires x then [(x, s)] else []) @ requests p (effect x s)"

definition effects :: "instr list \<Rightarrow> lock set \<times> lock set \<Rightarrow> lock set \<times> lock set" where
  "effects p s = fold effect p s"

lemma effects_simps [simp]:
  "effects [] s = s" "effects (x # p) s = effects p (effect x s)" "effects (p @ q) s = effects q (effects p s)"
  by (simp_all add: effects_def)

lemma requests_append [simp]: "requests (p @ q) s = requests p s @ requests q (effects p s)"
  by (induction p arbitrary: s) auto

lemma request_at: "acquires x \<Longrightarrow> (x, effects q s) \<in> set (requests (q @ x # p) s)"
  by simp

definition follows :: "instr list \<Rightarrow> thread \<Rightarrow> bool" where
  "follows p t \<longleftrightarrow>
     waits_ok t \<and> (\<exists>q. p = q @ th_prog t \<and> effects q ({}, {}) = (th_read t, th_write t))"

lemma follows_new [simp]: "follows p (new_thread p)"
  by (auto simp: follows_def new_thread_def waits_ok_def)

lemma follows_next:
  assumes "follows p t" and "thread_next ts t = Some t'"
  shows "follows p t'"
proof -
  obtain q where q: "waits_ok t" "p = q @ th_prog t" "effects q ({}, {}) = (th_read t, th_write t)"
    using assms(1) by (auto simp: follows_def)
  from assms(2) show ?thesis
  proof (cases rule: thread_next_cases)
    case (announce m r)
    then show ?thesis using q by (auto simp: follows_def waits_ok_def)
  next
    case (rlock m r)
    then show ?thesis using q by (auto simp: follows_def waits_ok_def intro!: exI [of _ "q @ [RLock m]"])
  next
    case (runlock m r)
    then show ?thesis using q by (auto simp: follows_def waits_ok_def intro!: exI [of _ "q @ [RUnlock m]"])
  next
    case (acquire m r)
    then show ?thesis using q by (auto simp: follows_def waits_ok_def intro!: exI [of _ "q @ [Lock m]"])
  next
    case (unlock m r)
    then show ?thesis using q by (auto simp: follows_def waits_ok_def intro!: exI [of _ "q @ [Unlock m]"])
  next
    case (send r)
    then show ?thesis using q by (auto simp: follows_def waits_ok_def intro!: exI [of _ "q @ [Send]"])
  next
    case (spawn g r)
    then show ?thesis using q by (auto simp: follows_def waits_ok_def intro!: exI [of _ "q @ [Go g]"])
  qed
qed

lemma follows_leave: "follows p t \<Longrightarrow> follows p (t\<lparr>th_reader := False\<rparr>)"
  by (simp add: follows_def waits_ok_def)

text \<open>What is known of a thread that asks for a lock, and of one that is done.\<close>

lemma follows_request:
  "follows p t \<Longrightarrow> th_prog t = x # r \<Longrightarrow> acquires x \<Longrightarrow>
    (x, th_read t, th_write t) \<in> set (requests p ({}, {}))"
  using request_at by (force simp: follows_def)

lemma follows_done: "follows p t \<Longrightarrow> th_prog t = [] \<Longrightarrow> effects p ({}, {}) = (th_read t, th_write t)"
  by (auto simp: follows_def)

lemma follows_spawns: "follows p t \<Longrightarrow> th_prog t = Go g # r \<Longrightarrow> Go g \<in> set p"
  by (auto simp: follows_def)

section \<open>Mutual exclusion\<close>

text \<open>
  A lock that is held for writing is held by nobody else, and at most one \<^verbatim>\<open>Lock\<close> has announced itself.
  This is why a method that runs under the mutex can be taken as one step.
\<close>

definition excludes :: "thread \<Rightarrow> thread \<Rightarrow> bool" where
  "excludes t u \<longleftrightarrow>
     (\<forall>m. (m \<in> th_write t \<longrightarrow> m \<notin> th_write u \<and> m \<notin> th_read u \<and> \<not> announced m u)
        \<and> (announced m t \<longrightarrow> \<not> announced m u))"

definition exclusive :: "pool \<Rightarrow> bool" where
  "exclusive ts \<longleftrightarrow> (\<forall>t \<in> set ts. waits_ok t)
     \<and> (\<forall>i < length ts. \<forall>j < length ts. i \<noteq> j \<longrightarrow> excludes (ts ! i) (ts ! j))"

lemma waits_ok_next: "thread_next ts t = Some t' \<Longrightarrow> waits_ok t \<Longrightarrow> waits_ok t'"
  by (erule thread_next_cases) (auto simp: waits_ok_def)

lemma excludes_new: "waits_ok t \<Longrightarrow> excludes t (new_thread p)" "excludes (new_thread p) t"
  by (auto simp: excludes_def new_thread_def announced_def)

lemma not_writer_there:
  "\<not> writer_there ts m \<Longrightarrow> u \<in> set ts \<Longrightarrow> m \<notin> th_write u \<and> \<not> announced m u"
  by (auto simp: writer_there_def)

lemma not_reader_there: "\<not> reader_there ts m \<Longrightarrow> u \<in> set ts \<Longrightarrow> m \<notin> th_read u"
  by (auto simp: reader_there_def)

lemma announced_iff: "announced m t \<longleftrightarrow> th_waits t \<and> (\<exists>p. th_prog t = Lock m # p)"
  by (auto simp: announced_def split: list.splits instr.splits)

lemma excludes_less:
  assumes "excludes t u" and "excludes u t" and "th_read t' \<subseteq> th_read t" and "th_write t' \<subseteq> th_write t"
    and "\<not> th_waits t'"
  shows "excludes t' u \<and> excludes u t'"
  using assms unfolding excludes_def announced_iff by blast

lemma excludes_next:
  assumes "thread_next ts t = Some t'" and "u \<in> set ts" and "excludes t u" "excludes u t" and "waits_ok t"
  shows "excludes t' u \<and> excludes u t'"
  using assms(1)
proof (cases rule: thread_next_cases)
  case (rlock m p)
  with assms(5) have "\<not> th_waits t'" by (simp add: waits_ok_def)
  with rlock not_writer_there [OF rlock(2) assms(2)] assms(3,4) show ?thesis
    unfolding excludes_def announced_iff by auto
next
  case (announce m p)
  with not_writer_there [OF announce(3) assms(2)] assms(3,4) show ?thesis
    unfolding excludes_def announced_iff by auto
next
  case (acquire m p)
  then have "announced m t" by (simp add: announced_iff)
  with acquire not_reader_there [OF acquire(3) assms(2)] assms(3,4) show ?thesis
    unfolding excludes_def by (auto simp: announced_iff)
next
  case (runlock m p)
  with assms(5) show ?thesis by (intro excludes_less [OF assms(3,4)]) (auto simp: waits_ok_def)
next
  case (unlock m p)
  with assms(5) show ?thesis by (intro excludes_less [OF assms(3,4)]) (auto simp: waits_ok_def)
next
  case (send p)
  with assms(5) show ?thesis by (intro excludes_less [OF assms(3,4)]) (auto simp: waits_ok_def)
next
  case (spawn q p)
  with assms(5) show ?thesis by (intro excludes_less [OF assms(3,4)]) (auto simp: waits_ok_def)
qed

lemma waits_ok_new [simp]: "waits_ok (new_thread p)"
  by (simp add: waits_ok_def new_thread_def)

lemma exclusive_append: "exclusive ts \<Longrightarrow> exclusive (ts @ [new_thread p])"
  by (auto simp: exclusive_def nth_append excludes_new less_Suc_eq)

lemma exclusive_spawned: "exclusive ts \<Longrightarrow> exclusive (ts @ spawned t)"
  by (auto simp: spawned_def exclusive_append split: list.split instr.split)

lemma exclusive_update:
  assumes "exclusive ts" and "i < length ts" and "waits_ok t"
    and "\<And>u. u \<in> set ts \<Longrightarrow> excludes (ts ! i) u \<Longrightarrow> excludes u (ts ! i) \<Longrightarrow> excludes t u \<and> excludes u t"
  shows "exclusive (ts[i := t])"
proof -
  have "\<forall>u \<in> set (ts[i := t]). waits_ok u"
    using assms(1,3) set_update_subset_insert [of ts i t] by (auto simp: exclusive_def)
  moreover have "excludes (ts[i := t] ! j) (ts[i := t] ! k)"
    if "j < length ts" "k < length ts" "j \<noteq> k" for j k
    using that assms(1,2) assms(4) [of "ts ! j"] assms(4) [of "ts ! k"]
    by (cases "j = i"; cases "k = i") (auto simp: exclusive_def)
  ultimately show ?thesis by (simp add: exclusive_def)
qed

lemma exclusive_step:
  assumes "pool_step calls rounds ts ts'" and "exclusive ts"
  shows "exclusive ts'"
  using assms(1)
proof cases
  case Run
  then obtain i t where r: "ts' = ts[i := t] @ spawned (ts ! i)" "i < length ts"
    "thread_next ts (ts ! i) = Some t"
    by (rule run_stepE)
  have "waits_ok t" using waits_ok_next [OF r(3)] assms(2) r(2) by (simp add: exclusive_def)
  then have "exclusive (ts[i := t])"
    by (rule exclusive_update [OF assms(2) r(2)]) (use excludes_next [OF r(3)] assms(2) r(2) in \<open>auto simp: exclusive_def\<close>)
  then show ?thesis unfolding r(1) by (rule exclusive_spawned)
next
  case (Call p)
  with assms(2) show ?thesis by (simp add: exclusive_append)
next
  case (Tick p)
  then have "0 < length ts" "\<not> th_waits (ts ! 0)"
    using assms(2) by (auto simp: exclusive_def waits_ok_def)
  then show ?thesis
    unfolding Tick(1) by (intro exclusive_update [OF assms(2)]) (auto simp: waits_ok_def excludes_def announced_iff)
next
  case (Leave i)
  then have "waits_ok (ts ! i)" using assms(2) by (simp add: exclusive_def)
  then show ?thesis
    unfolding Leave(1) by (intro exclusive_update [OF assms(2) Leave(2)]) (auto simp: waits_ok_def excludes_def announced_iff)
qed

lemma exclusive_run: "pool_run calls rounds ts ts' \<Longrightarrow> exclusive ts \<Longrightarrow> exclusive ts'"
  by (induction rule: rtranclp_induct) (auto intro: exclusive_step)

end
