(* ===== verification/Lock_Discipline.thy ===== *)
theory Lock_Discipline
  imports Rw_Lock
begin

text \<open>
  What the order in which a store's methods take its locks is good for: as long as every channel is read,
  some thread can go on until all calls have returned. And what a reader that goes away does: the locks its
  sender holds are held for ever.
\<close>

section \<open>The discipline\<close>

text \<open>
  \<open>progs\<close> are the programs of callers and of the goroutines they start, \<open>rounds\<close> those of the background
  goroutine. Callers ask for a lock only while they hold none; the background goroutine takes \<open>DelMu\<close> before
  \<open>Mu\<close>, except that it may hold \<open>Mu\<close> for reading when it asks for \<open>DelMu\<close>; and nobody else ever asks
  for \<open>DelMu\<close> for writing.
\<close>

definition cleaner_requests :: "(instr \<times> lock set \<times> lock set) set" where
  "cleaner_requests =
     {(RLock Mu, {}, {}), (Lock DelMu, {Mu}, {}), (Lock Mu, {}, {DelMu}), (RLock Mu, {}, {DelMu})}"

locale lock_discipline =
  fixes calls progs rounds :: "instr list set"
  assumes calls_progs: "calls \<subseteq> progs"
    and goroutines: "p \<in> progs \<union> rounds \<Longrightarrow> Go q \<in> set p \<Longrightarrow> q \<in> progs"
    and flat: "p \<in> progs \<Longrightarrow> (x, s) \<in> set (requests p ({}, {})) \<Longrightarrow> s = ({}, {}) \<and> x \<noteq> Lock DelMu"
    and balanced: "p \<in> progs \<union> rounds \<Longrightarrow> effects p ({}, {}) = ({}, {})"
    and nested: "p \<in> rounds \<Longrightarrow> set (requests p ({}, {})) \<subseteq> cleaner_requests"
begin

definition pool_inv :: "pool \<Rightarrow> bool" where
  "pool_inv ts \<longleftrightarrow> ts \<noteq> [] \<and> (\<exists>p \<in> insert [] rounds. follows p (ts ! 0))
     \<and> (\<forall>i < length ts. 0 < i \<longrightarrow> (\<exists>p \<in> progs. follows p (ts ! i)))"

lemma inv_start: "pool_inv start_pool"
  by (simp add: pool_inv_def)

lemma inv_waits: "pool_inv ts \<Longrightarrow> \<forall>t \<in> set ts. waits_ok t"
proof
  fix t
  assume "pool_inv ts" "t \<in> set ts"
  then obtain i where "i < length ts" "t = ts ! i" by (auto simp: in_set_conv_nth)
  with \<open>pool_inv ts\<close> show "waits_ok t" by (cases i) (auto simp: pool_inv_def follows_def)
qed

lemma inv_append: "pool_inv ts \<Longrightarrow> p \<in> progs \<Longrightarrow> pool_inv (ts @ [new_thread p])"
  unfolding pool_inv_def by (auto simp: nth_append less_Suc_eq) (rule bexI [of _ p]; simp)+

lemma inv_step: "pool_step calls rounds ts ts' \<Longrightarrow> pool_inv ts \<Longrightarrow> pool_inv ts'"
proof (induction rule: pool_step.induct)
  case (Run ts ts')
  then obtain i t where r: "ts' = ts[i := t] @ spawned (ts ! i)" "i < length ts"
    "thread_next ts (ts ! i) = Some t"
    by (auto elim: run_stepE)
  obtain p where p: "p \<in> insert [] (progs \<union> rounds)" "follows p (ts ! i)"
    using Run.prems r(2) by (cases i) (auto simp: pool_inv_def)
  have "pool_inv (ts[i := t])"
    using Run.prems r(2) follows_next [OF _ r(3)]
    unfolding pool_inv_def by (cases i) (auto simp: nth_list_update, blast+)
  moreover have "q \<in> progs" if "th_prog (ts ! i) = Go q # p'" for q p'
    using follows_spawns [OF p(2) that] p(1) goroutines [of p q] by auto
  ultimately show ?case
    unfolding r(1) by (auto simp: spawned_def inv_append split: list.split instr.split)
next
  case (Call p ts)
  with calls_progs show ?case by (auto intro: inv_append)
next
  case (Tick ts p)
  then obtain q where "q \<in> insert [] rounds" "follows q (ts ! 0)" by (auto simp: pool_inv_def)
  then have "follows p ((ts ! 0)\<lparr>th_prog := p\<rparr>)"
    using Tick(2) balanced [of q] follows_done [of q "ts ! 0"]
    by (auto simp: follows_def waits_ok_def)
  with Tick show ?case by (auto simp: pool_inv_def nth_list_update)
next
  case (Leave i ts)
  then show ?case by (auto simp: pool_inv_def nth_list_update intro: follows_leave)
qed

lemma inv_run: "pool_run calls rounds start_pool ts \<Longrightarrow> pool_inv ts"
  by (induction rule: rtranclp_induct) (auto intro: inv_step inv_start)

section \<open>Progress\<close>

text \<open>A thread of a pool in which nobody can go on asks for a lock, or is done.\<close>

lemma stuck_asks:
  assumes "thread_next ts t = None" and "th_reader t" and "th_prog t \<noteq> []"
  obtains x p where "th_prog t = x # p" and "acquires x"
  using assms by (cases "th_prog t") (auto simp: thread_next_def split: instr.splits if_splits)

lemma caller_holds_nothing:
  assumes "p \<in> progs" and "follows p t" and "thread_next ts t = None" and "th_reader t"
  shows "th_read t = {} \<and> th_write t = {} \<and> \<not> announced DelMu t"
proof (cases "th_prog t = []")
  case True
  with follows_done [OF assms(2)] balanced [of p] assms(1) show ?thesis by (auto simp: announced_iff)
next
  case False
  with assms(3,4) obtain x r where x: "th_prog t = x # r" "acquires x" by (rule stuck_asks)
  from flat [OF assms(1) follows_request [OF assms(2) x]] x show ?thesis by (auto simp: announced_iff)
qed

lemma next_None_iff:
  "thread_next ts t = None \<longleftrightarrow>
     (case th_prog t of
        [] \<Rightarrow> True
      | RLock m # p \<Rightarrow> writer_there ts m
      | Lock m # p \<Rightarrow> if th_waits t then reader_there ts m else writer_there ts m
      | Send # p \<Rightarrow> \<not> th_reader t
      | _ \<Rightarrow> False)"
  by (auto simp: thread_next_def split: list.splits instr.splits)

text \<open>
  In a pool in which nobody can go on, a \<^verbatim>\<open>Lock\<close> that has announced itself waits for a reader. When nobody
  but the first thread holds anything, that leaves only the first thread to be waited for.
\<close>

lemma stuck_only_done:
  assumes inv: "pool_inv ts" and read: "channels_read ts" and stuck: "\<forall>t \<in> set ts. thread_next ts t = None"
  shows "all_returned ts"
proof -
  let ?c = "ts ! 0"
  have len: "0 < length ts" and c: "?c \<in> set ts" using inv by (auto simp: pool_inv_def)
  have others: "th_read t = {} \<and> th_write t = {} \<and> \<not> announced DelMu t" if "t \<in> set ts" "t \<noteq> ?c" for t
  proof -
    obtain i where i: "i < length ts" "t = ts ! i" using \<open>t \<in> set ts\<close> by (auto simp: in_set_conv_nth)
    with that(2) have "0 < i" by (cases i) auto
    with inv i obtain p where "p \<in> progs" "follows p t" by (auto simp: pool_inv_def)
    with caller_holds_nothing [of p t ts] stuck read that(1) show ?thesis
      by (auto simp: channels_read_def)
  qed
  have waiting: "reader_there ts m" if "announced m t" "t \<in> set ts" for m t
    using that stuck by (auto simp: announced_iff next_None_iff)
  have reader: "m \<in> th_read ?c" if "reader_there ts m" for m
    using that others by (auto simp: reader_there_def)
  have writer: "m \<in> th_write ?c \<or> m \<in> th_read ?c" if "writer_there ts m" for m
    using that others waiting reader by (fastforce simp: writer_there_def)
  obtain p where p: "p \<in> insert [] rounds" "follows p ?c" using inv by (auto simp: pool_inv_def)
  have c_done: "th_prog ?c = []"
  proof (rule ccontr)
    assume *: "th_prog ?c \<noteq> []"
    obtain x r where x: "th_prog ?c = x # r" "acquires x"
      by (rule stuck_asks [of ts ?c]) (use * stuck read c in \<open>auto simp: channels_read_def\<close>)
    have "(x, th_read ?c, th_write ?c) \<in> cleaner_requests"
      using follows_request [OF p(2) x] p(1) nested [of p] by auto
    then consider (r) "x = RLock Mu" "Mu \<notin> th_read ?c" "Mu \<notin> th_write ?c"
      | (d) "x = Lock DelMu" "DelMu \<notin> th_read ?c" "DelMu \<notin> th_write ?c"
      | (w) "x = Lock Mu" "Mu \<notin> th_read ?c" "Mu \<notin> th_write ?c"
      by (auto simp: cleaner_requests_def)
    then show False
      using bspec [OF stuck c] x(1) writer [of Mu] writer [of DelMu] reader [of Mu] reader [of DelMu]
      by cases (auto simp: next_None_iff split: if_splits)
  qed
  have "th_read ?c = {} \<and> th_write ?c = {}"
    using follows_done [OF p(2) c_done] balanced [of p] p(1) by auto
  then have free: "\<not> writer_there ts m" "\<not> reader_there ts m" for m
    using writer reader by auto
  have "th_prog t = []" if t: "t \<in> set ts" for t
  proof (rule ccontr)
    assume *: "th_prog t \<noteq> []"
    obtain x r where "th_prog t = x # r" "acquires x"
      by (rule stuck_asks [of ts t]) (use * stuck read t in \<open>auto simp: channels_read_def\<close>)
    with bspec [OF stuck t] free show False by (cases x) (auto simp: next_None_iff split: if_splits)
  qed
  then show ?thesis by (simp add: all_returned_def)
qed

lemma can_go_on:
  assumes "pool_inv ts" and "channels_read ts" and "\<not> all_returned ts"
  shows "\<exists>ts'. run_step ts ts'"
proof -
  obtain t where "t \<in> set ts" "thread_next ts t \<noteq> None"
    using stuck_only_done [OF assms(1,2)] assms(3) by blast
  then obtain i t' where "i < length ts" "thread_next ts (ts ! i) = Some t'" by (auto simp: in_set_conv_nth)
  then show ?thesis by (blast intro: run_step.intros)
qed

text \<open>Steps of the threads themselves need nobody else, and each takes one off the work.\<close>

lemma runs_inv: "(run_step ^^ n) ts ts' \<Longrightarrow> pool_inv ts \<Longrightarrow> pool_inv ts'"
  by (induction n arbitrary: ts') (auto intro: inv_step pool_step.Run)

lemma runs_work: "(run_step ^^ n) ts ts' \<Longrightarrow> pool_inv ts \<Longrightarrow> work ts = n + work ts'"
proof (induction n arbitrary: ts')
  case (Suc n)
  then obtain us where u: "(run_step ^^ n) ts us" "run_step us ts'" by auto
  then have "work us = Suc (work ts')" by (intro work_run_step inv_waits runs_inv [OF u(1)]) (use Suc in auto)
  with Suc.IH [OF u(1)] Suc.prems show ?case by simp
qed simp

lemma next_reader: "thread_next ts t = Some t' \<Longrightarrow> th_reader t' = th_reader t"
  by (erule thread_next_cases) auto

lemma runs_read: "(run_step ^^ n) ts ts' \<Longrightarrow> channels_read ts \<Longrightarrow> channels_read ts'"
proof (induction n arbitrary: ts')
  case (Suc n)
  then obtain us where u: "channels_read us" "run_step us ts'" by auto
  from u(2) obtain i t where r: "ts' = us[i := t] @ spawned (us ! i)" "i < length us"
    "thread_next us (us ! i) = Some t"
    by (rule run_stepE)
  have "channels_read (us[i := t])"
    using u(1) next_reader [OF r(3)] r(2) set_update_subset_insert [of us i t]
    by (auto simp: channels_read_def)
  then show ?case
    unfolding r(1) by (auto simp: channels_read_def spawned_def new_thread_def split: list.split instr.split)
qed simp

lemma work_0_iff: "pool_inv ts \<Longrightarrow> channels_read ts \<Longrightarrow> work ts = 0 \<longleftrightarrow> all_returned ts"
proof
  assume "all_returned ts"
  then show "work ts = 0" by (auto simp: work_def all_returned_def left_def)
next
  assume *: "pool_inv ts" "channels_read ts" "work ts = 0"
  show "all_returned ts"
    using can_go_on [OF *(1,2)] work_run_step inv_waits [OF *(1)] *(3) by fastforce
qed

lemma every_call_returns:
  assumes "pool_run calls rounds start_pool ts" and "channels_read ts" and "(run_step ^^ n) ts ts'"
  shows "n \<le> work ts \<and> (all_returned ts' \<longleftrightarrow> n = work ts) \<and> (all_returned ts' \<or> (\<exists>us. run_step ts' us))"
proof -
  have inv: "pool_inv ts" "pool_inv ts'" "channels_read ts'"
    using inv_run [OF assms(1)] runs_inv [OF assms(3)] runs_read [OF assms(3,2)] by auto
  then show ?thesis
    using runs_work [OF assms(3) inv(1)] work_0_iff [OF inv(2,3)] can_go_on [OF inv(2,3)] by auto
qed

end

end
