(* ===== verification/Store_Locks.thy ===== *)
theory Store_Locks
  imports Lock_Discipline
begin

text \<open>
  The mutexes of the session store (\<^verbatim>\<open>src/state/session/store.go\<close>) and of the policy store
  (\<^verbatim>\<open>src/state/accesspolicy/store.go\<close>). Both streams send on an unbuffered channel while they hold a lock
  for reading. As long as the channels are read every call returns; a reader that goes away leaves the store
  locked for ever.
\<close>

section \<open>The methods as programs of lock operations\<close>

definition Get_locks :: "instr list" where
  "Get_locks = [RLock Mu, RUnlock Mu]"

definition Set_locks :: "instr list" where
  "Set_locks = [Lock Mu, Unlock Mu]"

text \<open>\<^verbatim>\<open>Stream\<close> starts a goroutine that sends \<open>n\<close> sessions under \<open>DelMu\<close>.\<close>

definition Stream_go :: "nat \<Rightarrow> instr list" where
  "Stream_go n = [RLock DelMu] @ replicate n Send @ [RUnlock DelMu]"

definition Stream_locks :: "nat \<Rightarrow> instr list" where
  "Stream_locks n = [RLock Mu, Go (Stream_go n), RUnlock Mu]"

text \<open>\<^verbatim>\<open>clean\<close> with \<open>k\<close> deletions: it lets go of \<open>Mu\<close> around each, and \<^verbatim>\<open>delete\<close> takes it for writing.\<close>

definition delete_locks :: "instr list" where
  "delete_locks = [Lock Mu, Unlock Mu]"

definition clean_locks :: "nat \<Rightarrow> instr list" where
  "clean_locks k =
     [RLock Mu, Lock DelMu] @ concat (replicate k ([RUnlock Mu] @ delete_locks @ [RLock Mu]))
     @ [Unlock DelMu, RUnlock Mu]"

text \<open>The policy store streams under its only mutex.\<close>

definition Get_policy_locks :: "instr list" where
  "Get_policy_locks = [RLock Mu, RUnlock Mu]"

definition Update_policy_locks :: "instr list" where
  "Update_policy_locks = [Lock Mu, Unlock Mu]"

definition Delete_policy_locks :: "instr list" where
  "Delete_policy_locks = [Lock Mu, Unlock Mu]"

definition Stream_policies_go :: "nat \<Rightarrow> instr list" where
  "Stream_policies_go n = [RLock Mu] @ replicate n Send @ [RUnlock Mu]"

definition Stream_policies_locks :: "nat \<Rightarrow> instr list" where
  "Stream_policies_locks n = [Go (Stream_policies_go n)]"

definition session_calls :: "instr list set" where
  "session_calls = {Get_locks, Set_locks} \<union> range Stream_locks"

definition session_rounds :: "instr list set" where
  "session_rounds = range clean_locks"

definition policy_calls :: "instr list set" where
  "policy_calls = {Get_policy_locks, Update_policy_locks, Delete_policy_locks} \<union> range Stream_policies_locks"

lemmas lock_defs = Get_locks_def Set_locks_def Stream_go_def Stream_locks_def delete_locks_def
  Get_policy_locks_def Update_policy_locks_def Delete_policy_locks_def Stream_policies_go_def
  Stream_policies_locks_def

abbreviation session_pool :: "pool \<Rightarrow> bool" where
  "session_pool ts \<equiv> pool_run session_calls session_rounds start_pool ts"

abbreviation policy_pool :: "pool \<Rightarrow> bool" where
  "policy_pool ts \<equiv> pool_run policy_calls {} start_pool ts"

section \<open>Both stores keep the discipline\<close>

lemma effects_sends [simp]: "effects (replicate n Send) s = s"
  by (induction n arbitrary: s) auto

lemma requests_sends [simp]: "requests (replicate n Send) s = []"
  by (induction n arbitrary: s) auto

lemma effects_deletions:
  "effects (concat (replicate k ([RUnlock Mu] @ delete_locks @ [RLock Mu]))) ({Mu}, {DelMu}) = ({Mu}, {DelMu})"
  by (induction k) (auto simp: delete_locks_def)

lemma requests_deletions:
  "set (requests (concat (replicate k ([RUnlock Mu] @ delete_locks @ [RLock Mu]))) ({Mu}, {DelMu}))
    \<subseteq> cleaner_requests"
  by (induction k) (auto simp: delete_locks_def cleaner_requests_def)

lemma clean_balanced: "effects (clean_locks k) ({}, {}) = ({}, {})"
  using effects_deletions [of k] by (simp add: clean_locks_def)

lemma clean_nested: "set (requests (clean_locks k) ({}, {})) \<subseteq> cleaner_requests"
  using effects_deletions [of k] requests_deletions [of k]
  by (auto simp: clean_locks_def cleaner_requests_def)

lemma clean_no_goroutine: "Go q \<notin> set (clean_locks k)"
  by (induction k) (auto simp: clean_locks_def delete_locks_def)

interpretation session_locks:
  lock_discipline session_calls "session_calls \<union> range Stream_go" session_rounds
proof unfold_locales
  fix p q
  assume "p \<in> (session_calls \<union> range Stream_go) \<union> session_rounds" "Go q \<in> set p"
  then show "q \<in> session_calls \<union> range Stream_go"
    using clean_no_goroutine by (auto simp: session_calls_def session_rounds_def lock_defs)
next
  fix p x s
  assume "p \<in> session_calls \<union> range Stream_go" "(x, s) \<in> set (requests p ({}, {}))"
  then show "s = ({}, {}) \<and> x \<noteq> Lock DelMu"
    by (auto simp: session_calls_def lock_defs)
next
  fix p
  assume "p \<in> (session_calls \<union> range Stream_go) \<union> session_rounds"
  then show "effects p ({}, {}) = ({}, {})"
    using clean_balanced by (auto simp: session_calls_def session_rounds_def lock_defs)
next
  fix p
  assume "p \<in> session_rounds"
  then show "set (requests p ({}, {})) \<subseteq> cleaner_requests"
    using clean_nested by (auto simp: session_rounds_def)
qed simp

interpretation policy_locks:
  lock_discipline policy_calls "policy_calls \<union> range Stream_policies_go" "{}"
  by unfold_locales (auto simp: policy_calls_def lock_defs)

text \<open>
  C6: As long as the channels are read, no call of a store waits for ever. From every state that the calls
  and the cleaner of the session store, or the calls of the policy store, reach, the goroutines come to an
  end in the same number of steps, in whatever order they run: as long as some call has not returned, some
  goroutine can go on, and when \<open>work\<close> many steps are done, all calls have returned.
\<close>

theorem stores_do_not_deadlock:
  assumes "session_pool ts \<or> policy_pool ts" and "channels_read ts" and "(run_step ^^ n) ts ts'"
  shows "n \<le> work ts \<and> (all_returned ts' \<longleftrightarrow> n = work ts) \<and> (all_returned ts' \<or> (\<exists>us. run_step ts' us))"
  using assms session_locks.every_call_returns policy_locks.every_call_returns by blast

text \<open>A stream of two sessions, a lookup, a store and a round of the cleaner with one deletion begin together.\<close>

definition demo_busy :: pool where
  "demo_busy =
     [new_thread (clean_locks 1), new_thread (Stream_locks 2), new_thread Get_locks, new_thread Set_locks]"

lemma demo_busy_run: "session_pool demo_busy"
proof (rule play_run)
  show "play [Ticks (clean_locks 1), Calls (Stream_locks 2), Calls Get_locks, Calls Set_locks] start_pool
      = Some demo_busy"
    by (simp add: demo_busy_def new_thread_def)
qed (auto simp: session_calls_def session_rounds_def)

theorem stores_do_not_deadlock_witness:
  "work demo_busy = 22 \<and> \<not> all_returned demo_busy \<and> (\<exists>us. run_step demo_busy us)"
proof -
  have work: "work demo_busy = 22"
    by (simp add: demo_busy_def work_def lock_defs clean_locks_def numeral_2_eq_2)
  have read: "channels_read demo_busy"
    by (simp add: demo_busy_def channels_read_def new_thread_def)
  show ?thesis
    using stores_do_not_deadlock [OF disjI1 [OF demo_busy_run] read, of 0 demo_busy] work by auto
qed

section \<open>A reader that goes away\<close>

text \<open>A goroutine that has to send on a channel nobody reads any more, and holds a lock for reading.\<close>

definition abandoned :: "pool \<Rightarrow> nat \<Rightarrow> lock \<Rightarrow> bool" where
  "abandoned ts g m \<longleftrightarrow> g < length ts \<and> (\<exists>p. th_prog (ts ! g) = Send # p) \<and> \<not> th_reader (ts ! g)
     \<and> m \<in> th_read (ts ! g)"

text \<open>The cleaner has read-locked \<open>Mu\<close> and asks for \<open>DelMu\<close>.\<close>

definition cleaning :: "pool \<Rightarrow> bool" where
  "cleaning ts \<longleftrightarrow> ts \<noteq> [] \<and> Mu \<in> th_read (ts ! 0) \<and> (\<exists>p. th_prog (ts ! 0) = Lock DelMu # p)"

text \<open>\<open>t'\<close> is at the place of \<open>t\<close>: it may have announced itself, and its reader may have gone away.\<close>

definition same_place :: "thread \<Rightarrow> thread \<Rightarrow> bool" where
  "same_place t t' \<longleftrightarrow> th_prog t' = th_prog t \<and> th_read t' = th_read t \<and> th_write t' = th_write t
     \<and> (th_waits t \<longrightarrow> th_waits t') \<and> (th_reader t' \<longrightarrow> th_reader t)"

lemma same_place_refl [simp]: "same_place t t"
  by (simp add: same_place_def)

lemma same_place_trans: "same_place t u \<Longrightarrow> same_place u v \<Longrightarrow> same_place t v"
  by (auto simp: same_place_def)

lemma step_keeps_place:
  assumes "pool_step calls rounds ts ts'" and "j < length ts" and "th_prog (ts ! j) \<noteq> []"
    and "\<And>t. thread_next ts (ts ! j) = Some t \<Longrightarrow> same_place (ts ! j) t"
  shows "j < length ts' \<and> same_place (ts ! j) (ts' ! j)"
  using assms(1)
proof cases
  case Run
  then obtain i t where "ts' = ts[i := t] @ spawned (ts ! i)" "i < length ts"
    "thread_next ts (ts ! i) = Some t"
    by (rule run_stepE)
  with assms(2,4) show ?thesis by (cases "i = j") (auto simp: nth_append)
next
  case (Tick p)
  with assms(2,3) show ?thesis by (cases j) auto
next
  case (Leave i)
  with assms(2) show ?thesis by (cases "i = j") (auto simp: same_place_def)
qed (use assms(2) in \<open>auto simp: nth_append\<close>)

text \<open>Who cannot go on: a sender without a reader, a writer while there is a reader, a reader while a writer waits.\<close>

lemma sender_waits: "th_prog t = Send # p \<Longrightarrow> \<not> th_reader t \<Longrightarrow> thread_next ts t = None"
  by (simp add: thread_next_def)

lemma writer_waits:
  "th_prog t = Lock m # p \<Longrightarrow> reader_there ts m \<Longrightarrow> thread_next ts t = Some t' \<Longrightarrow> same_place t t'"
  by (auto simp: thread_next_def same_place_def split: if_splits)

lemma reader_waits: "th_prog t = RLock m # p \<Longrightarrow> writer_there ts m \<Longrightarrow> thread_next ts t = None"
  by (simp add: thread_next_def)

lemma abandoned_step:
  "pool_step calls rounds ts ts' \<Longrightarrow> abandoned ts g m \<Longrightarrow> abandoned ts' g m"
  using step_keeps_place [of calls rounds ts ts' g] sender_waits [of "ts ! g" _ ts]
  by (fastforce simp: abandoned_def same_place_def)

lemma abandoned_run:
  "pool_run calls rounds ts ts' \<Longrightarrow> abandoned ts g m \<Longrightarrow> abandoned ts' g m"
  by (induction rule: rtranclp_induct) (auto intro: abandoned_step)

lemma abandoned_reader: "abandoned ts g m \<Longrightarrow> reader_there ts m"
  by (auto simp: abandoned_def reader_there_def)

lemma cleaning_step:
  assumes "pool_step calls rounds ts ts'" and "abandoned ts g DelMu" and "cleaning ts"
  shows "cleaning ts' \<and> th_prog (ts' ! 0) = th_prog (ts ! 0)"
proof -
  obtain p where p: "th_prog (ts ! 0) = Lock DelMu # p" "0 < length ts" "Mu \<in> th_read (ts ! 0)"
    using assms(3) by (auto simp: cleaning_def)
  have "0 < length ts' \<and> same_place (ts ! 0) (ts' ! 0)"
    by (rule step_keeps_place [OF assms(1) p(2)])
       (use p(1) writer_waits [OF p(1) abandoned_reader [OF assms(2)]] in auto)
  with p show ?thesis by (auto simp: cleaning_def same_place_def)
qed

lemma cleaning_run:
  "pool_run calls rounds ts ts' \<Longrightarrow> abandoned ts g DelMu \<Longrightarrow> cleaning ts \<Longrightarrow>
    cleaning ts' \<and> th_prog (ts' ! 0) = th_prog (ts ! 0)"
proof (induction rule: rtranclp_induct)
  case (step us vs)
  with cleaning_step [OF step(2) abandoned_run [OF step(1)]] show ?case by auto
qed simp

lemma cleaning_reader: "cleaning ts \<Longrightarrow> reader_there ts Mu"
  by (auto simp: cleaning_def reader_there_def intro: nth_mem)

text \<open>When \<open>m\<close> has a reader in every state to come, no writer gets it, and behind a waiting writer no reader.\<close>

lemma no_writer_returns:
  assumes "\<And>us. pool_run calls rounds ts us \<Longrightarrow> reader_there us m"
    and "pool_run calls rounds ts ts'" and "j < length ts" and "th_prog (ts ! j) = Lock m # p"
  shows "j < length ts' \<and> same_place (ts ! j) (ts' ! j)"
  using assms(2)
proof (induction rule: rtranclp_induct)
  case (step us vs)
  then have "th_prog (us ! j) = Lock m # p" using assms(4) by (simp add: same_place_def)
  then have "j < length vs \<and> same_place (us ! j) (vs ! j)"
    by (intro step_keeps_place [OF step(2)]) (use step(3) writer_waits assms(1) [OF step(1)] in auto)
  with step(3) show ?case by (blast intro: same_place_trans)
qed (use assms(3) in simp)

lemma no_reader_returns:
  assumes "\<And>us. pool_run calls rounds ts us \<Longrightarrow> reader_there us m"
    and "k < length ts" and "announced m (ts ! k)"
    and "pool_run calls rounds ts ts'" and "j < length ts" and "th_prog (ts ! j) = RLock m # p"
  shows "j < length ts' \<and> same_place (ts ! j) (ts' ! j)"
  using assms(4)
proof (induction rule: rtranclp_induct)
  case (step us vs)
  obtain q where "th_prog (ts ! k) = Lock m # q" "th_waits (ts ! k)" using assms(3) by (auto simp: announced_iff)
  with no_writer_returns [OF assms(1) step(1) assms(2)]
  have "k < length us" "announced m (us ! k)" by (auto simp: announced_iff same_place_def)
  then have "writer_there us m" by (auto simp: writer_there_def)
  moreover have "th_prog (us ! j) = RLock m # p" using step(3) assms(6) by (simp add: same_place_def)
  ultimately have "j < length vs \<and> same_place (us ! j) (vs ! j)"
    by (intro step_keeps_place [OF step(2)]) (use step(3) reader_waits [of "us ! j"] in auto)
  with step(3) show ?case by (blast intro: same_place_trans)
qed (use assms(5) in simp)

text \<open>With such a goroutine around, no round of the cleaner ever ends.\<close>

lemma no_round_ends:
  assumes "pool_run calls session_rounds ts ts'" and "abandoned ts g DelMu" and "th_prog (ts ! 0) = []"
  shows "ts' \<noteq> [] \<and> (th_prog (ts' ! 0) = [] \<or> (\<exists>k. th_prog (ts' ! 0) = clean_locks k) \<or> cleaning ts')"
  using assms(1)
proof (induction rule: rtranclp_induct)
  case base
  then show ?case using assms(2,3) by (auto simp: abandoned_def)
next
  case (step us vs)
  consider (idle) "th_prog (us ! 0) = []" | (began) k where "th_prog (us ! 0) = clean_locks k" | (at) "cleaning us"
    using step(3) by blast
  then show ?case
  proof cases
    case at
    with cleaning_step [OF step(2) abandoned_run [OF step(1) assms(2)]] show ?thesis
      by (auto simp: cleaning_def)
  next
    case idle
    from step(2) show ?thesis
    proof cases
      case Run
      then show ?thesis
        using idle step(3) by (auto elim!: run_stepE simp: thread_next_def nth_append nth_list_update split: if_splits)
    qed (use idle step(3) in \<open>auto simp: nth_append nth_list_update session_rounds_def\<close>)
  next
    case began
    from step(2) show ?thesis
    proof cases
      case Run
      then show ?thesis
        using began step(3)
        by (auto elim!: run_stepE simp: thread_next_def clean_locks_def cleaning_def nth_append nth_list_update
            split: if_splits)
    qed (use began step(3) in \<open>auto simp: nth_append nth_list_update clean_locks_def\<close>)
  qed
qed

text \<open>
  C7: A reader of sessions that goes away freezes the session store. When a goroutine of \<open>Stream\<close> has
  nobody left to send to, and the cleaner has begun its next round, then in every later state the round has
  not ended and no call of \<open>Set\<close> has returned; and once such a call waits, no call of \<open>Get\<close> returns either,
  so that no request is checked any more.
\<close>

theorem lost_reader_freezes_sessions:
  assumes "session_pool ts" and "abandoned ts g DelMu" and "cleaning ts"
    and "pool_run session_calls session_rounds ts ts'" and "j < length ts"
  shows "th_prog (ts' ! 0) = th_prog (ts ! 0)
    \<and> (th_prog (ts ! j) = Set_locks \<longrightarrow> th_prog (ts' ! j) = Set_locks)
    \<and> ((\<exists>k < length ts. announced Mu (ts ! k)) \<and> th_prog (ts ! j) = Get_locks
         \<longrightarrow> th_prog (ts' ! j) = Get_locks)"
proof -
  have r: "reader_there us Mu" if "pool_run session_calls session_rounds ts us" for us
    using cleaning_run [OF that assms(2,3)] cleaning_reader by blast
  show ?thesis
    using cleaning_run [OF assms(4,2,3)] no_writer_returns [OF r assms(4,5)]
      no_reader_returns [OF r _ _ assms(4,5)]
    by (auto simp: Set_locks_def Get_locks_def same_place_def)
qed

text \<open>
  One session is streamed, the reader goes away, a round of the cleaner begins, a session is to be stored and
  one to be looked up.
\<close>

definition demo_sessions :: "move list" where
  "demo_sessions =
     [Calls (Stream_locks 1), Runs 1, Runs 1, Runs 1, Runs 2, Leaves 2, Ticks (clean_locks 0), Runs 0,
      Calls Set_locks, Runs 3, Calls Get_locks]"

definition demo_frozen :: pool where
  "demo_frozen =
     [(new_thread [Lock DelMu, Unlock DelMu, RUnlock Mu])\<lparr>th_read := {Mu}\<rparr>, new_thread [],
      (new_thread [Send, RUnlock DelMu])\<lparr>th_read := {DelMu}, th_reader := False\<rparr>,
      (new_thread Set_locks)\<lparr>th_waits := True\<rparr>, new_thread Get_locks]"

lemmas demo_play_defs = thread_next_def spawned_def writer_there_def reader_there_def announced_def
  new_thread_def numeral_2_eq_2 numeral_3_eq_3

lemma only_value: "(\<And>x. P x \<Longrightarrow> f x = c) \<Longrightarrow> P a \<Longrightarrow> {f x |x. P x} = {c}"
  by force

lemma demo_sessions_run: "session_pool demo_frozen"
proof (rule play_run)
  show "play demo_sessions start_pool = Some demo_frozen"
    by (simp add: demo_sessions_def demo_frozen_def demo_play_defs lock_defs clean_locks_def)
  show "list_all (move_allowed session_calls session_rounds) demo_sessions"
    by (auto simp: demo_sessions_def session_calls_def session_rounds_def)
qed

theorem lost_reader_freezes_sessions_witness:
  "session_pool demo_frozen
   \<and> {th_prog (ts' ! 3) |ts'. pool_run session_calls session_rounds demo_frozen ts'} = {Set_locks}
   \<and> {th_prog (ts' ! 4) |ts'. pool_run session_calls session_rounds demo_frozen ts'} = {Get_locks}"
proof -
  have facts: "abandoned demo_frozen 2 DelMu" "cleaning demo_frozen" "3 < length demo_frozen" "4 < length demo_frozen"
    "announced Mu (demo_frozen ! 3)" "th_prog (demo_frozen ! 3) = Set_locks" "th_prog (demo_frozen ! 4) = Get_locks"
    by (simp_all add: demo_frozen_def abandoned_def cleaning_def announced_def new_thread_def Set_locks_def)
  have "th_prog (ts' ! 3) = Set_locks \<and> th_prog (ts' ! 4) = Get_locks"
    if run: "pool_run session_calls session_rounds demo_frozen ts'" for ts'
    using lost_reader_freezes_sessions [OF demo_sessions_run facts(1,2) run facts(3)]
      lost_reader_freezes_sessions [OF demo_sessions_run facts(1,2) run facts(4)] facts(3,5-7) by blast
  then show ?thesis
    by (intro conjI demo_sessions_run only_value [where a = demo_frozen]) auto
qed

text \<open>
  C8: A reader of policies that goes away, such as a browser that closes the dashboard, freezes the policy
  store: no update or deletion of a policy returns after it, and once one of them waits, no call of \<open>Get\<close>
  does.
\<close>

theorem lost_reader_freezes_policies:
  assumes "policy_pool ts" and "abandoned ts g Mu" and "pool_run policy_calls {} ts ts'" and "j < length ts"
  shows "(th_prog (ts ! j) \<in> {Update_policy_locks, Delete_policy_locks} \<longrightarrow> th_prog (ts' ! j) = th_prog (ts ! j))
    \<and> ((\<exists>k < length ts. announced Mu (ts ! k)) \<and> th_prog (ts ! j) = Get_policy_locks
         \<longrightarrow> th_prog (ts' ! j) = Get_policy_locks)"
proof -
  have r: "reader_there us Mu" if "pool_run policy_calls {} ts us" for us
    using abandoned_run [OF that assms(2)] abandoned_reader by blast
  show ?thesis
    using no_writer_returns [OF r assms(3,4)] no_reader_returns [OF r _ _ assms(3,4)]
    by (auto simp: Update_policy_locks_def Delete_policy_locks_def Get_policy_locks_def same_place_def)
qed

definition demo_policies :: "move list" where
  "demo_policies =
     [Calls (Stream_policies_locks 1), Runs 1, Runs 2, Leaves 2, Calls Update_policy_locks, Runs 3,
      Calls Get_policy_locks]"

definition demo_frozen_policies :: pool where
  "demo_frozen_policies =
     [new_thread [], new_thread [], (new_thread [Send, RUnlock Mu])\<lparr>th_read := {Mu}, th_reader := False\<rparr>,
      (new_thread Update_policy_locks)\<lparr>th_waits := True\<rparr>, new_thread Get_policy_locks]"

lemma demo_policies_run: "policy_pool demo_frozen_policies"
proof (rule play_run)
  show "play demo_policies start_pool = Some demo_frozen_policies"
    by (simp add: demo_policies_def demo_frozen_policies_def demo_play_defs lock_defs)
  show "list_all (move_allowed policy_calls {}) demo_policies"
    by (auto simp: demo_policies_def policy_calls_def)
qed

theorem lost_reader_freezes_policies_witness:
  "policy_pool demo_frozen_policies
   \<and> {th_prog (ts' ! 3) |ts'. pool_run policy_calls {} demo_frozen_policies ts'} = {Update_policy_locks}
   \<and> {th_prog (ts' ! 4) |ts'. pool_run policy_calls {} demo_frozen_policies ts'} = {Get_policy_locks}"
proof -
  have facts: "abandoned demo_frozen_policies 2 Mu" "3 < length demo_frozen_policies"
    "4 < length demo_frozen_policies" "announced Mu (demo_frozen_policies ! 3)"
    "th_prog (demo_frozen_policies ! 3) = Update_policy_locks"
    "th_prog (demo_frozen_policies ! 4) = Get_policy_locks"
    by (simp_all add: demo_frozen_policies_def abandoned_def announced_def new_thread_def Update_policy_locks_def)
  have "th_prog (ts' ! 3) = Update_policy_locks \<and> th_prog (ts' ! 4) = Get_policy_locks"
    if run: "pool_run policy_calls {} demo_frozen_policies ts'" for ts'
    using lost_reader_freezes_policies [OF demo_policies_run facts(1) run facts(2)]
      lost_reader_freezes_policies [OF demo_policies_run facts(1) run facts(3)] facts(2,4-6) by auto
  then show ?thesis
    by (intro conjI demo_policies_run only_value [where a = demo_frozen_policies]) auto
qed

end
