(* ===== verification/Twin_Locks.thy ===== *)
theory Twin_Locks
  imports Store_Locks
begin

text \<open>
  Two instances that stream their sessions to each other (\<^verbatim>\<open>StreamSessions\<close> of
  \<^verbatim>\<open>src/replication/server.go\<close> on one side, \<^verbatim>\<open>streamSessions\<close> of \<^verbatim>\<open>src/replication/connection.go\<close> on the other), with
  the locks of their session stores. Nobody goes away here; still the two can end up waiting for each
  other.
\<close>

section \<open>Two instances\<close>

text \<open>
  The pool of an instance has the cleaner first and then the goroutine that streams from the peer, the
  client: it takes a message when it is idle and then calls \<^verbatim>\<open>Set\<close>. \<open>tw_ab\<close> and \<open>tw_ba\<close> count the messages
  that are on their way; the connection holds at most \<open>cap\<close> of them in a direction.
\<close>

record twin =
  tw_a :: pool
  tw_b :: pool
  tw_ab :: nat
  tw_ba :: nat

definition swap :: "twin \<Rightarrow> twin" where
  "swap s = \<lparr>tw_a = tw_b s, tw_b = tw_a s, tw_ab = tw_ba s, tw_ba = tw_ab s\<rparr>"

lemma swap_simps [simp]:
  "tw_a (swap s) = tw_b s" "tw_b (swap s) = tw_a s" "tw_ab (swap s) = tw_ba s" "tw_ba (swap s) = tw_ab s"
  "swap (swap s) = s"
  by (simp_all add: swap_def)

definition sending :: "thread \<Rightarrow> bool" where
  "sending t \<longleftrightarrow> (case th_prog t of Send # p \<Rightarrow> True | _ \<Rightarrow> False)"

datatype twin_move = TRun nat | TSend nat | TReceive | TTick "instr list" | TCall "instr list"

text \<open>
  A move of the first instance: a goroutine runs, a stream puts a message on the connection, the client
  takes one, a round of the cleaner begins, or a method of the store is called.
\<close>

fun side_move :: "nat \<Rightarrow> twin_move \<Rightarrow> twin \<Rightarrow> twin option" where
  "side_move cap (TRun i) s =
     (if i < length (tw_a s) \<and> \<not> sending (tw_a s ! i)
      then map_option (\<lambda>t. s\<lparr>tw_a := (tw_a s)[i := t] @ spawned (tw_a s ! i)\<rparr>)
             (thread_next (tw_a s) (tw_a s ! i))
      else None)"
| "side_move cap (TSend i) s =
     (if i < length (tw_a s) \<and> sending (tw_a s ! i) \<and> tw_ab s < cap
      then Some (s\<lparr>tw_a := (tw_a s)[i := (tw_a s ! i)\<lparr>th_prog := tl (th_prog (tw_a s ! i))\<rparr>],
                   tw_ab := Suc (tw_ab s)\<rparr>)
      else None)"
| "side_move cap TReceive s =
     (if 1 < length (tw_a s) \<and> th_prog (tw_a s ! 1) = [] \<and> 0 < tw_ba s
      then Some (s\<lparr>tw_a := (tw_a s)[1 := (tw_a s ! 1)\<lparr>th_prog := Set_locks\<rparr>], tw_ba := tw_ba s - 1\<rparr>)
      else None)"
| "side_move cap (TTick p) s =
     (if tw_a s \<noteq> [] \<and> th_prog (tw_a s ! 0) = []
      then Some (s\<lparr>tw_a := (tw_a s)[0 := (tw_a s ! 0)\<lparr>th_prog := p\<rparr>]\<rparr>) else None)"
| "side_move cap (TCall p) s = Some (s\<lparr>tw_a := tw_a s @ [new_thread p]\<rparr>)"

fun allowed :: "twin_move \<Rightarrow> bool" where
  "allowed (TTick p) = (p \<in> session_rounds)"
| "allowed (TCall p) = (p \<in> session_calls)"
| "allowed m = True"

inductive twin_step :: "nat \<Rightarrow> twin \<Rightarrow> twin \<Rightarrow> bool" for cap where
  First: "allowed m \<Longrightarrow> side_move cap m s = Some s' \<Longrightarrow> twin_step cap s s'"
| Second: "allowed m \<Longrightarrow> side_move cap m (swap s) = Some s' \<Longrightarrow> twin_step cap s (swap s')"

abbreviation twin_run :: "nat \<Rightarrow> twin \<Rightarrow> twin \<Rightarrow> bool" where
  "twin_run cap \<equiv> (twin_step cap)\<^sup>*\<^sup>*"

definition twin_start :: twin where
  "twin_start = \<lparr>tw_a = [new_thread [], new_thread []], tw_b = [new_thread [], new_thread []],
     tw_ab = 0, tw_ba = 0\<rparr>"

section \<open>Stuck for ever\<close>

text \<open>
  One side: the cleaner asks for \<open>DelMu\<close>, the client for \<open>Mu\<close>, and a stream that has more to send holds
  \<open>DelMu\<close>.
\<close>

definition side_stuck :: "pool \<Rightarrow> bool" where
  "side_stuck ts \<longleftrightarrow> 1 < length ts \<and> cleaning ts \<and> th_prog (ts ! 1) = Set_locks
     \<and> (\<exists>g < length ts. sending (ts ! g) \<and> DelMu \<in> th_read (ts ! g))"

definition twin_stuck :: "nat \<Rightarrow> twin \<Rightarrow> bool" where
  "twin_stuck cap s \<longleftrightarrow> side_stuck (tw_a s) \<and> side_stuck (tw_b s) \<and> tw_ab s = cap \<and> tw_ba s = cap"

lemma twin_stuck_swap [simp]: "twin_stuck cap (swap s) = twin_stuck cap s"
  by (auto simp: twin_stuck_def)

lemma side_stuck_run:
  assumes "side_stuck ts" and "i < length ts" and "\<not> sending (ts ! i)"
    and "thread_next ts (ts ! i) = Some t"
  shows "side_stuck (ts[i := t] @ us)"
proof -
  obtain g p where g: "g < length ts" "sending (ts ! g)" "DelMu \<in> th_read (ts ! g)"
    and c: "1 < length ts" "th_prog (ts ! 0) = Lock DelMu # p" "Mu \<in> th_read (ts ! 0)"
      "th_prog (ts ! 1) = Lock Mu # [Unlock Mu]"
    using assms(1) by (auto simp: side_stuck_def cleaning_def Set_locks_def)
  have "i \<noteq> g" using g(2) assms(3) by auto
  have "ts ! 0 \<in> set ts" using c(1) by (intro nth_mem) linarith
  then have r: "reader_there ts DelMu" "reader_there ts Mu"
    using g c by (auto simp: reader_there_def)
  have "same_place (ts ! i) t" if "i = 0 \<or> i = 1"
    using that writer_waits [OF c(2) r(1)] writer_waits [OF c(4) r(2)] assms(4) by auto
  with g c \<open>i \<noteq> g\<close> assms(2) show ?thesis
    unfolding side_stuck_def cleaning_def
    by (auto simp: nth_append nth_list_update same_place_def Set_locks_def intro!: exI [of _ g])
qed

lemma side_move_stuck: "side_move cap m s = Some s' \<Longrightarrow> twin_stuck cap s \<Longrightarrow> twin_stuck cap s'"
proof (cases m)
  case (TRun i)
  moreover assume "side_move cap m s = Some s'" "twin_stuck cap s"
  ultimately show ?thesis
    by (auto simp: twin_stuck_def side_stuck_run split: if_splits)
next
  case (TCall p)
  moreover assume "side_move cap m s = Some s'" "twin_stuck cap s"
  ultimately show ?thesis
    by (auto simp: twin_stuck_def side_stuck_def cleaning_def nth_append intro: less_SucI)
qed (auto simp: twin_stuck_def side_stuck_def cleaning_def Set_locks_def split: if_splits)

lemma twin_step_stuck: "twin_step cap s s' \<Longrightarrow> twin_stuck cap s \<Longrightarrow> twin_stuck cap s'"
  by (induction rule: twin_step.induct) (use side_move_stuck in fastforce)+

lemma twin_run_stuck: "twin_run cap s s' \<Longrightarrow> twin_stuck cap s \<Longrightarrow> twin_stuck cap s'"
  by (induction rule: rtranclp_induct) (auto intro: twin_step_stuck)

section \<open>The way there\<close>

fun twin_play :: "nat \<Rightarrow> (bool \<times> twin_move) list \<Rightarrow> twin \<Rightarrow> twin option" where
  "twin_play cap [] s = Some s"
| "twin_play cap ((True, m) # ms) s = Option.bind (side_move cap m s) (twin_play cap ms)"
| "twin_play cap ((False, m) # ms) s =
     Option.bind (side_move cap m (swap s)) (\<lambda>s'. twin_play cap ms (swap s'))"

lemma twin_play_run:
  "twin_play cap ms s = Some s' \<Longrightarrow> \<forall>m \<in> snd ` set ms. allowed m \<Longrightarrow> twin_run cap s s'"
proof (induction cap ms s rule: twin_play.induct)
  case (2 cap m ms s)
  then show ?case
    by (auto simp: bind_eq_Some_conv intro: converse_rtranclp_into_rtranclp twin_step.First)
next
  case (3 cap m ms s)
  then show ?case
    by (auto simp: bind_eq_Some_conv intro: converse_rtranclp_into_rtranclp twin_step.Second)
qed simp

lemma twin_play_append:
  "twin_play cap (ms @ ns) s = Option.bind (twin_play cap ms s) (twin_play cap ns)"
  by (induction cap ms s rule: twin_play.induct) (auto split: bind_splits)

text \<open>A stream fills the connection.\<close>

lemma fill:
  assumes "i < length (tw_a s)" and "th_prog (tw_a s ! i) = replicate k Send @ p" and "tw_ab s + k \<le> cap"
  shows "twin_play cap (replicate k (True, TSend i)) s
    = Some (s\<lparr>tw_a := (tw_a s)[i := (tw_a s ! i)\<lparr>th_prog := p\<rparr>], tw_ab := tw_ab s + k\<rparr>)"
  using assms
proof (induction k arbitrary: s)
  case 0
  then have "(tw_a s)[i := (tw_a s ! i)\<lparr>th_prog := p\<rparr>] = tw_a s"
    by (metis list_update_id thread.surjective thread.update_convs(1) append_Nil replicate_0)
  then show ?case by simp
next
  case (Suc k)
  then show ?case by (simp add: sending_def)
qed

lemma fill_other:
  assumes "i < length (tw_b s)" and "th_prog (tw_b s ! i) = replicate k Send @ p" and "tw_ba s + k \<le> cap"
  shows "twin_play cap (replicate k (False, TSend i)) s
    = Some (s\<lparr>tw_b := (tw_b s)[i := (tw_b s ! i)\<lparr>th_prog := p\<rparr>], tw_ba := tw_ba s + k\<rparr>)"
proof -
  have "twin_play cap (map (\<lambda>m. (False, m)) ms) s = map_option swap (twin_play cap (map (\<lambda>m. (True, m)) ms) (swap s))"
    for ms s
    by (induction ms arbitrary: s) (auto simp: map_option_bind bind_map_option comp_def split: bind_splits)
  from this [of "replicate k (TSend i)" s] assms fill [of i "swap s" k p cap]
  show ?thesis by (simp add: map_replicate swap_def)
qed

text \<open>
  On both sides a stream of \<open>n\<close> sessions begins, its goroutine takes \<open>DelMu\<close> and sends the first session, the
  client of the other side takes it, and a round of the cleaner begins.
\<close>

definition first_moves :: "nat \<Rightarrow> (bool \<times> twin_move) list" where
  "first_moves n = concat (map (\<lambda>m. [(True, m), (False, m)])
     [TCall (Stream_locks n), TRun 2, TRun 2, TRun 2, TRun 3, TSend 3, TReceive, TTick (clean_locks 0), TRun 0])"

definition engaged :: "nat \<Rightarrow> pool" where
  "engaged n =
     [\<lparr>th_prog = [Lock DelMu, Unlock DelMu, RUnlock Mu], th_read = {Mu}, th_write = {}, th_waits = False, th_reader = True\<rparr>,
      new_thread Set_locks,
      new_thread [],
      \<lparr>th_prog = replicate n Send @ [RUnlock DelMu], th_read = {DelMu}, th_write = {}, th_waits = False, th_reader = True\<rparr>]"

lemma first_moves_play:
  "twin_play (Suc m) (first_moves (Suc n)) twin_start
    = Some \<lparr>tw_a = engaged n, tw_b = engaged n, tw_ab = 0, tw_ba = 0\<rparr>"
  by (simp add: first_moves_def twin_start_def new_thread_def lock_defs clean_locks_def sending_def thread_next_def
      reader_there_def writer_there_def announced_def spawned_def swap_def engaged_def numeral_2_eq_2 numeral_3_eq_3)

lemma first_moves_allowed: "\<forall>m \<in> snd ` set (first_moves n). allowed m"
  by (auto simp: first_moves_def session_calls_def session_rounds_def)

definition crossed :: "nat \<Rightarrow> twin" where
  "crossed m =
     \<lparr>tw_a = (engaged (Suc (Suc m)))[3 := (engaged (Suc (Suc m)) ! 3)\<lparr>th_prog := [Send, RUnlock DelMu]\<rparr>],
      tw_b = (engaged (Suc (Suc m)))[3 := (engaged (Suc (Suc m)) ! 3)\<lparr>th_prog := [Send, RUnlock DelMu]\<rparr>],
      tw_ab = Suc m, tw_ba = Suc m\<rparr>"

lemma replicate_last: "replicate (Suc k) x @ ys = replicate k x @ x # ys"
  by (induction k) auto

lemma engaged_sends:
  "3 < length (engaged n)"
  "th_prog (engaged (Suc (Suc m)) ! 3) = replicate (Suc m) Send @ [Send, RUnlock DelMu]"
  using replicate_last [of "Suc m" Send "[RUnlock DelMu]"] by (simp_all add: engaged_def del: replicate_Suc)

lemma crossed_play:
  "twin_play (Suc m)
     (first_moves (Suc (Suc (Suc m))) @ replicate (Suc m) (True, TSend 3) @ replicate (Suc m) (False, TSend 3))
     twin_start = Some (crossed m)"
  using engaged_sends [of "Suc (Suc m)"] engaged_sends(2) [of m]
  by (simp add: twin_play_append first_moves_play fill [where p = "[Send, RUnlock DelMu]"]
      fill_other [where p = "[Send, RUnlock DelMu]"] crossed_def del: replicate_Suc)

lemma crossed_run: "twin_run (Suc m) twin_start (crossed m)"
  by (rule twin_play_run [OF crossed_play]) (use first_moves_allowed in auto)

lemma crossed_stuck: "twin_stuck (Suc m) (crossed m)"
  by (auto simp: crossed_def twin_stuck_def side_stuck_def cleaning_def engaged_def sending_def new_thread_def
      Set_locks_def intro!: exI [of _ 3])

text \<open>
  C9: Two instances that stream their sessions to each other can wait for each other for ever, however many
  messages the connection holds: with enough sessions on both sides and a round of the cleaner on both,
  neither client returns from \<open>Set\<close> and neither round ends, whatever happens next.
\<close>

theorem mutual_streams_block:
  "\<exists>s. twin_run (Suc m) twin_start s
     \<and> {(th_prog (tw_a t ! 1), th_prog (tw_b t ! 1)) |t. twin_run (Suc m) s t} = {(Set_locks, Set_locks)}
     \<and> {cleaning (tw_a t) \<and> cleaning (tw_b t) |t. twin_run (Suc m) s t} = {True}"
proof (intro exI conjI)
  have stuck: "side_stuck (tw_a t) \<and> side_stuck (tw_b t)" if "twin_run (Suc m) (crossed m) t" for t
    using twin_run_stuck [OF that crossed_stuck] by (simp add: twin_stuck_def)
  show "twin_run (Suc m) twin_start (crossed m)" by (rule crossed_run)
  show "{(th_prog (tw_a t ! 1), th_prog (tw_b t ! 1)) |t. twin_run (Suc m) (crossed m) t} = {(Set_locks, Set_locks)}"
    by (rule only_value [where a = "crossed m"]) (use stuck in \<open>auto simp: side_stuck_def\<close>)
  show "{cleaning (tw_a t) \<and> cleaning (tw_b t) |t. twin_run (Suc m) (crossed m) t} = {True}"
    by (rule only_value [where a = "crossed m"]) (use stuck in \<open>auto simp: side_stuck_def\<close>)
qed

end
