(* ===== verification/Spec2Isabelle.thy ===== *)
theory Spec2Isabelle
  imports Process Leader_Fixpoint Log_Content Deployment Twin_Locks
begin

text \<open>
  istio-oidc is an external authorization server for Envoy. Every instance answers the authorization
  calls of Envoy (\<^verbatim>\<open>src/auth\<close>): it logs users in with OpenID Connect, keeps their sessions
  (\<^verbatim>\<open>src/state/session\<close>) and checks their roles. The instances copy their sessions to each other
  (\<^verbatim>\<open>src/replication\<close>). Kubernetes controllers (\<^verbatim>\<open>src/controller\<close>) read the AccessPolicy and
  OpenIDProvider resources (\<^verbatim>\<open>src/api\<close>), fill the policy store of the auth server
  (\<^verbatim>\<open>src/state/accesspolicy\<close>, \<^verbatim>\<open>src/state/openidprovider\<close>) and write the EnvoyFilters that make Envoy call
  the auth server. \<^verbatim>\<open>src/main.go\<close> puts these parts together.

  \<^bold>\<open>Conventions.\<close> \<^verbatim>\<open>Prelude\<close> has the outcome of a Go function (\<open>Ok\<close>, \<open>Err\<close>, \<open>Panic\<close>), Go maps as
  partial functions with \<open>lookup0\<close> for reading a missing key, and \<open>ranges m ks\<close>: \<open>ks\<close> is an order in
  which a \<^verbatim>\<open>range\<close> loop may visit the map \<open>m\<close>. A Go string is a list of bytes, a \<^verbatim>\<open>uint64\<close> a 64-bit word
  that wraps around, a time the nanoseconds since Go's zero time. Method calls under a mutex are one
  step; that the mutexes allow this, and when they block, is in \<^verbatim>\<open>Rw_Lock\<close>, \<^verbatim>\<open>Lock_Discipline\<close> and
  \<^verbatim>\<open>Store_Locks\<close>. Log output is left out of the operations; what an entry holds is in \<^verbatim>\<open>Logging\<close>
  and \<^verbatim>\<open>Log_Content\<close>.

  \<^bold>\<open>Go's library\<close>, written out as far as the program uses it: \<^verbatim>\<open>Go_Strings\<close> (UTF-8, numbers in text),
  \<^verbatim>\<open>Go_Url\<close> (\<^verbatim>\<open>net/url\<close>), \<^verbatim>\<open>Go_Query\<close> (a query read back),
  \<^verbatim>\<open>Go_Http\<close> (cookies), \<^verbatim>\<open>Go_Regexp\<close> (backtracking with captures),
  \<^verbatim>\<open>Go_Duration\<close> (how a duration in seconds is rounded and printed), \<^verbatim>\<open>Go_Base64\<close>, \<^verbatim>\<open>Go_Template\<close> (templates,
  their execution, types and HTML escaping).

  \<^bold>\<open>Components.\<close>
  \<^item> \<^verbatim>\<open>Errors\<close>, \<^verbatim>\<open>Logging\<close>: \<^verbatim>\<open>src/log\<close>. The errors with their fields, the key/value lists, the entries.
    \<^verbatim>\<open>Log_Content\<close> has what the check and the connections log, and that the log shows authorization codes.
  \<^item> \<^verbatim>\<open>Session_Store\<close>: \<^verbatim>\<open>state/session/store.go\<close>. The store by id and by peer, \<open>Set\<close>, \<open>Stream\<close>, \<open>clean\<close>;
    the locale \<open>session_store\<close> is the interface the rest relies on. Invariant under \<open>store_reachable\<close>, the outcome of \<open>Set\<close>, streams, one removal per peer and cleaning, termination.
  \<^item> \<^verbatim>\<open>Rw_Lock\<close>, \<^verbatim>\<open>Lock_Discipline\<close>, \<^verbatim>\<open>Store_Locks\<close>: the mutexes and channels of \<^verbatim>\<open>state/session/store.go\<close> and
    \<^verbatim>\<open>state/accesspolicy/store.go\<close>. Every method is the list of its lock operations and sends, and
    goroutines run them in any order, as \<^verbatim>\<open>sync.RWMutex\<close> lets them. Mutual exclusion, that all calls return as
    long as every channel is read, and that a reader that goes away leaves a store locked for ever.
    \<^verbatim>\<open>Twin_Locks\<close> has two instances that stream to each other, over a connection that holds any
    bounded number of messages, and the deadlock they can run into.
  \<^item> \<^verbatim>\<open>Telemetry_Dashboard\<close>, \<^verbatim>\<open>Dashboard_Page\<close>: \<^verbatim>\<open>telemetry/dashboard.go\<close> and the routes of \<^verbatim>\<open>src/telemetry\<close>. The
    template is well typed for the stores' data, computes a reference page, shows no secret and no markup of
    the data's own.
  \<^item> \<^verbatim>\<open>Role_Path\<close>, \<^verbatim>\<open>Role_Extract\<close>, \<^verbatim>\<open>Oidc_Provider\<close>: \<^verbatim>\<open>state/openidprovider\<close>. The parser of role paths
    (round trip with a printer, exact condition of its panics), roles from JSON, the conversion of a
    provider, the reading of tokens.
  \<^item> \<^verbatim>\<open>Api_Access_Policy\<close>, \<^verbatim>\<open>Access_Policy\<close>: \<^verbatim>\<open>api/accesspolicy.go\<close>, \<^verbatim>\<open>state/accesspolicy\<close>. Validation,
    defaulting, conversion, the store of policies, and that a redirect is recognised as the callback.
  \<^item> \<^verbatim>\<open>Config\<close>: \<^verbatim>\<open>src/config\<close>. Defaults, exits and the advertised address.
  \<^item> \<^verbatim>\<open>Replication_Self\<close>, \<^verbatim>\<open>Replication_Peers\<close>, \<^verbatim>\<open>Replication_Node\<close>, \<^verbatim>\<open>Replication_Claims\<close>,
    \<^verbatim>\<open>Replication_Worker\<close>: \<^verbatim>\<open>src/replication\<close> and the probes of \<^verbatim>\<open>src/telemetry\<close>. A node has its
    connections on a heap and its goroutines as tasks; \<open>node_step\<close> and \<open>worker_step\<close> run them in any
    order. Invariant of the connections, what a synchronisation achieves, and where the protocol gets
    stuck. The receive loop of a stream is one step; \<^verbatim>\<open>grpc.Dial\<close>, whose error the code drops, is taken
    not to fail, so no connection is nil.
  \<^item> \<^verbatim>\<open>Auth_Roles\<close>, \<^verbatim>\<open>Auth_Server\<close>, \<^verbatim>\<open>Auth_Claims\<close>, \<^verbatim>\<open>Auth_Login\<close>, \<^verbatim>\<open>Auth_Envoy\<close>: \<^verbatim>\<open>src/auth\<close>. The check of a
    request with all its branches; who is let through, logins, refreshes, panics.
  \<^item> \<^verbatim>\<open>Kube\<close>, \<^verbatim>\<open>Controller_Watch\<close>: the Kubernetes objects and client, the \<open>act\<close> of a reconciler (a run
    that records its writes and events), the states of the cluster between these (\<open>seen\<close>), the predicates on
    events, the mappers and the registration of \<^verbatim>\<open>src/controller\<close>.
  \<^item> \<^verbatim>\<open>Policy_Leader\<close>, \<^verbatim>\<open>Leader_Fixpoint\<close>, \<^verbatim>\<open>Policy_Worker\<close>: \<^verbatim>\<open>controller/accesspolicy\<close>. What the leader
    leaves behind (\<open>in_shape\<close> is its contract: the gateway and the secret are the ones that the spec names,
    as the cluster had them during the run), that it then comes to rest, when a run of it panics, what the
    worker stores or warns of, and that no policy leaves the store.
  \<^item> \<^verbatim>\<open>Envoy_Filter\<close>, \<^verbatim>\<open>Filter_Reconciler\<close>: \<^verbatim>\<open>controller/envoyfilter\<close>. The patches down to the protobuf
    values, read back as rules (\<open>patch_rule\<close>), and the reconciler that writes or deletes a filter.
  \<^item> \<^verbatim>\<open>Controller_Role\<close>: \<^verbatim>\<open>controller/role.go\<close>. The permissions, the API server that enforces them on reads
    and writes (\<open>under_role\<close>), under which the controllers do what they do with all rights but for one
    deletion, and the locale \<open>reconciler\<close> with what the three reconcilers have in common.
  \<^item> \<^verbatim>\<open>System_Claims\<close>: properties of several controllers and the auth server together.
  \<^item> \<^verbatim>\<open>Process\<close>: \<^verbatim>\<open>main.go\<close>, \<^verbatim>\<open>config/load.go\<close>. The start of the process and \<open>inst_step\<close>, the step relation of
    all components over the state they share; \<open>inst_run\<close> is a run with the states it passed.
    \<open>admitted_by_converted_policy\<close> follows a request through all of them: it is let through only under the
    conversion of a policy that could be read from the cluster in one of these states, with a token that
    verifies under the secret the cluster had for it.
  \<^item> \<^verbatim>\<open>Deployment\<close>: \<^verbatim>\<open>deployment/generate.go\<close>. The build tool that writes the resources of the
    deployment: documents that are put together come apart again, and only three files are written.

  \<^bold>\<open>Interfaces.\<close> The locales \<open>range_loop\<close> (a loop whose order does not matter), \<open>session_store\<close>,
  \<open>keyed_store\<close> (the policy store), \<open>lock_discipline\<close> (in which order a store takes its locks),
  \<open>endpoint_lookup\<close>, \<open>object_predicate\<close> and \<open>reconciler\<close> state what a component promises; each is interpreted on the program's own operations.

  \<^bold>\<open>Parameters and laws.\<close> Code outside the repository is an argument: the JWT and OAuth2 libraries and
  SHA-512 (\<open>env\<close>; \<open>env_law\<close> says that what is signed verifies), the DNS resolver, the protobuf
  timestamps (\<open>ts_law\<close>), the HTTP client and JSON decoder, the Unicode tables, the network interfaces,
  the Kubernetes client (\<open>kube\<close>; \<open>update_law\<close> says what an accepted update answers, \<open>enforces_role\<close>
  that role-based access control is on), \<^verbatim>\<open>sort.Slice\<close> (\<open>sorts\<close>), the random source. Every theorem
  with such a law has a witness in which the law holds.

  \<^bold>\<open>Bounds.\<close> Loops are structural or have a termination proof. Only the loop of \<open>clean\<close> over a linked
  list has fuel, one more than the length of the list; \<open>cleaning_loop_ends\<close> shows that the length
  suffices. The float64 division in \<open>Go_Duration\<close> is exact rounding to 53 bits.

  Template calls nest at most 100000 deep, as in the library; the dashboard needs three.

  \<^bold>\<open>Not modelled.\<close> The exporter behind \<^verbatim>\<open>/metrics\<close> and the removal of two default collectors
  (\<^verbatim>\<open>telemetry/metrics.go\<close>: calls of a library), \<^verbatim>\<open>api/generate.go\<close> and \<^verbatim>\<open>api/tools.go\<close> (code generation,
  no code of their own). Timers appear as steps
  that may happen at any time; the memory model of Go, and so data races, are out of scope.
\<close>

end
